(* ===== verification/Prelude.thy ===== *)
theory Prelude
  imports Main "HOL-Library.Word"
begin

text \<open>
  Prelude of the development: the Go-level types every component shares (machine integers, byte
  strings, instants and durations, error values), and the generic list, option and sum lemmas the
  component proofs rest on.

  Conventions.
  \<^item> A Go \<open>string\<close> or \<open>[]byte\<close> is a HOL \<open>string\<close>: HOL characters are bytes, so \<open>length\<close> is
    Go's \<open>len\<close>.
  \<^item> Go's \<open>int\<close> and \<open>int64\<close> are \<open>int\<close>; a conversion or a product that can leave the type's range
    goes through \<open>int32\<close> or \<open>int64\<close> below, which wrap as the language does.
  \<^item> An instant (\<open>time.Time\<close>) is the number of nanoseconds since Go's zero time, so \<open>IsZero\<close> is
    \<open>t = 0\<close>; a \<open>time.Duration\<close> is its number of nanoseconds.
  \<^item> A pointer that may be nil and a nullable column are \<open>option\<close>s.
  \<^item> A Go function returning \<open>(T, error)\<close> returns \<open>goerr + T\<close>, one returning \<open>error\<close> returns
    \<open>goerr option\<close>.
\<close>

named_theorems codec_simps \<open>conversions between the row, the sqlc struct and the domain struct\<close>
named_theorems stmt_defs \<open>definitions of the SQL statements\<close>

type_synonym uuid = "128 word"
type_synonym gotime = int
type_synonym duration = int

section \<open>Machine integers\<close>

text \<open>The Go conversions \<open>int32(x)\<close> and \<open>int64(x)\<close>, and the two's complement result of an
  operation carried out at that width.\<close>

definition int32 :: "int \<Rightarrow> int" where
  "int32 x = sint (word_of_int x :: 32 word)"

definition int64 :: "int \<Rightarrow> int" where
  "int64 x = sint (word_of_int x :: 64 word)"

definition in_int32 :: "int \<Rightarrow> bool" where
  "in_int32 x \<longleftrightarrow> - (2 ^ 31) \<le> x \<and> x < 2 ^ 31"

definition in_int64 :: "int \<Rightarrow> bool" where
  "in_int64 x \<longleftrightarrow> - (2 ^ 63) \<le> x \<and> x < 2 ^ 63"

lemma int32_mod: "int32 x = (x + 2 ^ 31) mod 2 ^ 32 - 2 ^ 31"
  by (simp add: int32_def signed_of_int signed_take_bit_eq_take_bit_shift take_bit_eq_mod)

lemma int64_mod: "int64 x = (x + 2 ^ 63) mod 2 ^ 64 - 2 ^ 63"
  by (simp add: int64_def signed_of_int signed_take_bit_eq_take_bit_shift take_bit_eq_mod)

lemma int32_range: "in_int32 (int32 x)"
  by (simp add: int32_mod in_int32_def)

lemma int64_range: "in_int64 (int64 x)"
  by (simp add: int64_mod in_int64_def)

lemma int32_id [simp]: "in_int32 x \<Longrightarrow> int32 x = x"
  by (simp add: int32_mod in_int32_def)

lemma int64_id [simp]: "in_int64 x \<Longrightarrow> int64 x = x"
  by (simp add: int64_mod in_int64_def)

lemma int32_wraps: "int32 (x + 2 ^ 32) = int32 x"
proof -
  have "x + 2 ^ 32 + 2 ^ 31 = x + 2 ^ 31 + (2 ^ 32 :: int)"
    by simp
  then show ?thesis
    by (simp only: int32_mod mod_add_self2)
qed

section \<open>Nanoseconds per unit\<close>

definition Microsecond :: duration where "Microsecond = 1000"
definition Millisecond :: duration where "Millisecond = 1000 * Microsecond"
definition Second :: duration where "Second = 1000 * Millisecond"
definition Minute :: duration where "Minute = 60 * Second"

lemmas duration_units = Microsecond_def Millisecond_def Second_def Minute_def

text \<open>Go's integer division truncates towards zero.\<close>

definition go_div :: "int \<Rightarrow> int \<Rightarrow> int" where
  "go_div a b = sgn a * sgn b * (\<bar>a\<bar> div \<bar>b\<bar>)"

lemma go_div_nonneg: "0 \<le> a \<Longrightarrow> 0 < b \<Longrightarrow> go_div a b = a div b"
  by (cases "a = 0") (auto simp: go_div_def)

section \<open>Error values\<close>

text \<open>
  The seven Conjure error types of \<open>internal/generated/signalium/api/errors.conjure.go\<close> with the
  parameters their constructors take, and the error values the program builds and compares.
  \<open>Sentinel\<close> is a package-level error variable compared with \<open>errors.Is\<close>; \<open>Opaque\<close> an error the
  program only passes on; \<open>Wrapped\<close> an error whose \<open>Unwrap\<close> gives its cause (\<open>werror.Wrap\<close> and
  \<open>fmt.Errorf\<close> with \<open>%w\<close>); \<open>Conj\<close> a Conjure error around its cause, which has a \<open>Cause\<close> method
  and no \<open>Unwrap\<close>.
\<close>

datatype conjerr =
    IdempotencyConflict string
  | InvalidSignalMessage string string
  | SignalMessageNotFound string
  | SenderMismatch string string
  | AttachmentUploadFailed string
  | SignalCliUnavailable string int
  | InternalServiceError

datatype sentinel =
    ErrNotFound
  | ErrIdempotencyConflict
  | ErrNoRows
  | EOF
  | ErrDisconnected
  | ErrShutdown
  | CtxErr

datatype goerr =
    Sentinel sentinel
  | Opaque string
  | Wrapped string goerr
  | Conj conjerr goerr

text \<open>The standard library's \<open>errors.Is\<close> against a sentinel: the chain of \<open>Unwrap\<close> calls.\<close>

fun errors_Is :: "goerr \<Rightarrow> sentinel \<Rightarrow> bool" where
  "errors_Is (Sentinel s) t = (s = t)"
| "errors_Is (Opaque m) t = False"
| "errors_Is (Wrapped m e) t = errors_Is e t"
| "errors_Is (Conj c e) t = False"

section \<open>Lists\<close>

lemma find_Some_iff_first:
  "List.find P xs = Some x \<Longrightarrow> x \<in> set xs \<and> P x"
  by (auto simp: find_Some_iff)

lemma map_update_length_filter:
  "length (filter P (map (\<lambda>x. if P x then f x else x) xs)) =
     length (filter (\<lambda>x. P x \<and> P (f x)) xs)"
  by (induction xs) auto

lemma distinct_map_filter_conv:
  assumes "distinct (map f xs)" and "x \<in> set xs" and "y \<in> set xs" and "f x = f y"
  shows "x = y"
  using assms by (auto simp: distinct_map dest: inj_onD)

lemma distinct_map_same:
  assumes "distinct (map f xs)" and "\<And>x. x \<in> set xs \<Longrightarrow> f (g x) = f x"
  shows "distinct (map f (map g xs))"
proof -
  have "map f (map g xs) = map f xs"
    using assms(2) by simp
  with assms(1) show ?thesis
    by (simp only:)
qed

end
