(* ===== verification/Domain.thy ===== *)
theory Domain
  imports Prelude
begin

text \<open>
  The domain layer, \<open>internal/domain\<close>: the status type with its SQL binding, the attachment
  reference and the message the other layers exchange. \<open>SignalMessageStatus\<close> is a Go string type,
  so it is \<open>string\<close> here; the Postgres enum it is bound to is the datatype \<open>pg_status\<close>, and
  \<open>pg_enum_in\<close>/\<open>pg_enum_out\<close> are the enum's text input and output.
\<close>

section \<open>Status\<close>

type_synonym SignalMessageStatus = string

definition StatusPending :: SignalMessageStatus where "StatusPending = ''PENDING''"
definition StatusSending :: SignalMessageStatus where "StatusSending = ''SENDING''"
definition StatusSent :: SignalMessageStatus where "StatusSent = ''SENT''"
definition StatusFailed :: SignalMessageStatus where "StatusFailed = ''FAILED''"
definition StatusPermanentFailed :: SignalMessageStatus where
  "StatusPermanentFailed = ''PERMANENT_FAILED''"
definition StatusTimedOut :: SignalMessageStatus where "StatusTimedOut = ''TIMED_OUT''"

lemmas status_strings = StatusPending_def StatusSending_def StatusSent_def StatusFailed_def
  StatusPermanentFailed_def StatusTimedOut_def

definition IsTerminal :: "SignalMessageStatus \<Rightarrow> bool" where
  "IsTerminal s =
     (if s = StatusSent \<or> s = StatusPermanentFailed \<or> s = StatusTimedOut then True
      else if s = StatusPending \<or> s = StatusSending \<or> s = StatusFailed then False
      else False)"

text \<open>The Postgres enum \<open>signalium.signal_message_status\<close>, in its declaration order.\<close>

datatype pg_status = PENDING | SENDING | SENT | FAILED | PERMANENT_FAILED | TIMED_OUT

fun pg_enum_out :: "pg_status \<Rightarrow> string" where
  "pg_enum_out PENDING = ''PENDING''"
| "pg_enum_out SENDING = ''SENDING''"
| "pg_enum_out SENT = ''SENT''"
| "pg_enum_out FAILED = ''FAILED''"
| "pg_enum_out PERMANENT_FAILED = ''PERMANENT_FAILED''"
| "pg_enum_out TIMED_OUT = ''TIMED_OUT''"

definition pg_statuses :: "pg_status list" where
  "pg_statuses = [PENDING, SENDING, SENT, FAILED, PERMANENT_FAILED, TIMED_OUT]"

definition pg_enum_in :: "string \<Rightarrow> pg_status option" where
  "pg_enum_in s = List.find (\<lambda>v. pg_enum_out v = s) pg_statuses"

text \<open>A Postgres enum is ordered as it is declared.\<close>

fun pg_rank :: "pg_status \<Rightarrow> nat" where
  "pg_rank PENDING = 0"
| "pg_rank SENDING = 1"
| "pg_rank SENT = 2"
| "pg_rank FAILED = 3"
| "pg_rank PERMANENT_FAILED = 4"
| "pg_rank TIMED_OUT = 5"

lemma pg_rank_inject: "pg_rank a = pg_rank b \<longleftrightarrow> a = b"
  by (cases a; cases b) simp_all

instantiation pg_status :: linorder
begin

definition less_eq_pg_status :: "pg_status \<Rightarrow> pg_status \<Rightarrow> bool" where
  "less_eq_pg_status a b \<longleftrightarrow> pg_rank a \<le> pg_rank b"

definition less_pg_status :: "pg_status \<Rightarrow> pg_status \<Rightarrow> bool" where
  "less_pg_status a b \<longleftrightarrow> pg_rank a < pg_rank b"

instance
  by standard (auto simp: less_eq_pg_status_def less_pg_status_def pg_rank_inject)

end

text \<open>Values \<open>pgx\<close> hands to \<open>Scan\<close>: the dynamic type decides the branch.\<close>

datatype any = ANil | AString string | ABytes string | AInt64 int | AOther string

definition SignalMessageStatus_Value :: "SignalMessageStatus \<Rightarrow> goerr + any" where
  "SignalMessageStatus_Value s = Inr (AString s)"

fun SignalMessageStatus_Scan :: "any \<Rightarrow> goerr + SignalMessageStatus" where
  "SignalMessageStatus_Scan ANil = Inr ''''"
| "SignalMessageStatus_Scan (AString v) = Inr v"
| "SignalMessageStatus_Scan (ABytes v) = Inr v"
| "SignalMessageStatus_Scan (AInt64 n) =
     Inl (Opaque (''signal_message_status: cannot scan int64''))"
| "SignalMessageStatus_Scan (AOther ty) =
     Inl (Opaque (''signal_message_status: cannot scan '' @ ty))"

section \<open>Messages\<close>

record Attachment =
  att_Bucket :: string
  att_Filename :: string
  att_MimeType :: string
  att_Size :: int

type_synonym Attachments = "Attachment list"

record SignalMessage =
  sm_ID :: uuid
  sm_ExternalID :: string
  sm_IdempotencyKey :: "string option"
  sm_Recipient :: "string option"
  sm_GroupID :: "string option"
  sm_SenderPhoneNumber :: string
  sm_Content :: string
  sm_Attachments :: Attachments
  sm_Attempts :: int
  sm_MaxAttempts :: int
  sm_NextAttemptAt :: gotime
  sm_TimeoutAt :: "gotime option"
  sm_Status :: SignalMessageStatus
  sm_LastError :: "string option"
  sm_ResultID :: "string option"
  sm_QuoteResultID :: "string option"
  sm_CorrelationID :: string
  sm_CreatedAt :: gotime
  sm_ModifiedAt :: gotime

section \<open>Lemmas\<close>

lemma pg_enum_roundtrip [simp]: "pg_enum_in (pg_enum_out v) = Some v"
  by (cases v) (simp_all add: pg_enum_in_def pg_statuses_def)

lemma pg_enum_out_inject [simp]: "pg_enum_out a = pg_enum_out b \<longleftrightarrow> a = b"
  by (cases a; cases b) simp_all

lemma pg_enum_in_Some: "pg_enum_in s = Some v \<longleftrightarrow> s = pg_enum_out v"
proof
  assume "pg_enum_in s = Some v"
  then show "s = pg_enum_out v"
    by (auto simp: pg_enum_in_def dest: find_Some_iff_first)
qed simp

lemma IsTerminal_enum [simp]:
  "IsTerminal (pg_enum_out v) \<longleftrightarrow> v = SENT \<or> v = PERMANENT_FAILED \<or> v = TIMED_OUT"
  by (cases v) (simp_all add: IsTerminal_def status_strings)

lemma status_strings_enum:
  "StatusPending = pg_enum_out PENDING" "StatusSending = pg_enum_out SENDING"
  "StatusSent = pg_enum_out SENT" "StatusFailed = pg_enum_out FAILED"
  "StatusPermanentFailed = pg_enum_out PERMANENT_FAILED"
  "StatusTimedOut = pg_enum_out TIMED_OUT"
  by (simp_all add: status_strings)

end
