(* ===== verification/Sqlc.thy ===== *)
theory Sqlc
  imports Domain "HOL-Library.Char_ord" "HOL-Library.List_Lexorder" "HOL-Library.Product_Lexorder"
begin

text \<open>
  The table \<open>signalium.signal_messages\<close> (\<open>migrations/20260519000000_init.sql\<close>) and the statements of
  \<open>internal/repo/sqlc/signal_messages.sql.go\<close>. A table is the list of its rows, a statement a function
  from a table to its answer and the table it leaves; \<open>now\<close> is the transaction's \<open>now()\<close>. An error
  of the server (a violated constraint, a bad enum text, a value out of range) aborts the statement
  and leaves the table as it was. The \<open>ILIKE\<close> operator, the day text of a timestamp, the order in which
  \<open>GROUP BY\<close> delivers its groups, the uuid \<open>gen_random_uuid()\<close> draws and the set of rows other
  transactions have locked are the server's, and arguments here.
\<close>

section \<open>Rows\<close>

record row =
  signal_message_id :: uuid
  external_id :: string
  idempotency_key :: "string option"
  recipient :: "string option"
  group_id :: "string option"
  sender_phone_number :: string
  content :: string
  attachments :: Attachments
  attempts :: int
  max_attempts :: int
  next_attempt_at :: gotime
  timeout_at :: "gotime option"
  status :: pg_status
  last_error :: "string option"
  result_id :: "string option"
  quote_result_id :: "string option"
  correlation_id :: string
  created_at :: gotime
  modified_at :: gotime
  deleted_at :: "gotime option"

type_synonym table = "row list"
type_synonym 'a stmt = "table \<Rightarrow> (goerr + 'a) \<times> table"

definition sql_error :: "string \<Rightarrow> goerr" where
  "sql_error m = Opaque m"

section \<open>Driver values\<close>

text \<open>The \<open>pgtype\<close> structs the generated code passes to the driver and reads from it; a value that is
  not \<open>Valid\<close> is SQL's NULL. A \<open>timestamptz\<close> holds microseconds.\<close>

record pgUUID =
  uuid_Bytes :: uuid
  uuid_Valid :: bool

record Timestamptz =
  tstz_Time :: gotime
  tstz_Valid :: bool

record Interval =
  iv_Microseconds :: int
  iv_Valid :: bool

definition pg_ts :: "gotime \<Rightarrow> gotime" where
  "pg_ts t = t - t mod Microsecond"

definition sql_ts :: "Timestamptz \<Rightarrow> gotime option" where
  "sql_ts v = (if tstz_Valid v then Some (pg_ts (tstz_Time v)) else None)"

definition sql_uuid :: "pgUUID \<Rightarrow> uuid option" where
  "sql_uuid v = (if uuid_Valid v then Some (uuid_Bytes v) else None)"

definition sql_interval :: "Interval \<Rightarrow> duration option" where
  "sql_interval v = (if iv_Valid v then Some (iv_Microseconds v * Microsecond) else None)"

definition ts_out :: "gotime \<Rightarrow> Timestamptz" where
  "ts_out t = \<lparr>tstz_Time = t, tstz_Valid = True\<rparr>"

definition ts_out_opt :: "gotime option \<Rightarrow> Timestamptz" where
  "ts_out_opt v = (case v of None \<Rightarrow> \<lparr>tstz_Time = 0, tstz_Valid = False\<rparr> | Some t \<Rightarrow> ts_out t)"

text \<open>\<open>varchar(25)\<close>: longer text is refused unless the excess is all blanks, which are cut off.
  Length counts characters of the UTF-8 text, so continuation bytes do not count.\<close>

definition utf8_cont :: "char \<Rightarrow> bool" where
  "utf8_cont c \<longleftrightarrow> 128 \<le> (of_char c :: nat) \<and> (of_char c :: nat) < 192"

fun split_chars :: "nat \<Rightarrow> string \<Rightarrow> string \<times> string" where
  "split_chars n [] = ([], [])"
| "split_chars n (c # cs) =
     (if utf8_cont c then (let (a, b) = split_chars n cs in (c # a, b))
      else case n of 0 \<Rightarrow> ([], c # cs)
           | Suc m \<Rightarrow> (let (a, b) = split_chars m cs in (c # a, b)))"

definition varchar25 :: "string \<Rightarrow> string option" where
  "varchar25 s =
     (let (a, b) = split_chars 25 s in if list_all (\<lambda>c. c = CHR '' '') b then Some a else None)"

section \<open>The generated row struct\<close>

record SignaliumSignalMessage =
  db_ID :: pgUUID
  db_ExternalID :: string
  db_IdempotencyKey :: "string option"
  db_Recipient :: "string option"
  db_GroupID :: "string option"
  db_SenderPhoneNumber :: string
  db_Content :: string
  db_Attachments :: Attachments
  db_Attempts :: int
  db_MaxAttempts :: int
  db_NextAttemptAt :: Timestamptz
  db_TimeoutAt :: Timestamptz
  db_Status :: SignalMessageStatus
  db_LastError :: "string option"
  db_ResultID :: "string option"
  db_QuoteResultID :: "string option"
  db_CorrelationID :: string
  db_CreatedAt :: Timestamptz
  db_ModifiedAt :: Timestamptz
  db_DeletedAt :: Timestamptz

definition scan_row :: "row \<Rightarrow> goerr + SignaliumSignalMessage" where
  "scan_row r =
     (case SignalMessageStatus_Scan (AString (pg_enum_out (status r))) of
        Inl e \<Rightarrow> Inl e
      | Inr s \<Rightarrow> Inr \<lparr>
          db_ID = \<lparr>uuid_Bytes = signal_message_id r, uuid_Valid = True\<rparr>,
          db_ExternalID = external_id r,
          db_IdempotencyKey = idempotency_key r,
          db_Recipient = recipient r,
          db_GroupID = group_id r,
          db_SenderPhoneNumber = sender_phone_number r,
          db_Content = content r,
          db_Attachments = attachments r,
          db_Attempts = attempts r,
          db_MaxAttempts = max_attempts r,
          db_NextAttemptAt = ts_out (next_attempt_at r),
          db_TimeoutAt = ts_out_opt (timeout_at r),
          db_Status = s,
          db_LastError = last_error r,
          db_ResultID = result_id r,
          db_QuoteResultID = quote_result_id r,
          db_CorrelationID = correlation_id r,
          db_CreatedAt = ts_out (created_at r),
          db_ModifiedAt = ts_out (modified_at r),
          db_DeletedAt = ts_out_opt (deleted_at r)\<rparr>)"

text \<open>\<open>QueryRow(...).Scan\<close>: the first row of the answer, or \<open>pgx.ErrNoRows\<close>.\<close>

definition query_row :: "row option \<Rightarrow> goerr + SignaliumSignalMessage" where
  "query_row ans = (case ans of None \<Rightarrow> Inl (Sentinel ErrNoRows) | Some r \<Rightarrow> scan_row r)"

fun scan_rows :: "row list \<Rightarrow> goerr + SignaliumSignalMessage list" where
  "scan_rows [] = Inr []"
| "scan_rows (r # rs) =
     (case scan_row r of
        Inl e \<Rightarrow> Inl e
      | Inr i \<Rightarrow> (case scan_rows rs of Inl e \<Rightarrow> Inl e | Inr is \<Rightarrow> Inr (i # is)))"

section \<open>Statements that write\<close>

definition live :: "row \<Rightarrow> bool" where
  "live r \<longleftrightarrow> deleted_at r = None"

definition update_where :: "(row \<Rightarrow> bool) \<Rightarrow> (row \<Rightarrow> row) \<Rightarrow> table \<Rightarrow> table" where
  "update_where P f t = map (\<lambda>r. if P r then f r else r) t"

record InsertParams =
  ip_ExternalID :: string
  ip_IdempotencyKey :: "string option"
  ip_Recipient :: "string option"
  ip_GroupID :: "string option"
  ip_SenderPhoneNumber :: string
  ip_Content :: string
  ip_Attachments :: Attachments
  ip_MaxAttempts :: int
  ip_TimeoutAt :: Timestamptz
  ip_CorrelationID :: string

definition new_row :: "uuid \<Rightarrow> gotime \<Rightarrow> InsertParams \<Rightarrow> row" where
  "new_row gid now p = \<lparr>
     signal_message_id = gid,
     external_id = ip_ExternalID p,
     idempotency_key = ip_IdempotencyKey p,
     recipient = ip_Recipient p,
     group_id = ip_GroupID p,
     sender_phone_number = ip_SenderPhoneNumber p,
     content = ip_Content p,
     attachments = ip_Attachments p,
     attempts = 0,
     max_attempts = ip_MaxAttempts p,
     next_attempt_at = now,
     timeout_at = sql_ts (ip_TimeoutAt p),
     status = PENDING,
     last_error = None,
     result_id = None,
     quote_result_id = None,
     correlation_id = ip_CorrelationID p,
     created_at = now,
     modified_at = now,
     deleted_at = None\<rparr>"

definition exactly_one_target :: "row \<Rightarrow> bool" where
  "exactly_one_target r \<longleftrightarrow> (recipient r \<noteq> None) \<noteq> (group_id r \<noteq> None)"

definition insert_violation :: "table \<Rightarrow> row \<Rightarrow> string option" where
  "insert_violation t r =
     (if \<not> exactly_one_target r then Some ''exactly_one_target''
      else if list_ex (\<lambda>s. signal_message_id s = signal_message_id r) t
        then Some ''signal_messages_pkey''
      else if list_ex (\<lambda>s. external_id s = external_id r) t
        then Some ''signal_messages_external_id_key''
      else if idempotency_key r \<noteq> None \<and> list_ex (\<lambda>s. idempotency_key s = idempotency_key r) t
        then Some ''signal_messages_idempotency_key_key''
      else None)"

definition Queries_Insert ::
  "uuid \<Rightarrow> gotime \<Rightarrow> InsertParams \<Rightarrow> SignaliumSignalMessage stmt" where
  "Queries_Insert gid now arg t =
     (let r = new_row gid now arg in
      case insert_violation t r of
        Some c \<Rightarrow> (Inl (sql_error c), t)
      | None \<Rightarrow> (query_row (Some r), t @ [r]))"

text \<open>The claim: the inner \<open>SELECT\<close> takes the eligible, unlocked row with the smallest
  \<open>next_attempt_at\<close>, the \<open>UPDATE\<close> leases it.\<close>

definition claimable :: "gotime \<Rightarrow> row \<Rightarrow> bool" where
  "claimable now r \<longleftrightarrow>
     deleted_at r = None \<and>
     (status r = PENDING \<or> (status r = SENDING \<and> next_attempt_at r < now)) \<and>
     next_attempt_at r \<le> now \<and>
     (case timeout_at r of None \<Rightarrow> True | Some d \<Rightarrow> d > now)"

fun earliest :: "row list \<Rightarrow> row option" where
  "earliest [] = None"
| "earliest (r # rs) =
     (case earliest rs of
        None \<Rightarrow> Some r
      | Some s \<Rightarrow> if next_attempt_at r \<le> next_attempt_at s then Some r else Some s)"

definition claim_candidate :: "uuid list \<Rightarrow> gotime \<Rightarrow> table \<Rightarrow> row option" where
  "claim_candidate locked now t =
     earliest (filter (\<lambda>r. claimable now r \<and> signal_message_id r \<notin> set locked) t)"

definition claimed_row :: "gotime \<Rightarrow> duration \<Rightarrow> row \<Rightarrow> row" where
  "claimed_row now lease r =
     r\<lparr>status := SENDING, attempts := attempts r + 1, next_attempt_at := now + lease,
       modified_at := now\<rparr>"

definition Queries_ClaimPending ::
  "uuid list \<Rightarrow> gotime \<Rightarrow> Interval \<Rightarrow> SignaliumSignalMessage stmt" where
  "Queries_ClaimPending locked now leaseDuration t =
     (case claim_candidate locked now t of
        None \<Rightarrow> (query_row None, t)
      | Some c \<Rightarrow>
          (case sql_interval leaseDuration of
             None \<Rightarrow> (Inl (sql_error ''null value in column next_attempt_at''), t)
           | Some lease \<Rightarrow>
               if \<not> in_int32 (attempts c + 1) then (Inl (sql_error ''integer out of range''), t)
               else (query_row (Some (claimed_row now lease c)),
                     update_where (\<lambda>r. signal_message_id r = signal_message_id c)
                       (claimed_row now lease) t)))"

definition failed_row :: "gotime \<Rightarrow> string option \<Rightarrow> gotime \<Rightarrow> row \<Rightarrow> row" where
  "failed_row now err nxt r =
     r\<lparr>status := (if attempts r \<ge> max_attempts r then PERMANENT_FAILED else FAILED),
       last_error := err, next_attempt_at := nxt, modified_at := now\<rparr>"

record MarkFailedParams =
  mf_LastError :: "string option"
  mf_NextAttemptAt :: Timestamptz
  mf_ID :: pgUUID

definition Queries_MarkFailed :: "gotime \<Rightarrow> MarkFailedParams \<Rightarrow> unit stmt" where
  "Queries_MarkFailed now arg t =
     (let P = (\<lambda>r. Some (signal_message_id r) = sql_uuid (mf_ID arg)) in
      case sql_ts (mf_NextAttemptAt arg) of
        None \<Rightarrow> if list_ex P t then (Inl (sql_error ''null value in column next_attempt_at''), t)
                else (Inr (), t)
      | Some nxt \<Rightarrow> (Inr (), update_where P (failed_row now (mf_LastError arg) nxt) t))"

definition sent_row :: "gotime \<Rightarrow> string option \<Rightarrow> row \<Rightarrow> row" where
  "sent_row now res r = r\<lparr>status := SENT, result_id := res, modified_at := now\<rparr>"

record MarkSentParams =
  ms_ResultID :: "string option"
  ms_ID :: pgUUID

definition Queries_MarkSent :: "gotime \<Rightarrow> MarkSentParams \<Rightarrow> unit stmt" where
  "Queries_MarkSent now arg t =
     (let P = (\<lambda>r. Some (signal_message_id r) = sql_uuid (ms_ID arg)) in
      case ms_ResultID arg of
        None \<Rightarrow> (Inr (), update_where P (sent_row now None) t)
      | Some v \<Rightarrow>
          (case varchar25 v of
             None \<Rightarrow> if list_ex P t then (Inl (sql_error ''value too long''), t) else (Inr (), t)
           | Some v' \<Rightarrow> (Inr (), update_where P (sent_row now (Some v')) t)))"

definition overdue :: "gotime \<Rightarrow> row \<Rightarrow> bool" where
  "overdue now r \<longleftrightarrow>
     deleted_at r = None \<and>
     (status r = PENDING \<or> status r = SENDING \<or> status r = FAILED) \<and>
     (case timeout_at r of None \<Rightarrow> False | Some d \<Rightarrow> d \<le> now)"

definition timed_out_row :: "gotime \<Rightarrow> row \<Rightarrow> row" where
  "timed_out_row now r = r\<lparr>status := TIMED_OUT, modified_at := now\<rparr>"

definition Queries_MarkTimedOut :: "gotime \<Rightarrow> int stmt" where
  "Queries_MarkTimedOut now t =
     (Inr (int (length (filter (overdue now) t))), update_where (overdue now) (timed_out_row now) t)"

definition resendable :: "row \<Rightarrow> bool" where
  "resendable r \<longleftrightarrow> status r = FAILED \<or> status r = TIMED_OUT \<or> status r = PERMANENT_FAILED"

definition resent_row :: "gotime \<Rightarrow> row \<Rightarrow> row" where
  "resent_row now r =
     r\<lparr>status := PENDING, attempts := 0, next_attempt_at := now, last_error := None,
       modified_at := now\<rparr>"

definition Queries_Resend :: "gotime \<Rightarrow> pgUUID \<Rightarrow> unit stmt" where
  "Queries_Resend now signalMessageID t =
     (Inr (), update_where
                (\<lambda>r. Some (signal_message_id r) = sql_uuid signalMessageID \<and> resendable r)
                (resent_row now) t)"

definition restatus_row :: "gotime \<Rightarrow> pg_status \<Rightarrow> row \<Rightarrow> row" where
  "restatus_row now v r = r\<lparr>status := v, modified_at := now\<rparr>"

record UpdateStatusParams =
  us_Status :: SignalMessageStatus
  us_ID :: pgUUID

definition Queries_UpdateStatus ::
  "gotime \<Rightarrow> UpdateStatusParams \<Rightarrow> SignaliumSignalMessage stmt" where
  "Queries_UpdateStatus now arg t =
     (case pg_enum_in (us_Status arg) of
        None \<Rightarrow> (Inl (sql_error ''invalid input value for enum''), t)
      | Some v \<Rightarrow>
          (let P = (\<lambda>r. Some (signal_message_id r) = sql_uuid (us_ID arg) \<and> deleted_at r = None) in
           (query_row (map_option (restatus_row now v) (List.find P t)),
            update_where P (restatus_row now v) t)))"

section \<open>Statements that read\<close>

definition Queries_GetByID :: "pgUUID \<Rightarrow> SignaliumSignalMessage stmt" where
  "Queries_GetByID signalMessageID t =
     (query_row (List.find (\<lambda>r. Some (signal_message_id r) = sql_uuid signalMessageID \<and>
        deleted_at r = None) t), t)"

definition Queries_GetByExternalID :: "string \<Rightarrow> SignaliumSignalMessage stmt" where
  "Queries_GetByExternalID externalID t =
     (query_row (List.find (\<lambda>r. external_id r = externalID \<and> deleted_at r = None) t), t)"

definition Queries_GetByIdempotencyKey :: "string option \<Rightarrow> SignaliumSignalMessage stmt" where
  "Queries_GetByIdempotencyKey idempotencyKey t =
     (query_row (List.find (\<lambda>r. idempotencyKey \<noteq> None \<and> idempotency_key r = idempotencyKey) t), t)"

text \<open>\<open>COUNT(*)::int\<close> fails when the count does not fit.\<close>

definition count_int4 :: "'a list \<Rightarrow> goerr + int" where
  "count_int4 xs =
     (if in_int32 (int (length xs)) then Inr (int (length xs))
      else Inl (sql_error ''integer out of range''))"

record BacklogStatsRow =
  bs_Depth :: int
  bs_OldestAgeSeconds :: any

text \<open>The cast of the epoch difference to \<open>bigint\<close> rounds to the nearest second, halves away from
  zero.\<close>

definition round_seconds :: "duration \<Rightarrow> int" where
  "round_seconds d = sgn d * ((\<bar>d\<bar> + Second div 2) div Second)"

definition in_backlog :: "row \<Rightarrow> bool" where
  "in_backlog r \<longleftrightarrow> deleted_at r = None \<and> (status r = PENDING \<or> status r = FAILED)"

definition Queries_BacklogStats :: "gotime \<Rightarrow> BacklogStatsRow stmt" where
  "Queries_BacklogStats now t =
     (let rs = filter in_backlog t;
          age = (if rs = [] then 0 else round_seconds (now - Min (set (map created_at rs)))) in
      (case count_int4 rs of
         Inl e \<Rightarrow> Inl e
       | Inr n \<Rightarrow> Inr \<lparr>bs_Depth = n, bs_OldestAgeSeconds = AInt64 age\<rparr>, t))"

record CountParams =
  cp_Q :: "string option"
  cp_StatusFilter :: "string option"
  cp_Attempts :: "int option"
  cp_CreatedAtFrom :: Timestamptz
  cp_CreatedAtTo :: Timestamptz

record ListParams = CountParams +
  lp_OffsetCount :: int
  lp_LimitCount :: int

definition matches ::
  "(string \<Rightarrow> string \<Rightarrow> bool) \<Rightarrow> ('a CountParams_scheme) \<Rightarrow> pg_status option \<Rightarrow> row \<Rightarrow> bool" where
  "matches ilike arg st r \<longleftrightarrow>
     deleted_at r = None \<and>
     (case cp_Q arg of None \<Rightarrow> True | Some q \<Rightarrow> ilike (content r) (''%'' @ q @ ''%'')) \<and>
     (case st of None \<Rightarrow> True | Some v \<Rightarrow> status r = v) \<and>
     (case cp_Attempts arg of None \<Rightarrow> True | Some n \<Rightarrow> attempts r = n) \<and>
     (case sql_ts (cp_CreatedAtFrom arg) of None \<Rightarrow> True | Some a \<Rightarrow> created_at r \<ge> a) \<and>
     (case sql_ts (cp_CreatedAtTo arg) of None \<Rightarrow> True | Some b \<Rightarrow> created_at r < b)"

definition status_arg :: "string option \<Rightarrow> goerr + pg_status option" where
  "status_arg v =
     (case v of
        None \<Rightarrow> Inr None
      | Some s \<Rightarrow> (case pg_enum_in s of
                     None \<Rightarrow> Inl (sql_error ''invalid input value for enum'')
                   | Some st \<Rightarrow> Inr (Some st)))"

definition Queries_Count :: "(string \<Rightarrow> string \<Rightarrow> bool) \<Rightarrow> CountParams \<Rightarrow> int stmt" where
  "Queries_Count ilike arg t =
     (case status_arg (cp_StatusFilter arg) of
        Inl e \<Rightarrow> (Inl e, t)
      | Inr st \<Rightarrow> (count_int4 (filter (matches ilike arg st) t), t))"

definition list_order :: "row \<Rightarrow> int \<times> uuid" where
  "list_order r = (- created_at r, signal_message_id r)"

definition Queries_List ::
  "(string \<Rightarrow> string \<Rightarrow> bool) \<Rightarrow> ListParams \<Rightarrow> SignaliumSignalMessage list stmt" where
  "Queries_List ilike arg t =
     (case status_arg (cp_StatusFilter arg) of
        Inl e \<Rightarrow> (Inl e, t)
      | Inr st \<Rightarrow>
          if lp_LimitCount arg < 0 then (Inl (sql_error ''LIMIT must not be negative''), t)
          else if lp_OffsetCount arg < 0 then (Inl (sql_error ''OFFSET must not be negative''), t)
          else (scan_rows (take (nat (lp_LimitCount arg)) (drop (nat (lp_OffsetCount arg))
                  (sort_key list_order (filter (matches ilike arg st) t)))), t))"

record StatsCountsRow =
  sc_Status :: SignalMessageStatus
  sc_Counted :: int

fun stats_groups :: "table \<Rightarrow> pg_status list \<Rightarrow> goerr + StatsCountsRow list" where
  "stats_groups t [] = Inr []"
| "stats_groups t (v # vs) =
     (let rs = filter (\<lambda>r. deleted_at r = None \<and> status r = v) t in
      if rs = [] then stats_groups t vs
      else case count_int4 rs of
             Inl e \<Rightarrow> Inl e
           | Inr n \<Rightarrow>
               (case SignalMessageStatus_Scan (AString (pg_enum_out v)) of
                  Inl e \<Rightarrow> Inl e
                | Inr s \<Rightarrow> (case stats_groups t vs of
                              Inl e \<Rightarrow> Inl e
                            | Inr out \<Rightarrow> Inr (\<lparr>sc_Status = s, sc_Counted = n\<rparr> # out))))"

definition Queries_StatsCounts :: "pg_status list \<Rightarrow> StatsCountsRow list stmt" where
  "Queries_StatsCounts order t = (stats_groups t order, t)"

record StatsPerDayRow =
  pd_Day :: string
  pd_Sent :: int
  pd_Failed :: int

definition thirty_days :: duration where
  "thirty_days = 30 * 24 * 60 * Minute"

fun day_groups :: "(gotime \<Rightarrow> string) \<Rightarrow> row list \<Rightarrow> string list \<Rightarrow> goerr + StatsPerDayRow list" where
  "day_groups day rs [] = Inr []"
| "day_groups day rs (d # ds) =
     (let g = filter (\<lambda>r. day (created_at r) = d) rs in
      case count_int4 (filter (\<lambda>r. status r = SENT) g) of
        Inl e \<Rightarrow> Inl e
      | Inr s \<Rightarrow>
          (case count_int4 (filter (\<lambda>r. status r = FAILED \<or> status r = PERMANENT_FAILED \<or>
                                         status r = TIMED_OUT) g) of
             Inl e \<Rightarrow> Inl e
           | Inr f \<Rightarrow> (case day_groups day rs ds of
                         Inl e \<Rightarrow> Inl e
                       | Inr out \<Rightarrow> Inr (\<lparr>pd_Day = d, pd_Sent = s, pd_Failed = f\<rparr> # out))))"

definition Queries_StatsPerDay :: "(gotime \<Rightarrow> string) \<Rightarrow> gotime \<Rightarrow> StatsPerDayRow list stmt" where
  "Queries_StatsPerDay day now t =
     (let rs = filter (\<lambda>r. deleted_at r = None \<and> created_at r \<ge> now - thirty_days) t in
      (day_groups day rs (sorted_list_of_set (set (map (\<lambda>r. day (created_at r)) rs))), t))"

section \<open>Table invariant\<close>

text \<open>What the schema promises of every reachable table: the primary key and the two unique
  constraints, the check constraint, and the column ranges.\<close>

definition row_ok :: "row \<Rightarrow> bool" where
  "row_ok r \<longleftrightarrow> exactly_one_target r \<and> 0 \<le> attempts r \<and> in_int32 (attempts r)"

definition keys :: "table \<Rightarrow> string list" where
  "keys t = List.map_filter idempotency_key t"

definition table_ok :: "table \<Rightarrow> bool" where
  "table_ok t \<longleftrightarrow>
     distinct (map signal_message_id t) \<and> distinct (map external_id t) \<and>
     distinct (keys t) \<and> list_all row_ok t"

definition row_at :: "table \<Rightarrow> uuid \<Rightarrow> row option" where
  "row_at t i = List.find (\<lambda>r. signal_message_id r = i) t"

section \<open>Lemmas on updates\<close>

lemma update_where_simps [simp]:
  "update_where P f [] = []"
  "update_where P f (r # t) = (if P r then f r else r) # update_where P f t"
  by (simp_all add: update_where_def)

lemma length_update_where [simp]: "length (update_where P f t) = length t"
  by (simp add: update_where_def)

lemma set_update_where:
  "set (update_where P f t) = (\<lambda>r. if P r then f r else r) ` set t"
  by (simp add: update_where_def)

lemma update_where_cong:
  "(\<And>r. r \<in> set t \<Longrightarrow> P r = Q r) \<Longrightarrow> (\<And>r. r \<in> set t \<Longrightarrow> Q r \<Longrightarrow> f r = g r) \<Longrightarrow>
     update_where P f t = update_where Q g t"
  by (simp add: update_where_def)

lemma update_where_none: "(\<And>r. r \<in> set t \<Longrightarrow> \<not> P r) \<Longrightarrow> update_where P f t = t"
  by (induction t) auto

lemma row_at_Some: "row_at t i = Some r \<Longrightarrow> r \<in> set t \<and> signal_message_id r = i"
  unfolding row_at_def by (rule find_Some_iff_first)

lemma row_at_None: "row_at t i = None \<longleftrightarrow> i \<notin> signal_message_id ` set t"
  by (auto simp: row_at_def find_None_iff)

lemma row_at_mem:
  assumes "distinct (map signal_message_id t)" and "r \<in> set t"
  shows "row_at t (signal_message_id r) = Some r"
proof (cases "row_at t (signal_message_id r)")
  case None
  then show ?thesis using assms(2) by (simp add: row_at_None)
next
  case (Some s)
  then have "s \<in> set t" "signal_message_id s = signal_message_id r"
    by (auto dest: row_at_Some)
  then have "s = r" using assms distinct_map_filter_conv by metis
  with Some show ?thesis by simp
qed

lemma keys_simps [simp]:
  "keys [] = []"
  "keys (r # t) = (case idempotency_key r of None \<Rightarrow> keys t | Some k \<Rightarrow> k # keys t)"
  "keys (t @ u) = keys t @ keys u"
  by (simp_all add: keys_def map_filter_def split: option.split)

lemma set_keys: "set (keys t) = {k. \<exists>r \<in> set t. idempotency_key r = Some k}"
  by (induction t) (auto split: option.splits)

text \<open>The contract every \<open>UPDATE\<close> of the file keeps: the identifying columns and the target of a row
  never change. Its clients are the invariant and the lookups by primary key.\<close>

locale row_update =
  fixes f :: "row \<Rightarrow> row"
  assumes keeps_id: "signal_message_id (f r) = signal_message_id r"
    and keeps_external: "external_id (f r) = external_id r"
    and keeps_key: "idempotency_key (f r) = idempotency_key r"
    and keeps_target: "recipient (f r) = recipient r" "group_id (f r) = group_id r"
    and keeps_payload: "content (f r) = content r" "attachments (f r) = attachments r"
      "sender_phone_number (f r) = sender_phone_number r"
    and keeps_limits: "max_attempts (f r) = max_attempts r" "timeout_at (f r) = timeout_at r"
      "created_at (f r) = created_at r" "deleted_at (f r) = deleted_at r"
begin

lemma update_keeps_ids: "map signal_message_id (update_where P f t) = map signal_message_id t"
  by (induction t) (auto simp: keeps_id)

lemma update_keeps_externals: "map external_id (update_where P f t) = map external_id t"
  by (induction t) (auto simp: keeps_external)

lemma update_keeps_keys: "keys (update_where P f t) = keys t"
  by (induction t) (auto simp: keeps_key split: option.split)

lemma update_keeps_target: "exactly_one_target (f r) = exactly_one_target r"
  by (simp add: exactly_one_target_def keeps_target)

lemma update_table_ok:
  assumes "table_ok t"
    and "\<And>r. r \<in> set t \<Longrightarrow> P r \<Longrightarrow> row_ok r \<Longrightarrow> 0 \<le> attempts (f r) \<and> in_int32 (attempts (f r))"
  shows "table_ok (update_where P f t)"
proof -
  have "row_ok (f r)" if "r \<in> set t" "P r" for r
    using assms that by (auto simp: table_ok_def list_all_iff row_ok_def update_keeps_target)
  then show ?thesis
    using assms(1) unfolding table_ok_def update_keeps_ids update_keeps_externals update_keeps_keys
    by (auto simp: list_all_iff set_update_where)
qed

lemma row_at_update:
  "row_at (update_where P f t) i = map_option (\<lambda>r. if P r then f r else r) (row_at t i)"
  by (induction t) (auto simp: row_at_def keeps_id)

lemma row_at_update_id:
  "row_at (update_where (\<lambda>r. signal_message_id r = j \<and> Q r) f t) i =
     map_option (\<lambda>r. if i = j \<and> Q r then f r else r) (row_at t i)"
  by (induction t) (auto simp: row_at_def keeps_id)

end

interpretation claimed: row_update "claimed_row now lease" for now lease
  by unfold_locales (simp_all add: claimed_row_def)

interpretation failed: row_update "failed_row now err nxt" for now err nxt
  by unfold_locales (simp_all add: failed_row_def)

interpretation sent: row_update "sent_row now res" for now res
  by unfold_locales (simp_all add: sent_row_def)

interpretation timedout: row_update "timed_out_row now" for now
  by unfold_locales (simp_all add: timed_out_row_def)

interpretation resent: row_update "resent_row now" for now
  by unfold_locales (simp_all add: resent_row_def)

interpretation restatus: row_update "restatus_row now v" for now v
  by unfold_locales (simp_all add: restatus_row_def)

section \<open>The claim\<close>

lemma earliest_None [simp]: "earliest rs = None \<longleftrightarrow> rs = []"
  by (cases rs) (auto split: option.splits)

lemma earliest_Some:
  "earliest rs = Some c \<Longrightarrow>
     c \<in> set rs \<and> (\<forall>r \<in> set rs. next_attempt_at c \<le> next_attempt_at r)"
  by (induction rs arbitrary: c) (fastforce split: option.splits if_splits)+

lemma claim_candidate_Some:
  assumes "claim_candidate locked now t = Some c"
  shows "c \<in> set t" and "claimable now c" and "signal_message_id c \<notin> set locked"
    and "\<And>r. r \<in> set t \<Longrightarrow> claimable now r \<Longrightarrow> signal_message_id r \<notin> set locked \<Longrightarrow>
           next_attempt_at c \<le> next_attempt_at r"
  using earliest_Some [OF assms [unfolded claim_candidate_def]] by auto

lemma claim_candidate_None:
  "claim_candidate locked now t = None \<longleftrightarrow>
     (\<forall>r \<in> set t. claimable now r \<longrightarrow> signal_message_id r \<in> set locked)"
  by (auto simp: claim_candidate_def filter_empty_conv)

lemma scan_row_ok:
  "\<exists>i. scan_row r = Inr i \<and> db_ID i = \<lparr>uuid_Bytes = signal_message_id r, uuid_Valid = True\<rparr> \<and>
       db_Status i = pg_enum_out (status r)"
  by (simp add: scan_row_def)

section \<open>Every statement keeps the invariant\<close>

lemma insert_violation_None:
  "insert_violation t r = None \<longleftrightarrow>
     exactly_one_target r \<and> signal_message_id r \<notin> signal_message_id ` set t \<and>
     external_id r \<notin> external_id ` set t \<and>
     (\<forall>k. idempotency_key r = Some k \<longrightarrow> k \<notin> set (keys t))"
  by (auto simp: insert_violation_def list_ex_iff set_keys image_iff) metis+

lemma Insert_table_ok:
  assumes "table_ok t"
  shows "table_ok (snd (Queries_Insert gid now arg t))"
proof (cases "insert_violation t (new_row gid now arg)")
  case None
  then have "row_ok (new_row gid now arg)"
    by (simp add: insert_violation_None row_ok_def new_row_def in_int32_def)
  with None assms show ?thesis
    by (auto simp: Queries_Insert_def Let_def insert_violation_None table_ok_def
      split: option.splits)
qed (use assms in \<open>simp add: Queries_Insert_def Let_def\<close>)

lemma ClaimPending_table_ok:
  assumes "table_ok t"
  shows "table_ok (snd (Queries_ClaimPending locked now iv t))"
proof (cases "claim_candidate locked now t")
  case (Some c)
  note c = claim_candidate_Some [OF Some]
  have "table_ok (update_where (\<lambda>r. signal_message_id r = signal_message_id c)
          (claimed_row now lease) t)" if "in_int32 (attempts c + 1)" for lease
  proof (rule claimed.update_table_ok [OF assms])
    fix r
    assume r: "r \<in> set t" "signal_message_id r = signal_message_id c" "row_ok r"
    then have "r = c"
      using assms c(1) distinct_map_filter_conv by (metis table_ok_def)
    with that r(3) show "0 \<le> attempts (claimed_row now lease r) \<and>
        in_int32 (attempts (claimed_row now lease r))"
      by (simp add: claimed_row_def row_ok_def)
  qed
  with Some assms show ?thesis
    by (simp add: Queries_ClaimPending_def split: option.split)
qed (use assms in \<open>simp add: Queries_ClaimPending_def\<close>)

lemma MarkFailed_table_ok:
  "table_ok t \<Longrightarrow> table_ok (snd (Queries_MarkFailed now arg t))"
  by (auto simp: Queries_MarkFailed_def Let_def failed_row_def row_ok_def
    intro!: failed.update_table_ok split: option.split)

lemma MarkSent_table_ok:
  "table_ok t \<Longrightarrow> table_ok (snd (Queries_MarkSent now arg t))"
  by (auto simp: Queries_MarkSent_def Let_def sent_row_def row_ok_def
    intro!: sent.update_table_ok split: option.split)

lemma MarkTimedOut_table_ok:
  "table_ok t \<Longrightarrow> table_ok (snd (Queries_MarkTimedOut now t))"
  by (auto simp: Queries_MarkTimedOut_def timed_out_row_def row_ok_def
    intro!: timedout.update_table_ok)

lemma Resend_table_ok:
  "table_ok t \<Longrightarrow> table_ok (snd (Queries_Resend now i t))"
  by (auto simp: Queries_Resend_def resent_row_def row_ok_def in_int32_def
    intro!: resent.update_table_ok)

lemma UpdateStatus_table_ok:
  "table_ok t \<Longrightarrow> table_ok (snd (Queries_UpdateStatus now arg t))"
  by (auto simp: Queries_UpdateStatus_def Let_def restatus_row_def row_ok_def
    intro!: restatus.update_table_ok split: option.split)

lemmas statements_table_ok [intro] = Insert_table_ok ClaimPending_table_ok MarkFailed_table_ok
  MarkSent_table_ok MarkTimedOut_table_ok Resend_table_ok UpdateStatus_table_ok

section \<open>Reads change nothing\<close>

lemma reads_keep_table [simp]:
  "snd (Queries_GetByID i t) = t"
  "snd (Queries_GetByExternalID e t) = t"
  "snd (Queries_GetByIdempotencyKey k t) = t"
  "snd (Queries_BacklogStats now t) = t"
  "snd (Queries_Count ilike cp t) = t"
  "snd (Queries_List ilike lp t) = t"
  "snd (Queries_StatsCounts order t) = t"
  "snd (Queries_StatsPerDay day now t) = t"
  by (auto simp: Queries_GetByID_def Queries_GetByExternalID_def Queries_GetByIdempotencyKey_def
    Queries_BacklogStats_def Queries_Count_def Queries_List_def Queries_StatsCounts_def
    Queries_StatsPerDay_def Let_def split: sum.split)

end
