(* ===== verification/Repo.thy ===== *)
theory Repo
  imports Sqlc
begin

text \<open>
  The persistence adapter, \<open>internal/repo/messages.go\<close>: one definition per method of \<open>Messages\<close>, over
  the statements of theory \<open>Sqlc\<close>. The driver answers each call: \<open>Done\<close> runs the statement,
  \<open>Failed_before\<close> is an error raised before it took effect (a cancelled context, a refused
  connection), \<open>Failed_after\<close> one raised after the server committed it (a connection lost before the
  answer arrived). \<open>werror.WrapWithContextParams\<close> keeps its cause reachable for \<open>errors.Is\<close>.
\<close>

section \<open>The driver\<close>

datatype db_answer = Done | Failed_before goerr | Failed_after goerr

fun db_call :: "db_answer \<Rightarrow> ('t \<Rightarrow> (goerr + 'a) \<times> 't) \<Rightarrow> 't \<Rightarrow> (goerr + 'a) \<times> 't" where
  "db_call Done s t = s t"
| "db_call (Failed_before e) s t = (Inl e, t)"
| "db_call (Failed_after e) s t = (Inl e, snd (s t))"

section \<open>Conversions\<close>

definition uuidToPg :: "uuid \<Rightarrow> pgUUID" where
  "uuidToPg i = \<lparr>uuid_Bytes = i, uuid_Valid = True\<rparr>"

definition pgToUUID :: "pgUUID \<Rightarrow> uuid" where
  "pgToUUID v = (if \<not> uuid_Valid v then 0 else uuid_Bytes v)"

definition tsTz :: "gotime option \<Rightarrow> Timestamptz" where
  "tsTz t = (case t of
     None \<Rightarrow> \<lparr>tstz_Time = 0, tstz_Valid = False\<rparr>
   | Some x \<Rightarrow> if x = 0 then \<lparr>tstz_Time = 0, tstz_Valid = False\<rparr>
               else \<lparr>tstz_Time = x, tstz_Valid = True\<rparr>)"

definition pgToTime :: "Timestamptz \<Rightarrow> gotime" where
  "pgToTime v = (if \<not> tstz_Valid v then 0 else tstz_Time v)"

definition pgToTimePtr :: "Timestamptz \<Rightarrow> gotime option" where
  "pgToTimePtr v = (if \<not> tstz_Valid v then None else Some (tstz_Time v))"

definition intervalFromDuration :: "duration \<Rightarrow> Interval" where
  "intervalFromDuration d = \<lparr>iv_Microseconds = go_div d Microsecond, iv_Valid = True\<rparr>"

definition domainStatusToSQLC :: "SignalMessageStatus option \<Rightarrow> string option" where
  "domainStatusToSQLC s = (case s of None \<Rightarrow> None | Some v \<Rightarrow> Some v)"

definition rowToDomain :: "SignaliumSignalMessage \<Rightarrow> SignalMessage" where
  "rowToDomain row = \<lparr>
     sm_ID = pgToUUID (db_ID row),
     sm_ExternalID = db_ExternalID row,
     sm_IdempotencyKey = db_IdempotencyKey row,
     sm_Recipient = db_Recipient row,
     sm_GroupID = db_GroupID row,
     sm_SenderPhoneNumber = db_SenderPhoneNumber row,
     sm_Content = db_Content row,
     sm_Attachments = db_Attachments row,
     sm_Attempts = db_Attempts row,
     sm_MaxAttempts = db_MaxAttempts row,
     sm_NextAttemptAt = pgToTime (db_NextAttemptAt row),
     sm_TimeoutAt = pgToTimePtr (db_TimeoutAt row),
     sm_Status = db_Status row,
     sm_LastError = db_LastError row,
     sm_ResultID = db_ResultID row,
     sm_QuoteResultID = db_QuoteResultID row,
     sm_CorrelationID = db_CorrelationID row,
     sm_CreatedAt = pgToTime (db_CreatedAt row),
     sm_ModifiedAt = pgToTime (db_ModifiedAt row)\<rparr>"

text \<open>The two ways a method treats an error of the driver: wrapping it, or mapping \<open>pgx.ErrNoRows\<close> to
  \<open>domain.ErrNotFound\<close> first.\<close>

definition wrap_result :: "string \<Rightarrow> ('a \<Rightarrow> 'b) \<Rightarrow> goerr + 'a \<Rightarrow> goerr + 'b" where
  "wrap_result msg f x = (case x of Inl err \<Rightarrow> Inl (Wrapped msg err) | Inr row \<Rightarrow> Inr (f row))"

definition wrap_row ::
  "string \<Rightarrow> goerr + SignaliumSignalMessage \<Rightarrow> goerr + SignalMessage" where
  "wrap_row msg x = (case x of
     Inl err \<Rightarrow> if errors_Is err ErrNoRows then Inl (Sentinel ErrNotFound) else Inl (Wrapped msg err)
   | Inr row \<Rightarrow> Inr (rowToDomain row))"

definition wrap_exec :: "string \<Rightarrow> goerr + unit \<Rightarrow> goerr option" where
  "wrap_exec msg x = (case x of Inl err \<Rightarrow> Some (Wrapped msg err) | Inr _ \<Rightarrow> None)"

section \<open>Methods\<close>

record RepoInsertParams =
  rip_ExternalID :: string
  rip_IdempotencyKey :: "string option"
  rip_Recipient :: "string option"
  rip_GroupID :: "string option"
  rip_SenderPhoneNumber :: string
  rip_Content :: string
  rip_Attachments :: Attachments
  rip_MaxAttempts :: int
  rip_TimeoutAt :: "gotime option"
  rip_CorrelationID :: string

definition sqlc_insert_params :: "RepoInsertParams \<Rightarrow> InsertParams" where
  "sqlc_insert_params p = \<lparr>
     ip_ExternalID = rip_ExternalID p,
     ip_IdempotencyKey = rip_IdempotencyKey p,
     ip_Recipient = rip_Recipient p,
     ip_GroupID = rip_GroupID p,
     ip_SenderPhoneNumber = rip_SenderPhoneNumber p,
     ip_Content = rip_Content p,
     ip_Attachments = rip_Attachments p,
     ip_MaxAttempts = rip_MaxAttempts p,
     ip_TimeoutAt = tsTz (rip_TimeoutAt p),
     ip_CorrelationID = rip_CorrelationID p\<rparr>"

definition Messages_Insert ::
  "db_answer \<Rightarrow> uuid \<Rightarrow> gotime \<Rightarrow> RepoInsertParams \<Rightarrow> SignalMessage stmt" where
  "Messages_Insert d gid now p t =
     (let (x, t') = db_call d (Queries_Insert gid now (sqlc_insert_params p)) t in
      (wrap_result ''insert signal message'' rowToDomain x, t'))"

definition Messages_GetByID :: "db_answer \<Rightarrow> uuid \<Rightarrow> SignalMessage stmt" where
  "Messages_GetByID d i t =
     (let (x, t') = db_call d (Queries_GetByID (uuidToPg i)) t in (wrap_row ''get by id'' x, t'))"

definition Messages_GetByExternalID :: "db_answer \<Rightarrow> string \<Rightarrow> SignalMessage stmt" where
  "Messages_GetByExternalID d externalID t =
     (let (x, t') = db_call d (Queries_GetByExternalID externalID) t in
      (wrap_row ''get by external id'' x, t'))"

definition Messages_GetByIdempotencyKey :: "db_answer \<Rightarrow> string \<Rightarrow> SignalMessage stmt" where
  "Messages_GetByIdempotencyKey d key t =
     (let (x, t') = db_call d (Queries_GetByIdempotencyKey (Some key)) t in
      (wrap_row ''get by idempotency key'' x, t'))"

definition Messages_ClaimPending ::
  "db_answer \<Rightarrow> uuid list \<Rightarrow> gotime \<Rightarrow> duration \<Rightarrow> SignalMessage stmt" where
  "Messages_ClaimPending d locked now lease t =
     (let (x, t') = db_call d (Queries_ClaimPending locked now (intervalFromDuration lease)) t in
      (wrap_row ''claim pending'' x, t'))"

type_synonym exec_stmt = "table \<Rightarrow> goerr option \<times> table"

definition Messages_MarkSent :: "db_answer \<Rightarrow> gotime \<Rightarrow> uuid \<Rightarrow> string \<Rightarrow> exec_stmt" where
  "Messages_MarkSent d now i resultID t =
     (let (x, t') = db_call d
            (Queries_MarkSent now \<lparr>ms_ResultID = Some resultID, ms_ID = uuidToPg i\<rparr>) t in
      (wrap_exec ''mark sent'' x, t'))"

definition Messages_MarkFailed ::
  "db_answer \<Rightarrow> gotime \<Rightarrow> uuid \<Rightarrow> string \<Rightarrow> gotime \<Rightarrow> exec_stmt" where
  "Messages_MarkFailed d now i lastErr nextAttemptAt t =
     (let (x, t') = db_call d
            (Queries_MarkFailed now \<lparr>mf_LastError = Some lastErr,
               mf_NextAttemptAt = tsTz (Some nextAttemptAt), mf_ID = uuidToPg i\<rparr>) t in
      (wrap_exec ''mark failed'' x, t'))"

definition Messages_MarkTimedOut :: "db_answer \<Rightarrow> gotime \<Rightarrow> int stmt" where
  "Messages_MarkTimedOut d now t =
     (let (x, t') = db_call d (Queries_MarkTimedOut now) t in
      (wrap_result ''mark timed out'' (\<lambda>n. n) x, t'))"

definition backlog_of :: "BacklogStatsRow \<Rightarrow> int \<times> duration" where
  "backlog_of row =
     (let ageSeconds = (case bs_OldestAgeSeconds row of AInt64 v \<Rightarrow> v | _ \<Rightarrow> 0) in
      (bs_Depth row, int64 (ageSeconds * Second)))"

definition Messages_BacklogStats :: "db_answer \<Rightarrow> gotime \<Rightarrow> (int \<times> duration) stmt" where
  "Messages_BacklogStats d now t =
     (let (x, t') = db_call d (Queries_BacklogStats now) t in
      (wrap_result ''backlog stats'' backlog_of x, t'))"

definition Messages_Resend :: "db_answer \<Rightarrow> gotime \<Rightarrow> uuid \<Rightarrow> exec_stmt" where
  "Messages_Resend d now i t =
     (let (x, t') = db_call d (Queries_Resend now (uuidToPg i)) t in (wrap_exec ''resend'' x, t'))"

definition Messages_UpdateStatus ::
  "db_answer \<Rightarrow> gotime \<Rightarrow> uuid \<Rightarrow> SignalMessageStatus \<Rightarrow> SignalMessage stmt" where
  "Messages_UpdateStatus d now i st t =
     (let (x, t') = db_call d
            (Queries_UpdateStatus now \<lparr>us_Status = st, us_ID = uuidToPg i\<rparr>) t in
      (wrap_row ''update status'' x, t'))"

record ListFilters =
  lf_Q :: "string option"
  lf_Status :: "SignalMessageStatus option"
  lf_Attempts :: "int option"
  lf_CreatedAtFrom :: "gotime option"
  lf_CreatedAtTo :: "gotime option"
  lf_Limit :: int
  lf_Offset :: int

definition Messages_List ::
  "(string \<Rightarrow> string \<Rightarrow> bool) \<Rightarrow> db_answer \<Rightarrow> ListFilters \<Rightarrow> SignalMessage list stmt" where
  "Messages_List ilike d f t =
     (let (x, t') = db_call d (Queries_List ilike \<lparr>
            cp_Q = lf_Q f,
            cp_StatusFilter = domainStatusToSQLC (lf_Status f),
            cp_Attempts = lf_Attempts f,
            cp_CreatedAtFrom = tsTz (lf_CreatedAtFrom f),
            cp_CreatedAtTo = tsTz (lf_CreatedAtTo f),
            lp_OffsetCount = lf_Offset f,
            lp_LimitCount = lf_Limit f\<rparr>) t in
      (wrap_result ''list signal messages'' (map rowToDomain) x, t'))"

definition Messages_Count ::
  "(string \<Rightarrow> string \<Rightarrow> bool) \<Rightarrow> db_answer \<Rightarrow> ListFilters \<Rightarrow> int stmt" where
  "Messages_Count ilike d f t =
     (let (x, t') = db_call d (Queries_Count ilike \<lparr>
            cp_Q = lf_Q f,
            cp_StatusFilter = domainStatusToSQLC (lf_Status f),
            cp_Attempts = lf_Attempts f,
            cp_CreatedAtFrom = tsTz (lf_CreatedAtFrom f),
            cp_CreatedAtTo = tsTz (lf_CreatedAtTo f)\<rparr>) t in
      (wrap_result ''count signal messages'' (\<lambda>n. n) x, t'))"

record StatusCount =
  stc_Status :: SignalMessageStatus
  stc_Count :: int

definition Messages_StatsCounts :: "db_answer \<Rightarrow> pg_status list \<Rightarrow> StatusCount list stmt" where
  "Messages_StatsCounts d order t =
     (let (x, t') = db_call d (Queries_StatsCounts order) t in
      (wrap_result ''stats counts''
         (map (\<lambda>row. \<lparr>stc_Status = sc_Status row, stc_Count = sc_Counted row\<rparr>)) x, t'))"

record DayCount =
  dc_Date :: string
  dc_Sent :: int
  dc_Failed :: int

definition Messages_StatsPerDay ::
  "(gotime \<Rightarrow> string) \<Rightarrow> db_answer \<Rightarrow> gotime \<Rightarrow> DayCount list stmt" where
  "Messages_StatsPerDay day d now t =
     (let (x, t') = db_call d (Queries_StatsPerDay day now) t in
      (wrap_result ''stats per-day''
         (map (\<lambda>row. \<lparr>dc_Date = pd_Day row, dc_Sent = pd_Sent row, dc_Failed = pd_Failed row\<rparr>)) x,
       t'))"

text \<open>A sample row and parameters, for the concrete instances below.\<close>

definition sample_params :: RepoInsertParams where
  "sample_params = \<lparr>rip_ExternalID = ''ext'', rip_IdempotencyKey = Some ''key'',
     rip_Recipient = Some ''+1'', rip_GroupID = None, rip_SenderPhoneNumber = ''+2'',
     rip_Content = ''hi'', rip_Attachments = [], rip_MaxAttempts = 5,
     rip_TimeoutAt = Some 90000, rip_CorrelationID = ''c''\<rparr>"

definition sample_row :: "uuid \<Rightarrow> string \<Rightarrow> pg_status \<Rightarrow> row" where
  "sample_row i ext st =
     (new_row i 1000 (sqlc_insert_params sample_params))
       \<lparr>external_id := ext, idempotency_key := None, status := st\<rparr>"

section \<open>Lemmas\<close>

text \<open>What a caller of the repository sees of a row.\<close>

definition row_message :: "row \<Rightarrow> SignalMessage" where
  "row_message r = \<lparr>
     sm_ID = signal_message_id r, sm_ExternalID = external_id r,
     sm_IdempotencyKey = idempotency_key r, sm_Recipient = recipient r, sm_GroupID = group_id r,
     sm_SenderPhoneNumber = sender_phone_number r, sm_Content = content r,
     sm_Attachments = attachments r, sm_Attempts = attempts r, sm_MaxAttempts = max_attempts r,
     sm_NextAttemptAt = next_attempt_at r, sm_TimeoutAt = timeout_at r,
     sm_Status = pg_enum_out (status r), sm_LastError = last_error r, sm_ResultID = result_id r,
     sm_QuoteResultID = quote_result_id r, sm_CorrelationID = correlation_id r,
     sm_CreatedAt = created_at r, sm_ModifiedAt = modified_at r\<rparr>"

lemma sql_uuid_uuidToPg [simp]: "sql_uuid (uuidToPg i) = Some i"
  by (simp add: sql_uuid_def uuidToPg_def)

lemma pgToUUID_uuidToPg [simp]: "pgToUUID (uuidToPg i) = i"
  by (simp add: pgToUUID_def uuidToPg_def)

lemma pgToTimePtr_ts_out_opt [simp]: "pgToTimePtr (ts_out_opt v) = v"
  by (simp add: pgToTimePtr_def ts_out_opt_def ts_out_def split: option.split)

lemma pgToTime_ts_out [simp]: "pgToTime (ts_out t) = t"
  by (simp add: pgToTime_def ts_out_def)

lemma scan_row_domain: "\<exists>i. scan_row r = Inr i \<and> rowToDomain i = row_message r"
  by (simp add: scan_row_def rowToDomain_def row_message_def pgToUUID_def)

lemma scan_row_message [simp]:
  "scan_row r = Inr i \<Longrightarrow> rowToDomain i = row_message r"
  using scan_row_domain [of r] by auto

lemma wrap_row_query_row [simp]:
  "wrap_row msg (query_row ans) =
     (case ans of None \<Rightarrow> Inl (Sentinel ErrNotFound) | Some r \<Rightarrow> Inr (row_message r))"
proof (cases ans)
  case (Some r)
  then show ?thesis
    using scan_row_domain [of r] by (auto simp: wrap_row_def query_row_def)
qed (simp add: wrap_row_def query_row_def)

lemma wrap_result_query_row [simp]:
  "wrap_result msg rowToDomain (query_row (Some r)) = Inr (row_message r)"
  using scan_row_domain [of r] by (auto simp: wrap_result_def query_row_def)

lemma scan_rows_domain: "\<exists>is. scan_rows rs = Inr is \<and> map rowToDomain is = map row_message rs"
proof (induction rs)
  case (Cons r rs)
  then show ?case
    using scan_row_domain [of r] by auto
qed simp

lemma sql_error_not_norows [simp]: "errors_Is (sql_error m) ErrNoRows = False"
  by (simp add: sql_error_def)

lemma sql_interval_from: 
  "sql_interval (intervalFromDuration d) = Some (go_div d Microsecond * Microsecond)"
  by (simp add: sql_interval_def intervalFromDuration_def)

lemma lease_rounding:
  assumes "0 \<le> d"
  shows "go_div d Microsecond * Microsecond = pg_ts d"
  using assms by (simp add: go_div_nonneg pg_ts_def Microsecond_def minus_mod_eq_div_mult)

lemma sql_ts_tsTz:
  "sql_ts (tsTz v) = (case v of None \<Rightarrow> None | Some x \<Rightarrow> if x = 0 then None else Some (pg_ts x))"
  by (simp add: sql_ts_def tsTz_def split: option.split)

lemma pg_ts_le: "pg_ts t \<le> t"
  by (simp add: pg_ts_def Microsecond_def)

lemma pg_ts_gt: "t - Microsecond < pg_ts t"
  by (simp add: pg_ts_def Microsecond_def)

lemma db_call_table:
  "snd (db_call d s t) = t \<or> snd (db_call d s t) = snd (s t)"
  by (cases d) simp_all

lemma db_call_table_ok:
  "table_ok t \<Longrightarrow> table_ok (snd (s t)) \<Longrightarrow> table_ok (snd (db_call d s t))"
  using db_call_table [of d s t] by auto

lemma writes_table_ok:
  assumes "table_ok t"
  shows "table_ok (snd (Messages_Insert d gid now p t))"
    and "table_ok (snd (Messages_ClaimPending d locked now lease t))"
    and "table_ok (snd (Messages_MarkSent d now i res t))"
    and "table_ok (snd (Messages_MarkFailed d now i err nxt t))"
    and "table_ok (snd (Messages_MarkTimedOut d now t))"
    and "table_ok (snd (Messages_Resend d now i t))"
    and "table_ok (snd (Messages_UpdateStatus d now i st t))"
  using assms
  by (auto simp: Messages_Insert_def Messages_ClaimPending_def Messages_MarkSent_def
    Messages_MarkFailed_def Messages_MarkTimedOut_def Messages_Resend_def
    Messages_UpdateStatus_def Let_def split_beta intro!: db_call_table_ok)

section \<open>Properties\<close>

lemma Messages_ClaimPending_Done:
  "Messages_ClaimPending Done locked now lease t =
     (case claim_candidate locked now t of
        None \<Rightarrow> (Inl (Sentinel ErrNotFound), t)
      | Some c \<Rightarrow>
          if \<not> in_int32 (attempts c + 1)
          then (Inl (Wrapped ''claim pending'' (sql_error ''integer out of range'')), t)
          else let f = claimed_row now (go_div lease Microsecond * Microsecond) in
               (Inr (row_message (f c)),
                update_where (\<lambda>r. signal_message_id r = signal_message_id c) f t))"
  by (simp add: Messages_ClaimPending_def Queries_ClaimPending_def sql_interval_from Let_def
    wrap_row_def [of _ "Inl _"] split: option.split)

lemma update_one:
  assumes "table_ok t" and "c \<in> set t"
  shows "update_where (\<lambda>r. signal_message_id r = signal_message_id c) f t =
           map (\<lambda>r. if r = c then f r else r) t"
proof -
  have "signal_message_id r = signal_message_id c \<longleftrightarrow> r = c" if "r \<in> set t" for r
    using assms that distinct_map_filter_conv unfolding table_ok_def by metis
  then show ?thesis
    by (simp add: update_where_def)
qed

text \<open>C6. A successful claim returns an eligible row no other transaction holds, the one due first;
  it leases exactly that row: status SENDING, one more attempt, next attempt one lease (rounded down
  to a microsecond) after the database's clock, and it leaves every other row as it was.\<close>

theorem ClaimPending_correct:
  assumes "table_ok t" and "0 \<le> lease"
    and "Messages_ClaimPending Done locked now lease t = (Inr m, t')"
  shows "\<exists>c \<in> set t. claimable now c \<and> signal_message_id c \<notin> set locked \<and>
           (\<forall>r \<in> set t. claimable now r \<and> signal_message_id r \<notin> set locked \<longrightarrow>
              next_attempt_at c \<le> next_attempt_at r) \<and>
           m = row_message (c\<lparr>status := SENDING, attempts := attempts c + 1,
                 next_attempt_at := now + pg_ts lease, modified_at := now\<rparr>) \<and>
           t' = map (\<lambda>r. if r = c then c\<lparr>status := SENDING, attempts := attempts c + 1,
                 next_attempt_at := now + pg_ts lease, modified_at := now\<rparr> else r) t"
proof -
  obtain c where c: "claim_candidate locked now t = Some c"
    using assms(3) by (auto simp: Messages_ClaimPending_Done split: option.splits)
  note cc = claim_candidate_Some [OF c]
  have "m = row_message (claimed_row now (pg_ts lease) c)"
    and "t' = map (\<lambda>r. if r = c then claimed_row now (pg_ts lease) r else r) t"
    using assms(3) lease_rounding [OF assms(2)] update_one [OF assms(1) cc(1)]
    by (auto simp: Messages_ClaimPending_Done c Let_def split: if_splits)
  then show ?thesis
    using cc by (intro bexI [of _ c]) (auto simp: claimed_row_def)
qed

theorem ClaimPending_correct_witness:
  "\<exists>c \<in> set [sample_row 1 ''a'' SENT, sample_row 2 ''b'' PENDING]. signal_message_id c = 2"
proof -
  let ?t = "[sample_row 1 ''a'' SENT, sample_row 2 ''b'' PENDING]"
  have ok: "table_ok ?t"
    by (simp add: table_ok_def sample_row_def new_row_def sqlc_insert_params_def sample_params_def
      row_ok_def exactly_one_target_def in_int32_def)
  have "Messages_ClaimPending Done [] 2000 5000 ?t =
      (Inr (row_message (claimed_row 2000 5000 (sample_row 2 ''b'' PENDING))),
       [sample_row 1 ''a'' SENT, claimed_row 2000 5000 (sample_row 2 ''b'' PENDING)])"
    by (simp add: Messages_ClaimPending_Done claim_candidate_def claimable_def sample_row_def
      new_row_def sqlc_insert_params_def sample_params_def sql_ts_tsTz pg_ts_def in_int32_def
      duration_units go_div_def Let_def)
  from ClaimPending_correct [OF ok _ this] show ?thesis
    by (auto simp: claimable_def sample_row_def new_row_def)
qed

text \<open>A claim reports \<open>ErrNotFound\<close> exactly when every eligible row is locked by another
  transaction, and then, as on every other error of the statement, the table is unchanged.\<close>

theorem ClaimPending_NotFound:
  "(fst (Messages_ClaimPending Done locked now lease t) = Inl (Sentinel ErrNotFound) \<longleftrightarrow>
      (\<forall>r \<in> set t. claimable now r \<longrightarrow> signal_message_id r \<in> set locked)) \<and>
   (\<forall>e. fst (Messages_ClaimPending Done locked now lease t) = Inl e \<longrightarrow>
      snd (Messages_ClaimPending Done locked now lease t) = t)"
  unfolding claim_candidate_None [symmetric]
  by (auto simp: Messages_ClaimPending_Done Let_def split: option.splits if_splits)

theorem ClaimPending_NotFound_witness:
  "fst (Messages_ClaimPending Done [2] 2000 5000
          [sample_row 1 ''a'' SENT, sample_row 2 ''b'' PENDING]) = Inl (Sentinel ErrNotFound) \<and>
   snd (Messages_ClaimPending Done [2] 2000 5000
          [sample_row 1 ''a'' SENT, sample_row 2 ''b'' PENDING]) =
     [sample_row 1 ''a'' SENT, sample_row 2 ''b'' PENDING]"
  using ClaimPending_NotFound [of "[2]" 2000 5000
    "[sample_row 1 ''a'' SENT, sample_row 2 ''b'' PENDING]"]
  by (auto simp: claimable_def sample_row_def new_row_def)

lemma find_unique_append:
  "(\<And>s. s \<in> set t \<Longrightarrow> \<not> P s) \<Longrightarrow> P r \<Longrightarrow> List.find P (t @ [r]) = Some r"
  by (induction t) auto

lemma Messages_Insert_Done:
  "Messages_Insert Done gid now p t =
     (let r = new_row gid now (sqlc_insert_params p) in
      case insert_violation t r of
        Some c \<Rightarrow> (Inl (Wrapped ''insert signal message'' (sql_error c)), t)
      | None \<Rightarrow> (Inr (row_message r), t @ [r]))"
  by (simp add: Messages_Insert_def Queries_Insert_def Let_def wrap_result_def [of _ _ "Inl _"]
    split: option.split)

text \<open>C33. A stored message is found again under each of its keys: the id the insert returned, the
  caller's external id and, when one was given, the idempotency key; the message is PENDING with no
  attempt made, due at once, and carries the caller's fields.\<close>

theorem Insert_lookup:
  assumes "Messages_Insert Done gid now p t = (Inr m, t')"
  shows "Messages_GetByID Done (sm_ID m) t' = (Inr m, t') \<and>
         Messages_GetByExternalID Done (rip_ExternalID p) t' = (Inr m, t') \<and>
         (\<forall>k. rip_IdempotencyKey p = Some k \<longrightarrow>
            Messages_GetByIdempotencyKey Done k t' = (Inr m, t')) \<and>
         sm_Status m = StatusPending \<and> sm_Attempts m = 0 \<and> sm_NextAttemptAt m = now \<and>
         sm_Recipient m = rip_Recipient p \<and> sm_GroupID m = rip_GroupID p \<and>
         sm_Content m = rip_Content p \<and> sm_Attachments m = rip_Attachments p \<and>
         sm_QuoteResultID m = None"
proof -
  let ?r = "new_row gid now (sqlc_insert_params p)"
  from assms have none: "insert_violation t ?r = None"
    and m: "m = row_message ?r" and t': "t' = t @ [?r]"
    by (auto simp: Messages_Insert_Done Let_def split: option.splits)
  have fresh: "signal_message_id s \<noteq> gid" "external_id s \<noteq> rip_ExternalID p"
    "rip_IdempotencyKey p = Some k \<Longrightarrow> idempotency_key s \<noteq> Some k" if "s \<in> set t" for s k
    using none that unfolding insert_violation_None
    by (force simp: new_row_def sqlc_insert_params_def set_keys)+
  have "List.find (\<lambda>r. Some (signal_message_id r) = sql_uuid (uuidToPg (sm_ID m)) \<and>
          deleted_at r = None) t' = Some ?r"
    unfolding t' by (rule find_unique_append) (simp_all add: fresh m row_message_def new_row_def)
  moreover have "List.find (\<lambda>r. external_id r = rip_ExternalID p \<and> deleted_at r = None) t' = Some ?r"
    unfolding t'
    by (rule find_unique_append) (simp_all add: fresh new_row_def sqlc_insert_params_def)
  moreover have "List.find (\<lambda>r. Some k \<noteq> None \<and> idempotency_key r = Some k) t' = Some ?r"
    if "rip_IdempotencyKey p = Some k" for k
    unfolding t' using that
    by (intro find_unique_append) (simp_all add: fresh new_row_def sqlc_insert_params_def)
  ultimately show ?thesis
    by (simp add: Messages_GetByID_def Messages_GetByExternalID_def Messages_GetByIdempotencyKey_def
      Queries_GetByID_def Queries_GetByExternalID_def Queries_GetByIdempotencyKey_def m
      row_message_def new_row_def sqlc_insert_params_def status_strings)
qed

theorem Insert_lookup_witness:
  "\<exists>m t'. Messages_Insert Done 7 1000 sample_params [sample_row 1 ''a'' SENT] = (Inr m, t') \<and>
     Messages_GetByIdempotencyKey Done ''key'' t' = (Inr m, t')"
proof -
  let ?r = "new_row 7 1000 (sqlc_insert_params sample_params)"
  have "Messages_Insert Done 7 1000 sample_params [sample_row 1 ''a'' SENT] =
      (Inr (row_message ?r), [sample_row 1 ''a'' SENT, ?r])"
    by (simp add: Messages_Insert_Done Let_def insert_violation_def exactly_one_target_def
      sample_row_def new_row_def sqlc_insert_params_def sample_params_def)
  with Insert_lookup [OF this] show ?thesis
    by (simp add: sample_params_def)
qed

lemma Messages_MarkTimedOut_Done:
  "Messages_MarkTimedOut Done now t =
     (Inr (int (length (filter (overdue now) t))), update_where (overdue now) (timed_out_row now) t)"
  by (simp add: Messages_MarkTimedOut_def Queries_MarkTimedOut_def wrap_result_def)

lemma timed_out_not_overdue [simp]: "\<not> overdue now' (timed_out_row now r)"
  by (simp add: overdue_def timed_out_row_def)

text \<open>One pass of the reaper's statement flips every overdue, live, unfinished row to TIMED_OUT
  and no other, answers how many it flipped, and a second pass at the same instant flips none.\<close>

theorem MarkTimedOut_exact:
  "let (n, t') = Messages_MarkTimedOut Done now t in
     n = Inr (int (length (filter (overdue now) t))) \<and>
     t' = map (\<lambda>r. if overdue now r then r\<lparr>status := TIMED_OUT, modified_at := now\<rparr> else r) t \<and>
     filter (overdue now) t' = [] \<and>
     Messages_MarkTimedOut Done now t' = (Inr 0, t')"
proof -
  let ?t' = "update_where (overdue now) (timed_out_row now) t"
  have *: "\<not> overdue now r" if "r \<in> set ?t'" for r
    using that by (auto simp: set_update_where)
  then have "filter (overdue now) ?t' = []"
    by (simp add: filter_empty_conv)
  moreover have "update_where (overdue now) (timed_out_row now) ?t' = ?t'"
    using * by (intro update_where_none) auto
  ultimately show ?thesis
    by (simp add: Messages_MarkTimedOut_Done) (simp add: update_where_def timed_out_row_def)
qed

lemma Messages_Resend_Done:
  "Messages_Resend Done now i t =
     (None, update_where (\<lambda>r. signal_message_id r = i \<and> resendable r) (resent_row now) t)"
  by (simp add: Messages_Resend_def Queries_Resend_def wrap_exec_def eq_commute)

text \<open>C34. Resending a message whose deadline has passed puts it back to PENDING without a new
  deadline, so no later claim can take it and the next reaper pass times it out again.\<close>

theorem Resend_overdue_futile:
  assumes "row_at t i = Some r" and "resendable r" and "deleted_at r = None"
    and "timeout_at r = Some d" and "d \<le> now" and "now \<le> now'"
  shows "\<exists>r'. row_at (snd (Messages_Resend Done now i t)) i = Some r' \<and> status r' = PENDING \<and>
           \<not> claimable now' r' \<and> overdue now' r'"
proof -
  have "row_at (snd (Messages_Resend Done now i t)) i = Some (resent_row now r)"
    using assms(1,2) by (simp add: Messages_Resend_Done resent.row_at_update_id)
  then show ?thesis
    using assms(3-6) by (simp add: resent_row_def claimable_def overdue_def)
qed

theorem Resend_overdue_futile_witness:
  "\<exists>r'. row_at (snd (Messages_Resend Done 95000 1 [sample_row 1 ''a'' TIMED_OUT])) 1 = Some r' \<and>
     \<not> claimable 99000 r'"
  using Resend_overdue_futile [of "[sample_row 1 ''a'' TIMED_OUT]" 1 "sample_row 1 ''a'' TIMED_OUT"
    90000 95000 99000]
  by (auto simp: row_at_def resendable_def sample_row_def new_row_def sqlc_insert_params_def
    sample_params_def sql_ts_tsTz pg_ts_def Microsecond_def)

text \<open>The rows a filter selects, in the order of the listing.\<close>

definition selected ::
  "(string \<Rightarrow> string \<Rightarrow> bool) \<Rightarrow> ListFilters \<Rightarrow> pg_status option \<Rightarrow> table \<Rightarrow> row list" where
  "selected ilike f st t = sort_key list_order (filter (\<lambda>r.
     live r \<and>
     (case lf_Q f of None \<Rightarrow> True | Some q \<Rightarrow> ilike (content r) (''%'' @ q @ ''%'')) \<and>
     (st = None \<or> st = Some (status r)) \<and>
     (lf_Attempts f = None \<or> lf_Attempts f = Some (attempts r)) \<and>
     (case sql_ts (tsTz (lf_CreatedAtFrom f)) of None \<Rightarrow> True | Some a \<Rightarrow> a \<le> created_at r) \<and>
     (case sql_ts (tsTz (lf_CreatedAtTo f)) of None \<Rightarrow> True | Some b \<Rightarrow> created_at r < b)) t)"

lemma matches_selected:
  assumes "cp_Q arg = lf_Q f" and "cp_Attempts arg = lf_Attempts f"
    and "cp_CreatedAtFrom arg = tsTz (lf_CreatedAtFrom f)"
    and "cp_CreatedAtTo arg = tsTz (lf_CreatedAtTo f)"
  shows "sort_key list_order (filter (matches ilike arg st) t) = selected ilike f st t"
  unfolding selected_def
  by (rule arg_cong [where f = "sort_key list_order"], rule filter_cong)
    (auto simp: matches_def assms live_def split: option.splits)

lemma domainStatusToSQLC_id [simp]: "domainStatusToSQLC s = s"
  by (simp add: domainStatusToSQLC_def split: option.split)

lemma Messages_List_Done:
  assumes "status_arg (lf_Status f) = Inr st" and "0 \<le> lf_Limit f" and "0 \<le> lf_Offset f"
  shows "Messages_List ilike Done f t =
    (Inr (map row_message (take (nat (lf_Limit f)) (drop (nat (lf_Offset f))
       (selected ilike f st t)))), t)"
proof -
  let ?arg = "\<lparr>cp_Q = lf_Q f, cp_StatusFilter = lf_Status f, cp_Attempts = lf_Attempts f,
    cp_CreatedAtFrom = tsTz (lf_CreatedAtFrom f), cp_CreatedAtTo = tsTz (lf_CreatedAtTo f),
    lp_OffsetCount = lf_Offset f, lp_LimitCount = lf_Limit f\<rparr>"
  have sel: "sort_key list_order (filter (matches ilike ?arg st) t) = selected ilike f st t"
    by (rule matches_selected) simp_all
  obtain ms where "scan_rows (take (nat (lf_Limit f)) (drop (nat (lf_Offset f))
      (selected ilike f st t))) = Inr ms"
    and "map rowToDomain ms = map row_message (take (nat (lf_Limit f)) (drop (nat (lf_Offset f))
      (selected ilike f st t)))"
    using scan_rows_domain by blast
  then show ?thesis
    using assms sel by (simp add: Messages_List_def Queries_List_def wrap_result_def)
qed

lemma Messages_Count_Done:
  assumes "status_arg (lf_Status f) = Inr st" and "in_int32 (int (length t))"
  shows "Messages_Count ilike Done f t = (Inr (int (length (selected ilike f st t))), t)"
proof -
  let ?arg = "\<lparr>cp_Q = lf_Q f, cp_StatusFilter = lf_Status f, cp_Attempts = lf_Attempts f,
    cp_CreatedAtFrom = tsTz (lf_CreatedAtFrom f), cp_CreatedAtTo = tsTz (lf_CreatedAtTo f)\<rparr>"
  have "sort_key list_order (filter (matches ilike ?arg st) t) = selected ilike f st t"
    by (rule matches_selected) simp_all
  then have len: "length (filter (matches ilike ?arg st) t) = length (selected ilike f st t)"
    by (metis length_sort)
  have "length (filter (matches ilike ?arg st) t) \<le> length t"
    by simp
  with assms(2) have "in_int32 (int (length (filter (matches ilike ?arg st) t)))"
    unfolding in_int32_def by linarith
  with assms(1) len show ?thesis
    by (simp add: Messages_Count_def Queries_Count_def count_int4_def wrap_result_def)
qed

fun pages :: "(string \<Rightarrow> string \<Rightarrow> bool) \<Rightarrow> ListFilters \<Rightarrow> int \<Rightarrow> table \<Rightarrow> nat \<Rightarrow> SignalMessage list" where
  "pages ilike f n t 0 = []"
| "pages ilike f n t (Suc k) = pages ilike f n t k @
     (case fst (Messages_List ilike Done (f\<lparr>lf_Limit := n, lf_Offset := int k * n\<rparr>) t) of
        Inl _ \<Rightarrow> [] | Inr ms \<Rightarrow> ms)"

lemma selected_page [simp]:
  "selected ilike (f\<lparr>lf_Limit := n, lf_Offset := m\<rparr>) st t = selected ilike f st t"
  by (simp add: selected_def)

lemma pages_take:
  assumes "status_arg (lf_Status f) = Inr st" and "0 \<le> n"
  shows "pages ilike f n t k = map row_message (take (k * nat n) (selected ilike f st t))"
proof (induction k)
  case (Suc k)
  have "nat (int k * n) = k * nat n"
    using assms(2) by (simp add: nat_mult_distrib)
  moreover have "take (Suc k * nat n) xs = take (k * nat n) xs @ take (nat n) (drop (k * nat n) xs)"
    for xs :: "row list"
    by (simp only: mult_Suc add.commute [of "nat n"] take_add)
  ultimately show ?case
    using Suc assms by (simp add: Messages_List_Done [where st = st] del: mult_Suc)
qed simp

text \<open>Walking through the listing page by page returns every live row the filter selects exactly
  once, newest first and by id among equals; \<open>Count\<close> is the number of rows the walk returns.\<close>

theorem List_pages_complete:
  assumes "status_arg (lf_Status f) = Inr st" and "0 < n" and "in_int32 (int (length t))"
    and "int (length (selected ilike f st t)) \<le> int k * n"
  shows "pages ilike f n t k = map row_message (selected ilike f st t) \<and>
         sorted (map list_order (selected ilike f st t)) \<and>
         Messages_Count ilike Done f t = (Inr (int (length (pages ilike f n t k))), t)"
proof -
  have "int (k * nat n) = int k * n"
    using assms(2) by simp
  with assms(4) have "length (selected ilike f st t) \<le> k * nat n"
    by linarith
  then have "pages ilike f n t k = map row_message (selected ilike f st t)"
    using pages_take [OF assms(1)] assms(2) by simp
  moreover have "sorted (map list_order (selected ilike f st t))"
    by (simp add: selected_def)
  ultimately show ?thesis
    using Messages_Count_Done [OF assms(1) assms(3)] by simp
qed

definition sample_filters :: ListFilters where
  "sample_filters = \<lparr>lf_Q = None, lf_Status = Some StatusPending, lf_Attempts = None,
     lf_CreatedAtFrom = None, lf_CreatedAtTo = None, lf_Limit = 1, lf_Offset = 0\<rparr>"

theorem List_pages_complete_witness:
  "pages (\<lambda>a b. True) sample_filters 1
     [sample_row 4 ''b'' PENDING, sample_row 3 ''c'' SENT, sample_row 2 ''a'' PENDING] 2 =
   [row_message (sample_row 2 ''a'' PENDING), row_message (sample_row 4 ''b'' PENDING)]"
proof -
  let ?t = "[sample_row 4 ''b'' PENDING, sample_row 3 ''c'' SENT, sample_row 2 ''a'' PENDING]"
  have st: "status_arg (lf_Status sample_filters) = Inr (Some PENDING)"
    by (simp add: status_arg_def sample_filters_def status_strings_enum del: pg_enum_out.simps)
  have sel: "selected (\<lambda>a b. True) sample_filters (Some PENDING) ?t =
      [sample_row 2 ''a'' PENDING, sample_row 4 ''b'' PENDING]"
    by (simp add: selected_def sample_filters_def sample_row_def new_row_def live_def sql_ts_tsTz
      list_order_def)
  show ?thesis
    using List_pages_complete [OF st, of 1 ?t "\<lambda>a b. True" 2] by (simp add: sel in_int32_def)
qed

definition status_rows :: "table \<Rightarrow> pg_status \<Rightarrow> row list" where
  "status_rows t v = filter (\<lambda>r. deleted_at r = None \<and> status r = v) t"

lemma stats_groups_eq:
  assumes "in_int32 (int (length t))"
  shows "stats_groups t vs =
    Inr (map (\<lambda>v. \<lparr>sc_Status = pg_enum_out v, sc_Counted = int (length (status_rows t v))\<rparr>)
      (filter (\<lambda>v. status_rows t v \<noteq> []) vs))"
proof (induction vs)
  case (Cons v vs)
  have "length (status_rows t v) \<le> length t"
    by (simp add: status_rows_def)
  with assms have "in_int32 (int (length (status_rows t v)))"
    unfolding in_int32_def by linarith
  then have "count_int4 (filter (\<lambda>r. deleted_at r = None \<and> status r = v) t) =
      Inr (int (length (status_rows t v)))"
    by (simp add: count_int4_def status_rows_def)
  with Cons show ?case
    by (simp add: Let_def status_rows_def)
qed simp

lemma status_rows_sum:
  "distinct vs \<Longrightarrow> (\<Sum>v\<leftarrow>vs. int (length (status_rows t v))) =
     int (length (filter (\<lambda>r. deleted_at r = None \<and> status r \<in> set vs) t))"
proof (induction vs)
  case (Cons v vs)
  have "length (filter (\<lambda>r. deleted_at r = None \<and> status r \<in> set (v # vs)) t) =
      length (status_rows t v) + length (filter (\<lambda>r. deleted_at r = None \<and> status r \<in> set vs) t)"
    using Cons.prems by (induction t) (auto simp: status_rows_def)
  with Cons show ?case by simp
qed simp

lemma sum_list_filter_nonempty:
  "(\<Sum>v\<leftarrow>filter (\<lambda>v. f v \<noteq> []) vs. int (length (f v))) = (\<Sum>v\<leftarrow>vs. int (length (f v)))"
  by (induction vs) auto

text \<open>The status histogram names each status at most once, with the number of live rows in it,
  and its counts add up to the number of live rows.\<close>

theorem StatsCounts_partition:
  assumes "distinct order" and "set order = UNIV" and "in_int32 (int (length t))"
  shows "\<exists>cs. Messages_StatsCounts Done order t = (Inr cs, t) \<and> distinct (map stc_Status cs) \<and>
    (\<forall>v n. \<lparr>stc_Status = pg_enum_out v, stc_Count = n\<rparr> \<in> set cs \<longleftrightarrow>
       0 < n \<and> n = int (length (status_rows t v))) \<and>
    (\<Sum>c\<leftarrow>cs. stc_Count c) = int (length (filter live t))"
proof -
  let ?vs = "filter (\<lambda>v. status_rows t v \<noteq> []) order"
  let ?cs = "map (\<lambda>v. \<lparr>stc_Status = pg_enum_out v, stc_Count = int (length (status_rows t v))\<rparr>) ?vs"
  have "Messages_StatsCounts Done order t = (Inr ?cs, t)"
    by (simp add: Messages_StatsCounts_def Queries_StatsCounts_def wrap_result_def
      stats_groups_eq [OF assms(3)])
  moreover have "distinct (map stc_Status ?cs)"
    using assms(1) by (simp add: distinct_map inj_on_def)
  moreover have "\<forall>v n. \<lparr>stc_Status = pg_enum_out v, stc_Count = n\<rparr> \<in> set ?cs \<longleftrightarrow>
       0 < n \<and> n = int (length (status_rows t v))"
    using assms(2) by auto
  moreover have "(\<Sum>c\<leftarrow>?cs. stc_Count c) = (\<Sum>v\<leftarrow>order. int (length (status_rows t v)))"
    by (simp add: comp_def sum_list_filter_nonempty)
  moreover have "\<dots> = int (length (filter live t))"
    using assms(2) by (simp add: status_rows_sum [OF assms(1)] live_def [abs_def])
  ultimately show ?thesis
    by (intro exI [of _ ?cs]) simp
qed

theorem StatsCounts_partition_witness:
  "\<exists>cs. Messages_StatsCounts Done pg_statuses [sample_row 1 ''a'' SENT, sample_row 2 ''b'' SENT] =
     (Inr cs, [sample_row 1 ''a'' SENT, sample_row 2 ''b'' SENT]) \<and>
     \<lparr>stc_Status = StatusSent, stc_Count = 2\<rparr> \<in> set cs"
proof -
  let ?t = "[sample_row 1 ''a'' SENT, sample_row 2 ''b'' SENT]"
  have "set pg_statuses = UNIV"
    unfolding pg_statuses_def using pg_status.exhaust by auto
  moreover have "distinct pg_statuses" "in_int32 (int (length ?t))"
    by (simp_all add: pg_statuses_def in_int32_def)
  ultimately obtain cs where cs: "Messages_StatsCounts Done pg_statuses ?t = (Inr cs, ?t)"
    and mem: "\<forall>v n. \<lparr>stc_Status = pg_enum_out v, stc_Count = n\<rparr> \<in> set cs \<longleftrightarrow>
       0 < n \<and> n = int (length (status_rows ?t v))"
    using StatsCounts_partition by blast
  have "\<lparr>stc_Status = pg_enum_out SENT, stc_Count = 2\<rparr> \<in> set cs"
    using mem [rule_format, of SENT 2] by (simp add: status_rows_def sample_row_def new_row_def)
  with cs show ?thesis
    by (auto simp: status_strings)
qed

section \<open>Effects under every driver answer\<close>

lemma Messages_MarkSent_effect:
  assumes "Messages_MarkSent d now i res t = (x, t')"
  shows "(x \<noteq> None \<and> t' = t) \<or>
    (\<exists>res'. t' = update_where (\<lambda>r. signal_message_id r = i) (sent_row now (Some res')) t)"
proof -
  let ?s = "Queries_MarkSent now \<lparr>ms_ResultID = Some res, ms_ID = uuidToPg i\<rparr>"
  have s: "(isl (fst (?s t)) \<and> snd (?s t) = t) \<or>
      (\<exists>res'. snd (?s t) = update_where (\<lambda>r. signal_message_id r = i) (sent_row now (Some res')) t)"
  proof (cases "varchar25 res")
    case None
    then show ?thesis
      using update_where_none [of t "\<lambda>r. signal_message_id r = i" "sent_row now (Some res)"]
      by (auto simp: Queries_MarkSent_def Let_def list_ex_iff intro!: exI [of _ res])
  next
    case (Some v)
    then show ?thesis by (intro disjI2 exI [of _ v]) (simp add: Queries_MarkSent_def Let_def)
  qed
  show ?thesis
  proof (cases d)
    case Done
    with assms s show ?thesis
      by (auto simp: Messages_MarkSent_def wrap_exec_def split_beta split: sum.splits)
  qed (use assms s in \<open>auto simp: Messages_MarkSent_def wrap_exec_def\<close>)
qed

lemma Messages_MarkFailed_effect:
  assumes "Messages_MarkFailed d now i err nxt t = (x, t')"
  shows "(x \<noteq> None \<and> t' = t) \<or>
    (\<exists>nxt'. t' = update_where (\<lambda>r. signal_message_id r = i) (failed_row now (Some err) nxt') t)"
proof -
  let ?s = "Queries_MarkFailed now \<lparr>mf_LastError = Some err, mf_NextAttemptAt = tsTz (Some nxt),
    mf_ID = uuidToPg i\<rparr>"
  have s: "(isl (fst (?s t)) \<and> snd (?s t) = t) \<or>
      (\<exists>nxt'. snd (?s t) = update_where (\<lambda>r. signal_message_id r = i) (failed_row now (Some err) nxt') t)"
  proof (cases "sql_ts (tsTz (Some nxt))")
    case None
    then show ?thesis
      using update_where_none [of t "\<lambda>r. signal_message_id r = i" "failed_row now (Some err) nxt"]
      by (auto simp: Queries_MarkFailed_def Let_def list_ex_iff intro!: exI [of _ nxt])
  next
    case (Some v)
    then show ?thesis by (intro disjI2 exI [of _ v]) (simp add: Queries_MarkFailed_def Let_def)
  qed
  show ?thesis
  proof (cases d)
    case Done
    with assms s show ?thesis
      by (auto simp: Messages_MarkFailed_def wrap_exec_def split_beta split: sum.splits)
  qed (use assms s in \<open>auto simp: Messages_MarkFailed_def wrap_exec_def\<close>)
qed

lemma Messages_Insert_effect:
  assumes "Messages_Insert d gid now p t = (x, t')"
  shows "case x of
      Inl e \<Rightarrow> (\<forall>e'. d \<noteq> Failed_after e') \<longrightarrow> t' = t
    | Inr m \<Rightarrow> t' = t @ [new_row gid now (sqlc_insert_params p)] \<and>
        m = row_message (new_row gid now (sqlc_insert_params p)) \<and> (table_ok t \<longrightarrow> table_ok t')"
proof (cases d)
  case Done
  then show ?thesis
    using assms writes_table_ok(1) [of t d gid now p]
    by (auto simp: Messages_Insert_Done Let_def split: option.splits)
qed (use assms in \<open>auto simp: Messages_Insert_def wrap_result_def\<close>)

lemma Messages_GetByIdempotencyKey_effect:
  assumes "Messages_GetByIdempotencyKey d k t = (x, t')"
  shows "t' = t"
    and "x = Inr m \<Longrightarrow> \<exists>r \<in> set t. idempotency_key r = Some k \<and> m = row_message r"
  using assms
  by (cases d; force simp: Messages_GetByIdempotencyKey_def Queries_GetByIdempotencyKey_def
    wrap_row_def [of _ "Inl _"] split: option.splits if_splits dest!: find_Some_iff_first)+

lemma keys_unique:
  assumes "distinct (keys t)" and "r \<in> set t" and "s \<in> set t"
    and "idempotency_key r = Some k" and "idempotency_key s = Some k"
  shows "r = s"
  using assms
proof (induction t)
  case (Cons a t)
  have "k \<in> set (keys t)" if "u \<in> set t" "idempotency_key u = Some k" for u
    using that by (auto simp: set_keys)
  with Cons show ?case by (auto split: option.splits)
qed simp

lemma Messages_GetByIdempotencyKey_Done:
  assumes "table_ok t" and "r \<in> set t" and "idempotency_key r = Some k"
  shows "Messages_GetByIdempotencyKey Done k t = (Inr (row_message r), t)"
proof -
  have "List.find (\<lambda>r. Some k \<noteq> None \<and> idempotency_key r = Some k) t = Some r"
  proof (cases "List.find (\<lambda>r. Some k \<noteq> None \<and> idempotency_key r = Some k) t")
    case None
    then show ?thesis using assms(2,3) by (auto simp: find_None_iff)
  next
    case (Some s)
    from find_Some_iff_first [OF this] have "s \<in> set t" "idempotency_key s = Some k" by auto
    then have "s = r" using assms keys_unique [of t s r k] by (simp add: table_ok_def)
    with Some show ?thesis by simp
  qed
  then show ?thesis
    by (simp add: Messages_GetByIdempotencyKey_def Queries_GetByIdempotencyKey_def)
qed

lemma Messages_ClaimPending_effect:
  assumes "Messages_ClaimPending d locked now lease t = (x, t')"
  shows "(isl x \<and> t' = t) \<or>
    (\<exists>c. claim_candidate locked now t = Some c \<and>
       t' = update_where (\<lambda>r. signal_message_id r = signal_message_id c)
              (claimed_row now (go_div lease Microsecond * Microsecond)) t \<and>
       (\<forall>m. x = Inr m \<longrightarrow> m = row_message (claimed_row now (go_div lease Microsecond * Microsecond) c)))"
proof (cases d)
  case Done
  with assms show ?thesis
    by (auto simp: Messages_ClaimPending_Done Let_def split: option.splits if_splits)
next
  case (Failed_before e)
  with assms show ?thesis by (auto simp: Messages_ClaimPending_def wrap_row_def split: if_splits)
next
  case (Failed_after e)
  then have "isl x" and "t' = snd (Queries_ClaimPending locked now (intervalFromDuration lease) t)"
    using assms by (auto simp: Messages_ClaimPending_def wrap_row_def)
  then show ?thesis
    by (cases "claim_candidate locked now t")
      (auto simp: Queries_ClaimPending_def sql_interval_from split: if_splits)
qed

end
