(* ===== verification/GoStrings.thy ===== *)
theory GoStrings
  imports Prelude "HOL-Library.Sublist"
begin

text \<open>
  The string functions of the Go standard library the service uses, on byte strings: rune decoding
  (\<open>unicode/utf8\<close>), \<open>strings.TrimSpace\<close>, \<open>strings.HasPrefix\<close>, \<open>filepath.Base\<close>, \<open>filepath.Clean\<close> and
  \<open>filepath.Join\<close> on Unix, \<open>strconv.FormatInt\<close> in base ten, and \<open>strings.Split\<close> at a byte.
\<close>

definition byte :: "char \<Rightarrow> nat" where
  "byte c = of_char c"

section \<open>Runes\<close>

definition between :: "nat \<Rightarrow> nat \<Rightarrow> char \<Rightarrow> bool" where
  "between a b c \<longleftrightarrow> a \<le> byte c \<and> byte c \<le> b"

definition cont :: "char \<Rightarrow> bool" where
  "cont = between 0x80 0xBF"

text \<open>The width \<open>utf8.DecodeRune\<close> reports at the start of a non-empty string; one for a byte that does
  not start a well-formed encoding.\<close>

fun rune_width :: "string \<Rightarrow> nat" where
  "rune_width (a # b # c # d # r) =
     (if between 0xC2 0xDF a \<and> cont b then 2
      else if (between 0xE0 0xE0 a \<and> between 0xA0 0xBF b \<or>
               between 0xE1 0xEC a \<and> cont b \<or> between 0xED 0xED a \<and> between 0x80 0x9F b \<or>
               between 0xEE 0xEF a \<and> cont b) \<and> cont c then 3
      else if (between 0xF0 0xF0 a \<and> between 0x90 0xBF b \<or> between 0xF1 0xF3 a \<and> cont b \<or>
               between 0xF4 0xF4 a \<and> between 0x80 0x8F b) \<and> cont c \<and> cont d then 4
      else 1)"
| "rune_width [a, b, c] =
     (if between 0xC2 0xDF a \<and> cont b then 2
      else if (between 0xE0 0xE0 a \<and> between 0xA0 0xBF b \<or>
               between 0xE1 0xEC a \<and> cont b \<or> between 0xED 0xED a \<and> between 0x80 0x9F b \<or>
               between 0xEE 0xEF a \<and> cont b) \<and> cont c then 3
      else 1)"
| "rune_width [a, b] = (if between 0xC2 0xDF a \<and> cont b then 2 else 1)"
| "rune_width [a] = 1"
| "rune_width [] = 1"

lemma rune_width_pos [simp]: "0 < rune_width s"
  by (cases s rule: rune_width.cases) auto

text \<open>The runes of a string, each as the bytes that encode it.\<close>

function runes :: "string \<Rightarrow> string list" where
  "runes [] = []"
| "runes (c # s) = take (rune_width (c # s)) (c # s) # runes (drop (rune_width (c # s)) (c # s))"
  by pat_completeness auto
termination
  by (relation "measure length") (auto simp: not_less_eq_eq Suc_le_eq)

section \<open>Trimming\<close>

definition space_encodings :: "string list" where
  "space_encodings = map (map char_of)
     ([[0x09], [0x0A], [0x0B], [0x0C], [0x0D], [0x20], [0xC2, 0x85], [0xC2, 0xA0], [0xE1, 0x9A, 0x80]] @
      map (\<lambda>n. [0xE2, 0x80, n]) [0x80 ..< 0x8B] @
      [[0xE2, 0x80, 0xA8], [0xE2, 0x80, 0xA9], [0xE2, 0x80, 0xAF], [0xE2, 0x81, 0x9F],
       [0xE3, 0x80, 0x80 :: nat]])"

function trim_left :: "string list \<Rightarrow> string \<Rightarrow> string" where
  "trim_left sp s =
     (case List.find (\<lambda>p. p \<noteq> [] \<and> prefix p s) sp of
        None \<Rightarrow> s
      | Some p \<Rightarrow> trim_left sp (drop (length p) s))"
  by pat_completeness auto
termination
  by (relation "measure (length \<circ> snd)")
    (auto dest!: find_Some_iff_first simp: prefix_def)

declare trim_left.simps [simp del]
declare runes.simps(2) [simp del]

definition TrimSpace :: "string \<Rightarrow> string" where
  "TrimSpace s = rev (trim_left (map rev space_encodings) (rev (trim_left space_encodings s)))"

section \<open>Paths\<close>

fun split_on :: "char \<Rightarrow> string \<Rightarrow> string list" where
  "split_on d [] = [[]]"
| "split_on d (c # s) =
     (if c = d then [] # split_on d s
      else case split_on d s of [] \<Rightarrow> [[c]] | w # ws \<Rightarrow> (c # w) # ws)"

fun join_with :: "string \<Rightarrow> string list \<Rightarrow> string" where
  "join_with sep [] = []"
| "join_with sep [w] = w"
| "join_with sep (w # v # ws) = w @ sep @ join_with sep (v # ws)"

definition strip_trailing :: "char \<Rightarrow> string \<Rightarrow> string" where
  "strip_trailing d s = rev (dropWhile (\<lambda>c. c = d) (rev s))"

definition filepath_Base :: "string \<Rightarrow> string" where
  "filepath_Base path =
     (if path = '''' then ''.''
      else let p = strip_trailing (CHR ''/'') path;
               b = rev (takeWhile (\<lambda>c. c \<noteq> CHR ''/'') (rev p)) in
           if b = '''' then ''/'' else b)"

fun clean_parts :: "bool \<Rightarrow> string list \<Rightarrow> string list \<Rightarrow> string list" where
  "clean_parts rooted acc [] = rev acc"
| "clean_parts rooted acc (w # ws) =
     (if w = '''' \<or> w = ''.'' then clean_parts rooted acc ws
      else if w = ''..'' then
        (case acc of
           [] \<Rightarrow> clean_parts rooted (if rooted then [] else [w]) ws
         | v # vs \<Rightarrow> if v = ''..'' then clean_parts rooted (w # acc) ws
                     else clean_parts rooted vs ws)
      else clean_parts rooted (w # acc) ws)"

definition filepath_Clean :: "string \<Rightarrow> string" where
  "filepath_Clean path =
     (let rooted = (prefix ''/'' path);
          out = (if rooted then ''/'' else '''') @
                join_with ''/'' (clean_parts rooted [] (split_on (CHR ''/'') path)) in
      if out = '''' then ''.'' else out)"

definition filepath_Join :: "string list \<Rightarrow> string" where
  "filepath_Join elem =
     (let es = dropWhile (\<lambda>e. e = '''') elem in
      if es = [] then '''' else filepath_Clean (join_with ''/'' es))"

section \<open>Numbers\<close>

fun digits :: "nat \<Rightarrow> string" where
  "digits n = (if n < 10 then [char_of (48 + n)]
     else digits (n div 10) @ [char_of (48 + n mod 10)])"

declare digits.simps [simp del]

definition FormatInt :: "int \<Rightarrow> string" where
  "FormatInt i = (if i < 0 then ''-'' @ digits (nat (- i)) else digits (nat i))"

section \<open>Lemmas\<close>

lemma runes_concat: "concat (runes s) = s"
  by (induction s rule: runes.induct) (simp_all only: runes.simps concat.simps append_take_drop_id)

lemma ascii_rune_width:
  assumes "byte a < 0x80"
  shows "rune_width (a # s) = 1"
  using assms by (cases "a # s" rule: rune_width.cases) (auto simp: between_def)

lemma runes_ascii:
  "list_all (\<lambda>c. byte c < 0x80) s \<Longrightarrow> runes s = map (\<lambda>c. [c]) s"
  by (induction s) (simp_all add: ascii_rune_width runes.simps(2))

lemma split_on_ne [simp]: "split_on d s \<noteq> []"
  by (induction s) (auto split: list.split)

lemma split_on_no: "w \<in> set (split_on d s) \<Longrightarrow> d \<notin> set w"
  by (induction s arbitrary: w) (auto split: list.splits if_splits)

lemma split_on_single: "d \<notin> set s \<Longrightarrow> split_on d s = [s]"
  by (induction s) auto

lemma split_on_append:
  "d \<notin> set v \<Longrightarrow> split_on d (s @ [d] @ v) = split_on d s @ [v]"
  by (induction s) (auto simp: split_on_single split: list.splits)

lemma join_split: "join_with [d] (split_on d s) = s"
proof (induction s)
  case (Cons c s)
  then show ?case
    by (cases "split_on d s" rule: list.exhaust; cases "tl (split_on d s)") auto
qed simp

lemma join_with_append:
  "ws \<noteq> [] \<Longrightarrow> join_with sep (ws @ [v]) = join_with sep ws @ sep @ v"
  by (induction ws rule: induct_list012) auto

lemma takeWhile_rev_no:
  "\<forall>c \<in> set s. c \<noteq> d \<Longrightarrow> takeWhile (\<lambda>c. c \<noteq> d) (rev s) = rev s"
  by simp

lemma filepath_Base_no_slash:
  assumes "filepath_Base p \<noteq> ''/''"
  shows "CHR ''/'' \<notin> set (filepath_Base p)"
proof -
  have "CHR ''/'' \<notin> set (rev (takeWhile (\<lambda>c. c \<noteq> CHR ''/'') q))" for q
    using set_takeWhileD by fastforce
  with assms show ?thesis
    by (simp add: filepath_Base_def Let_def del: set_rev split: if_splits)
qed

lemma filepath_Base_last:
  assumes "CHR ''/'' \<notin> set v" and "v \<noteq> []"
  shows "filepath_Base (s @ ''/'' @ v) = v" and "filepath_Base v = v"
proof -
  have v: "dropWhile (\<lambda>c. c = CHR ''/'') (rev v @ w) = rev v @ w" for w
    using assms by (cases "rev v") (auto simp: dropWhile_append intro: arg_cong)
  have t: "takeWhile (\<lambda>c. c \<noteq> CHR ''/'') (rev v @ w) = rev v @ takeWhile (\<lambda>c. c \<noteq> CHR ''/'') w" for w
    using assms(1) by (intro takeWhile_append2) auto
  show "filepath_Base (s @ ''/'' @ v) = v"
    using assms(2) by (simp add: filepath_Base_def strip_trailing_def v t)
  show "filepath_Base v = v"
    using assms(2) v [of "[]"] t [of "[]"]
    by (simp add: filepath_Base_def strip_trailing_def del: takeWhile_eq_all_conv)
qed

section \<open>Joining paths\<close>

text \<open>A plain path element: what a file name or an identifier is.\<close>

definition plain :: "string \<Rightarrow> bool" where
  "plain w \<longleftrightarrow> w \<noteq> '''' \<and> w \<noteq> ''.'' \<and> w \<noteq> ''..'' \<and> CHR ''/'' \<notin> set w"

text \<open>The elements of a cleaned path: parent references only at the front, and none when rooted.\<close>

definition cleaned :: "bool \<Rightarrow> string list \<Rightarrow> bool" where
  "cleaned rooted P \<longleftrightarrow>
     (\<exists>k Q. P = replicate k ''..'' @ Q \<and> (rooted \<longrightarrow> k = 0) \<and> list_all plain Q)"

lemma plain_not_dots: "plain w \<Longrightarrow> w \<noteq> ''..'' \<and> w \<noteq> ''.'' \<and> w \<noteq> ''''"
  by (simp add: plain_def)

lemma cleaned_snoc:
  assumes "cleaned r P" and "plain w"
  shows "cleaned r (P @ [w])"
proof -
  obtain k Q where "P = replicate k ''..'' @ Q" "r \<longrightarrow> k = 0" "list_all plain Q"
    using assms(1) unfolding cleaned_def by blast
  with assms(2) have "P @ [w] = replicate k ''..'' @ (Q @ [w]) \<and> (r \<longrightarrow> k = 0) \<and>
      list_all plain (Q @ [w])"
    by simp
  then show ?thesis unfolding cleaned_def by blast
qed

lemma cleaned_up:
  assumes "cleaned False P" and "P = [] \<or> last P = ''..''"
  shows "cleaned False (P @ [''..''])"
proof -
  obtain k Q where P: "P = replicate k ''..'' @ Q" "list_all plain Q"
    using assms(1) unfolding cleaned_def by blast
  have "Q = []"
  proof (rule ccontr)
    assume "Q \<noteq> []"
    then have "last P = last Q" "plain (last Q)" using P by (auto simp: list_all_iff)
    with assms(2) P \<open>Q \<noteq> []\<close> show False by (auto dest: plain_not_dots)
  qed
  then have "P @ [''..''] = replicate (Suc k) ''..'' @ [] \<and> list_all plain []"
    using P by (simp add: replicate_append_same)
  then show ?thesis unfolding cleaned_def by blast
qed

lemma cleaned_butlast:
  assumes "cleaned r P" and "P \<noteq> []" and "last P \<noteq> ''..''"
  shows "cleaned r (butlast P)"
proof -
  obtain k Q where P: "P = replicate k ''..'' @ Q" "r \<longrightarrow> k = 0" "list_all plain Q"
    using assms(1) unfolding cleaned_def by blast
  have "Q \<noteq> []" using assms(2,3) P(1) by (cases "k = 0") auto
  then have "butlast P = replicate k ''..'' @ butlast Q"
    using P(1) by (simp add: butlast_append)
  moreover have "list_all plain (butlast Q)"
    using P(3) by (auto simp: list_all_iff dest: in_set_butlastD)
  ultimately show ?thesis using P(2) unfolding cleaned_def by blast
qed

lemma cleaned_rooted_last: "cleaned True P \<Longrightarrow> P \<noteq> [] \<Longrightarrow> last P \<noteq> ''..''"
  by (metis cleaned_def append_Nil last_in_set list_all_iff plain_not_dots replicate_0)

lemma clean_parts_cleaned:
  "cleaned r (rev acc) \<Longrightarrow> \<forall>w \<in> set ws. CHR ''/'' \<notin> set w \<Longrightarrow> cleaned r (clean_parts r acc ws)"
proof (induction r acc ws rule: clean_parts.induct)
  case (2 r acc w ws)
  show ?case
  proof (cases "w = '''' \<or> w = ''.''")
    case False
    note nd = this
    show ?thesis
    proof (cases "w = ''..''")
      case True
      note dd = this
      show ?thesis
      proof (cases acc)
        case Nil
        have "cleaned r (rev (if r then [] else [w]))"
          using "2.prems"(1) cleaned_up [of "[]"] dd Nil by (cases r) auto
        then show ?thesis using 2 dd Nil by auto
      next
        case (Cons v vs)
        show ?thesis
        proof (cases "v = ''..''")
          case True
          then have "\<not> r" using "2.prems"(1) cleaned_rooted_last [of "rev acc"] Cons by auto
          with True have "cleaned r (rev (w # acc))"
            using "2.prems"(1) cleaned_up [of "rev acc"] Cons dd by auto
          then show ?thesis using 2 dd Cons True by auto
        next
          case False
          have "cleaned r (rev vs)"
            using cleaned_butlast [OF "2.prems"(1)] Cons False by simp
          then show ?thesis using 2 dd Cons False by auto
        qed
      qed
    next
      case False
      then have "cleaned r (rev (w # acc))"
        using "2.prems" nd cleaned_snoc [of r "rev acc" w] by (simp add: plain_def)
      then show ?thesis using 2 nd False by auto
    qed
  qed (use 2 in auto)
qed simp

lemma clean_parts_snoc:
  "plain w \<Longrightarrow> clean_parts r acc (ws @ [w]) = clean_parts r acc ws @ [w]"
  by (induction r acc ws rule: clean_parts.induct) (auto simp: plain_def split: list.split)

lemma clean_parts_plain:
  "list_all plain Q \<Longrightarrow> clean_parts r acc Q = rev acc @ Q"
  by (induction Q arbitrary: acc) (auto simp: plain_def)

lemma clean_parts_ups:
  "clean_parts False (replicate j ''..'') (replicate k ''..'' @ Q) =
     clean_parts False (replicate (j + k) ''..'') Q"
proof (induction k arbitrary: j)
  case (Suc k)
  from Suc [of "Suc j"] show ?case by (cases j) auto
qed simp

lemma clean_parts_id:
  assumes "cleaned r P"
  shows "clean_parts r [] P = P"
proof -
  obtain k Q where P: "P = replicate k ''..'' @ Q" "r \<longrightarrow> k = 0" "list_all plain Q"
    using assms unfolding cleaned_def by blast
  then show ?thesis
    using clean_parts_ups [of 0 k Q] by (cases r) (auto simp: clean_parts_plain)
qed

lemma split_on_Cons_append:
  "d \<notin> set w \<Longrightarrow> split_on d (w @ [d] @ s) = w # split_on d s"
  by (induction w) auto

lemma split_join:
  "ws \<noteq> [] \<Longrightarrow> \<forall>w \<in> set ws. d \<notin> set w \<Longrightarrow> split_on d (join_with [d] ws) = ws"
proof (induction ws rule: induct_list012)
  case (3 w v ws)
  then show ?case using split_on_Cons_append [of d w "join_with [d] (v # ws)"] by simp
qed (simp_all add: split_on_single)

lemma cleaned_no_slash:
  assumes "cleaned r P"
  shows "\<forall>w \<in> set P. CHR ''/'' \<notin> set w \<and> w \<noteq> ''''"
proof
  fix w
  assume w: "w \<in> set P"
  obtain k Q where "P = replicate k ''..'' @ Q" "list_all plain Q"
    using assms unfolding cleaned_def by blast
  with w consider "w = ''..''" | "plain w"
    by (auto simp: list_all_iff)
  then show "CHR ''/'' \<notin> set w \<and> w \<noteq> ''''"
    by cases (simp_all add: plain_def)
qed

lemma join_not_rooted:
  assumes "ws \<noteq> []" and "\<forall>w \<in> set ws. CHR ''/'' \<notin> set w \<and> w \<noteq> ''''"
  shows "\<not> prefix ''/'' (join_with ''/'' ws)"
proof -
  obtain w vs where ws: "ws = w # vs" using assms(1) by (cases ws) auto
  with assms(2) have "CHR ''/'' \<notin> set w" "w \<noteq> ''''" by simp_all
  then obtain c u where w: "w = c # u" by (cases w) simp_all
  have c: "c \<noteq> CHR ''/''"
    using \<open>CHR ''/'' \<notin> set w\<close> unfolding w list.set(2) by (metis insertI1)
  obtain v where "join_with ''/'' ws = c # v" by (cases vs) (simp_all add: ws w)
  then show ?thesis using c by simp
qed

text \<open>Joining a directory and a plain element, and joining another one below it.\<close>

definition parts_of :: "string \<Rightarrow> string list" where
  "parts_of d = clean_parts (prefix ''/'' d) [] (split_on (CHR ''/'') d)"

definition root_of :: "string \<Rightarrow> string" where
  "root_of d = (if prefix ''/'' d then ''/'' else '''')"

lemma parts_of_cleaned: "cleaned (prefix ''/'' d) (parts_of d)"
proof -
  have "cleaned r []" for r by (simp add: cleaned_def)
  then show ?thesis
    unfolding parts_of_def by (intro clean_parts_cleaned) (auto dest: split_on_no)
qed

lemma join_snoc_ne: "w \<noteq> '''' \<Longrightarrow> join_with sep (P @ [w]) \<noteq> ''''"
  by (cases "P = []") (simp_all add: join_with_append)

lemma Join_plain:
  assumes "plain w" and "d \<noteq> ''''"
  shows "filepath_Join [d, w] = root_of d @ join_with ''/'' (parts_of d @ [w])"
proof -
  have "split_on (CHR ''/'') (d @ ''/'' @ w) = split_on (CHR ''/'') d @ [w]"
    using assms(1) by (intro split_on_append) (simp add: plain_def)
  moreover have "prefix ''/'' (d @ ''/'' @ w) = prefix ''/'' d"
    using assms(2) by (cases d) auto
  moreover have "join_with ''/'' (parts_of d @ [w]) \<noteq> ''''"
    using assms(1) by (intro join_snoc_ne) (simp add: plain_def)
  ultimately show ?thesis
    using assms
    by (simp add: filepath_Join_def filepath_Clean_def clean_parts_snoc parts_of_def root_of_def Let_def)
qed

lemma Join_parts:
  assumes "plain i" and "tmp \<noteq> ''''"
  shows "parts_of (filepath_Join [tmp, i]) = parts_of tmp @ [i]"
    and "root_of (filepath_Join [tmp, i]) = root_of tmp"
proof -
  let ?P = "parts_of tmp @ [i]"
  let ?r = "prefix ''/'' tmp"
  have P: "cleaned ?r ?P"
    using parts_of_cleaned assms(1) by (rule cleaned_snoc)
  have sj: "split_on (CHR ''/'') (join_with ''/'' ?P) = ?P"
    using cleaned_no_slash [OF P] by (intro split_join) auto
  have nr: "\<not> prefix ''/'' (join_with ''/'' ?P)"
    using cleaned_no_slash [OF P] by (intro join_not_rooted) auto
  note J = Join_plain [OF assms]
  show "root_of (filepath_Join [tmp, i]) = root_of tmp"
    unfolding J using nr by (simp add: root_of_def)
  show "parts_of (filepath_Join [tmp, i]) = parts_of tmp @ [i]"
  proof (cases ?r)
    case True
    then have "parts_of (filepath_Join [tmp, i]) = clean_parts True [] (split_on (CHR ''/'') (''/'' @ join_with ''/'' ?P))"
      unfolding J by (simp add: parts_of_def [of "CHR ''/'' # _"] root_of_def)
    then show ?thesis
      using sj True P clean_parts_id [of True ?P] by simp
  next
    case False
    then have "parts_of (filepath_Join [tmp, i]) = clean_parts False [] (split_on (CHR ''/'') (join_with ''/'' ?P))"
      unfolding J using nr by (simp add: parts_of_def [of "join_with _ _"] root_of_def)
    then show ?thesis
      using sj False P clean_parts_id [of False ?P] by simp
  qed
qed

lemma Join_ne: "plain i \<Longrightarrow> tmp \<noteq> '''' \<Longrightarrow> filepath_Join [tmp, i] \<noteq> ''''"
  unfolding Join_plain using join_snoc_ne by (simp add: plain_def)

lemma Join_Join:
  assumes "plain i" and "plain w" and "tmp \<noteq> ''''"
  shows "filepath_Join [filepath_Join [tmp, i], w] = filepath_Join [tmp, i] @ ''/'' @ w"
proof -
  have "filepath_Join [filepath_Join [tmp, i], w] =
      root_of tmp @ join_with ''/'' ((parts_of tmp @ [i]) @ [w])"
    unfolding Join_plain [OF assms(2) Join_ne [OF assms(1,3)]] Join_parts [OF assms(1,3)] ..
  also have "\<dots> = root_of tmp @ join_with ''/'' (parts_of tmp @ [i]) @ ''/'' @ w"
    by (subst join_with_append) simp_all
  finally show ?thesis
    unfolding Join_plain [OF assms(1,3)] by simp
qed

section \<open>Parsing numbers\<close>

text \<open>\<open>strconv.ParseInt(s, 10, 64)\<close>: an optional sign, then digits only; \<open>None\<close> is a syntax or range
  error.\<close>

definition digit :: "char \<Rightarrow> bool" where
  "digit c \<longleftrightarrow> between 48 57 c"

fun digits_value :: "nat \<Rightarrow> string \<Rightarrow> nat" where
  "digits_value acc [] = acc"
| "digits_value acc (c # cs) = digits_value (10 * acc + (byte c - 48)) cs"

definition ParseInt :: "string \<Rightarrow> int option" where
  "ParseInt s =
     (let neg = prefix ''-'' s;
          ds = (if neg \<or> prefix ''+'' s then tl s else s) in
      if ds = '''' \<or> \<not> list_all digit ds then None
      else let v = (if neg then - int (digits_value 0 ds) else int (digits_value 0 ds)) in
           if in_int64 v then Some v else None)"

lemma byte_char_of [simp]: "n < 256 \<Longrightarrow> byte (char_of n) = n"
  by (simp add: byte_def)

lemma digits_value_append:
  "digits_value acc (s @ [c]) = 10 * digits_value acc s + (byte c - 48)"
  by (induction s arbitrary: acc) auto

lemma digits_digits: "digits_value 0 (digits n) = n \<and> list_all digit (digits n) \<and> digits n \<noteq> ''''"
proof (induction n rule: less_induct)
  case (less n)
  show ?case
  proof (cases "n < 10")
    case True
    then have "digits n = [char_of (48 + n)]" by (subst digits.simps) simp
    with True show ?thesis by (simp add: digit_def between_def)
  next
    case False
    then have d: "digits n = digits (n div 10) @ [char_of (48 + n mod 10)]"
      by (subst digits.simps) simp
    have "digit (char_of (48 + n mod 10))" "byte (char_of (48 + n mod 10)) = 48 + n mod 10"
      using mod_less_divisor [of 10 n] by (simp_all add: digit_def between_def)
    with less.IH [of "n div 10"] False show ?thesis
      unfolding d by (simp add: digits_value_append)
  qed
qed

lemma digits_no_sign: "\<not> prefix ''-'' (digits n) \<and> \<not> prefix ''+'' (digits n)"
proof -
  obtain c cs where "digits n = c # cs" "digit c"
    using digits_digits [of n] by (cases "digits n") auto
  then show ?thesis by (auto simp: digit_def between_def byte_def)
qed

lemma ParseInt_FormatInt:
  assumes "in_int64 i"
  shows "ParseInt (FormatInt i) = Some i"
proof (cases "i < 0")
  case True
  then show ?thesis
    using digits_digits [of "nat (- i)"] assms by (simp add: ParseInt_def FormatInt_def Let_def)
next
  case False
  then show ?thesis
    using digits_digits [of "nat i"] digits_no_sign [of "nat i"] assms
    by (simp add: ParseInt_def FormatInt_def Let_def)
qed

section \<open>Trimming visible text\<close>

definition visible :: "char \<Rightarrow> bool" where
  "visible c \<longleftrightarrow> 32 < byte c \<and> byte c < 128"

lemma space_encodings_bytes:
  "list_all (\<lambda>p. p \<noteq> [] \<and> \<not> visible (hd p) \<and> \<not> visible (last p)) space_encodings"
  by (simp add: space_encodings_def visible_def upt_rec)

lemma trim_left_stop:
  assumes "list_all (\<lambda>p. \<not> visible (hd p)) sp" and "visible c"
  shows "trim_left sp (c # s) = c # s"
proof -
  have "List.find (\<lambda>p. p \<noteq> [] \<and> prefix p (c # s)) sp = None"
    using assms by (auto simp: find_None_iff list_all_iff neq_Nil_conv)
  then show ?thesis by (simp add: trim_left.simps)
qed

lemma TrimSpace_visible:
  assumes "s \<noteq> []" and "visible (hd s)" and "visible (last s)"
  shows "TrimSpace s = s"
proof -
  have l: "list_all (\<lambda>p. \<not> visible (hd p)) space_encodings"
    and r: "list_all (\<lambda>p. \<not> visible (hd p)) (map rev space_encodings)"
    using space_encodings_bytes by (auto simp: list_all_iff hd_rev)
  have "trim_left space_encodings s = s"
    using trim_left_stop [OF l assms(2), of "tl s"] assms(1) by simp
  moreover have "trim_left (map rev space_encodings) (rev s) = rev s"
    using trim_left_stop [OF r assms(3), of "tl (rev s)"] assms(1)
    by (metis hd_rev list.collapse rev_is_Nil_conv)
  ultimately show ?thesis by (simp add: TrimSpace_def)
qed

end
