(* ===== verification/Config.thy ===== *)
theory Config
  imports Prelude
begin

text \<open>
  The typed configuration, \<open>internal/config/install.go\<close> and \<open>internal/config/runtime.go\<close>: the
  service's own blocks. Of the base structs of the server framework they embed, only the product name is
  read by code of the repository; the rest is left out.
\<close>

record DatabasePool =
  dp_MaxConns :: int
  dp_MinConns :: int
  dp_MaxConnLifetime :: duration
  dp_ConnectTimeout :: duration

record DatabaseConfig =
  dbc_URL :: string
  dbc_Pool :: DatabasePool
  dbc_EnableMigrationsAutoRun :: bool
  dbc_MigrationsAdvisoryLockKey :: int

record MinIOConfig =
  mc_Endpoint :: string
  mc_AccessKey :: string
  mc_SecretKey :: string
  mc_Region :: string
  mc_Bucket :: string
  mc_UseSSL :: bool
  mc_LocalTmpDir :: string

record SignalCliTCP =
  tcp_Host :: string
  tcp_Port :: int
  tcp_WaitResultTimeout :: duration
  tcp_IgnoreResults :: bool

record SignalCliHTTP =
  http_Host :: string
  http_Port :: int
  http_Timeout :: duration
  http_MaxRetries :: int

record SignalCliConfig =
  scc_TCP :: SignalCliTCP
  scc_HTTP :: SignalCliHTTP
  scc_SenderPhoneNumber :: string
  scc_EnableListening :: bool

record WorkerConfig =
  wc_PollInterval :: duration
  wc_LeaseDuration :: duration
  wc_PerAttemptTimeout :: duration
  wc_Concurrency :: int
  wc_BaseBackoff :: duration
  wc_MaxBackoff :: duration

record CleanupOldFilesConfig =
  cof_Enabled :: bool
  cof_Schedule :: string
  cof_Directories :: "string list"
  cof_FileTTL :: duration

record TimeoutReaperConfig =
  trc_Enabled :: bool
  trc_Schedule :: string

record CronConfig =
  cron_CleanupOldFiles :: CleanupOldFilesConfig
  cron_TimeoutReaper :: TimeoutReaperConfig

record Install =
  inst_ProductName :: string
  inst_Database :: DatabaseConfig
  inst_MinIO :: MinIOConfig
  inst_SignalCli :: SignalCliConfig
  inst_Worker :: WorkerConfig
  inst_Cron :: CronConfig

record WorkerRuntimeConfig =
  wrc_PollInterval :: duration
  wrc_MaxAttempts :: int

record SignalCliRuntime =
  scr_EnableListening :: bool

record InboundIgnoreConfig =
  ig_Typing :: bool
  ig_Receipt :: bool
  ig_SyncMessage :: bool
  ig_CallMessage :: bool

record InboundConfig =
  inb_Ignore :: InboundIgnoreConfig

record SlackNotifyOn =
  sno_PermanentFailure :: bool
  sno_AttachmentError :: bool

record SlackConfig =
  slk_Enabled :: bool
  slk_WebhookURL :: string
  slk_ChannelIDs :: "string list"
  slk_NotifyOn :: SlackNotifyOn

record RuntimeConfig =
  rtc_Worker :: WorkerRuntimeConfig
  rtc_SignalCli :: SignalCliRuntime
  rtc_Inbound :: InboundConfig
  rtc_Slack :: SlackConfig

end
