(* ===== verification/Storage.thy ===== *)
theory Storage
  imports GoStrings Config
begin

text \<open>
  The attachment store, \<open>internal/storage/object_store.go\<close>, and the local file system it downloads to.
  Objects are a list of \<open>((bucket, key), body)\<close> entries, the file system a list of paths with their
  nodes, newest binding first. The object store server and the operating system answer each call:
  \<open>None\<close> is success, \<open>Some e\<close> an error. A failed copy leaves the bytes written before the error, which
  the answer carries.
\<close>

section \<open>Objects and files\<close>

type_synonym objects = "((string \<times> string) \<times> string) list"

definition put_object :: "string \<Rightarrow> string \<Rightarrow> string \<Rightarrow> objects \<Rightarrow> objects" where
  "put_object bucket key body objs =
     ((bucket, key), body) # filter (\<lambda>(k, _). k \<noteq> (bucket, key)) objs"

definition remove_object :: "string \<Rightarrow> string \<Rightarrow> objects \<Rightarrow> objects" where
  "remove_object bucket key objs = filter (\<lambda>(k, _). k \<noteq> (bucket, key)) objs"

datatype node = DirNode | FileNode string gotime

type_synonym fs = "(string \<times> node) list"

definition fs_write :: "string \<Rightarrow> node \<Rightarrow> fs \<Rightarrow> fs" where
  "fs_write p n f = (p, n) # filter (\<lambda>(q, _). q \<noteq> p) f"

definition fs_delete :: "string \<Rightarrow> fs \<Rightarrow> fs" where
  "fs_delete p f = filter (\<lambda>(q, _). q \<noteq> p) f"

definition under :: "string \<Rightarrow> string \<Rightarrow> bool" where
  "under dir p \<longleftrightarrow> prefix (dir @ ''/'') p"

definition fs_empty_dir :: "string \<Rightarrow> fs \<Rightarrow> bool" where
  "fs_empty_dir dir f \<longleftrightarrow> list_all (\<lambda>(q, _). \<not> under dir q) f"

text \<open>\<open>os.MkdirAll\<close>, \<open>os.Remove\<close> and \<open>os.RemoveAll\<close> with the answer of the operating system. \<open>os.Remove\<close>
  of a directory that is not empty fails whatever the answer.\<close>

fun path_prefixes :: "string \<Rightarrow> string list \<Rightarrow> string list" where
  "path_prefixes acc [] = []"
| "path_prefixes acc (w # ws) = (acc @ w) # path_prefixes (acc @ w @ ''/'') ws"

definition os_MkdirAll :: "goerr option \<Rightarrow> string \<Rightarrow> fs \<Rightarrow> goerr option \<times> fs" where
  "os_MkdirAll ans dir f = (case ans of
     Some e \<Rightarrow> (Some e, f)
   | None \<Rightarrow> (None, fold (\<lambda>p g. if p = '''' \<or> map_of g p \<noteq> None then g else fs_write p DirNode g)
               (path_prefixes '''' (split_on (CHR ''/'') dir)) f))"

datatype remove_result = Removed | NotExist | RemoveFailed goerr

definition os_Remove :: "goerr option \<Rightarrow> string \<Rightarrow> fs \<Rightarrow> remove_result \<times> fs" where
  "os_Remove ans p f = (case map_of f p of
     None \<Rightarrow> (NotExist, f)
   | Some n \<Rightarrow> (case ans of
       Some e \<Rightarrow> (RemoveFailed e, f)
     | None \<Rightarrow> if n = DirNode \<and> \<not> fs_empty_dir p f then (RemoveFailed (Opaque ''directory not empty''), f)
               else (Removed, fs_delete p f)))"

definition os_RemoveAll :: "goerr option \<Rightarrow> string \<Rightarrow> fs \<Rightarrow> goerr option \<times> fs" where
  "os_RemoveAll ans p f = (case ans of
     Some e \<Rightarrow> (Some e, f)
   | None \<Rightarrow> (None, filter (\<lambda>(q, _). q \<noteq> p \<and> \<not> under p q) f))"

section \<open>Uploads\<close>

record ObjectRef =
  or_Bucket :: string
  or_Key :: string

datatype store_answer = Stored | Refused goerr | Stored_but goerr

definition ObjectStore_Put ::
  "MinIOConfig \<Rightarrow> store_answer \<Rightarrow> string \<Rightarrow> string \<Rightarrow> int \<Rightarrow> string \<Rightarrow> objects \<Rightarrow>
     (goerr + string \<times> string) \<times> objects" where
  "ObjectStore_Put cfg ans key body sz contentType objs = (case ans of
     Refused e \<Rightarrow> (Inl (Wrapped ''minio put object'' e), objs)
   | Stored_but e \<Rightarrow>
       (Inl (Wrapped ''minio put object'' e), put_object (mc_Bucket cfg) key body objs)
   | Stored \<Rightarrow> (Inr (mc_Bucket cfg, key), put_object (mc_Bucket cfg) key body objs))"

definition ObjectStore_Remove ::
  "store_answer \<Rightarrow> string \<Rightarrow> string \<Rightarrow> objects \<Rightarrow> goerr option \<times> objects" where
  "ObjectStore_Remove ans bucket key objs = (case ans of
     Refused e \<Rightarrow> (Some (Wrapped ''minio remove object'' e), objs)
   | Stored_but e \<Rightarrow> (Some (Wrapped ''minio remove object'' e), remove_object bucket key objs)
   | Stored \<Rightarrow> (None, remove_object bucket key objs))"

text \<open>\<open>isAlreadyOwned\<close> inspects the error response of the object store: its code and HTTP status.\<close>

record ErrorResponse =
  er_Code :: string
  er_StatusCode :: int

definition isAlreadyOwned :: "ErrorResponse option \<Rightarrow> bool" where
  "isAlreadyOwned resp = (case resp of
     None \<Rightarrow> False
   | Some r \<Rightarrow>
       if er_Code r = ''BucketAlreadyOwnedByYou'' \<or> er_Code r = ''BucketAlreadyExists'' then True
       else er_StatusCode r = 409)"

definition EnsureBucket :: "(goerr \<times> ErrorResponse option) option \<Rightarrow> goerr option" where
  "EnsureBucket ans = (case ans of
     None \<Rightarrow> None
   | Some (err, resp) \<Rightarrow> if isAlreadyOwned resp then None else Some (Wrapped ''make bucket'' err))"

definition EnsureLocalTmpDir :: "MinIOConfig \<Rightarrow> goerr option \<Rightarrow> fs \<Rightarrow> goerr option \<times> fs" where
  "EnsureLocalTmpDir cfg ans f =
     (if mc_LocalTmpDir cfg = '''' then (None, f)
      else case os_MkdirAll ans (mc_LocalTmpDir cfg) f of
             (Some err, f') \<Rightarrow> (Some (Wrapped ''mkdir tmp'' err), f')
           | (None, f') \<Rightarrow> (None, f'))"

section \<open>Downloads\<close>

datatype get_answer =
    Get_failed goerr
  | Open_failed goerr
  | Copy_failed nat goerr
  | Close_failed goerr
  | Got

text \<open>An object that does not exist is reported by the first read of the body, inside \<open>io.Copy\<close>, after
  the destination was created.\<close>

definition downloadOne ::
  "get_answer \<Rightarrow> gotime \<Rightarrow> objects \<Rightarrow> string \<Rightarrow> ObjectRef \<Rightarrow> fs \<Rightarrow> (goerr + string) \<times> fs" where
  "downloadOne ans now objs dir ref f =
     (let dst = filepath_Join [dir, filepath_Base (or_Key ref)];
          body = map_of objs (or_Bucket ref, or_Key ref) in
      case ans of
        Get_failed e \<Rightarrow> (Inl (Wrapped ''minio get object'' e), f)
      | Open_failed e \<Rightarrow> (Inl (Wrapped ''open attachment dst'' e), f)
      | Copy_failed n e \<Rightarrow>
          (Inl (Wrapped ''copy attachment to disk'' e),
           fs_write dst (FileNode (take n (case body of None \<Rightarrow> '''' | Some b \<Rightarrow> b)) now) f)
      | Close_failed e \<Rightarrow>
          (case body of
             None \<Rightarrow> (Inl (Wrapped ''copy attachment to disk'' (Opaque ''NoSuchKey'')),
                      fs_write dst (FileNode '''' now) f)
           | Some b \<Rightarrow> (Inl (Wrapped ''close attachment dst'' e), fs_write dst (FileNode b now) f))
      | Got \<Rightarrow>
          (case body of
             None \<Rightarrow> (Inl (Wrapped ''copy attachment to disk'' (Opaque ''NoSuchKey'')),
                      fs_write dst (FileNode '''' now) f)
           | Some b \<Rightarrow> (Inr dst, fs_write dst (FileNode b now) f)))"

fun remove_paths :: "goerr option list \<Rightarrow> string list \<Rightarrow> fs \<Rightarrow> fs" where
  "remove_paths as [] f = f"
| "remove_paths as (p # ps) f =
     remove_paths (tl as) ps (snd (os_Remove (case as of [] \<Rightarrow> None | a # _ \<Rightarrow> a) p f))"

definition cleanupBestEffort ::
  "goerr option list \<Rightarrow> goerr option \<Rightarrow> string \<Rightarrow> string list \<Rightarrow> fs \<Rightarrow> fs" where
  "cleanupBestEffort as a dir paths f = snd (os_Remove a dir (remove_paths as paths f))"

record download_answers =
  da_mkdir :: "goerr option"
  da_gets :: "get_answer list"
  da_removes :: "goerr option list"
  da_rmdir :: "goerr option"

fun download_loop ::
  "download_answers \<Rightarrow> get_answer list \<Rightarrow> gotime \<Rightarrow> objects \<Rightarrow> string \<Rightarrow> string list \<Rightarrow>
     ObjectRef list \<Rightarrow> fs \<Rightarrow> (goerr + string list) \<times> fs" where
  "download_loop da gs now objs dir paths [] f = (Inr paths, f)"
| "download_loop da gs now objs dir paths (ref # refs) f =
     (case downloadOne (case gs of [] \<Rightarrow> Got | g # _ \<Rightarrow> g) now objs dir ref f of
        (Inl err, f') \<Rightarrow>
          (Inl err, cleanupBestEffort (da_removes da) (da_rmdir da) dir paths f')
      | (Inr path, f') \<Rightarrow>
          download_loop da (tl gs) now objs dir (paths @ [path]) refs f')"

definition ObjectStore_DownloadAll ::
  "MinIOConfig \<Rightarrow> download_answers \<Rightarrow> gotime \<Rightarrow> objects \<Rightarrow> string \<Rightarrow> ObjectRef list \<Rightarrow> fs \<Rightarrow>
     (goerr + string list) \<times> fs" where
  "ObjectStore_DownloadAll cfg da now objs messageID refs f =
     (if refs = [] then (Inr [], f)
      else let dir = filepath_Join [mc_LocalTmpDir cfg, messageID] in
           case os_MkdirAll (da_mkdir da) dir f of
             (Some err, f') \<Rightarrow> (Inl (Wrapped ''mkdir attachments tmp'' err), f')
           | (None, f') \<Rightarrow> download_loop da (da_gets da) now objs dir [] refs f')"

definition ObjectStore_CleanupLocal ::
  "MinIOConfig \<Rightarrow> goerr option \<Rightarrow> string \<Rightarrow> fs \<Rightarrow> fs" where
  "ObjectStore_CleanupLocal cfg ans messageID f =
     (if mc_LocalTmpDir cfg = '''' \<or> messageID = '''' then f
      else snd (os_RemoveAll ans (filepath_Join [mc_LocalTmpDir cfg, messageID]) f))"

section \<open>Lemmas\<close>

lemma map_of_filter_key:
  "map_of (filter (\<lambda>(k, _). P k) xs) q = (if P q then map_of xs q else None)"
  by (induction xs) auto

lemma map_of_fs_write [simp]: "map_of (fs_write p n f) = (map_of f)(p \<mapsto> n)"
  by (rule ext) (simp add: fs_write_def map_of_filter_key)

lemma map_of_fs_delete [simp]: "map_of (fs_delete p f) q = (if q = p then None else map_of f q)"
  by (simp add: fs_delete_def map_of_filter_key)

lemma map_of_put_object [simp]: "map_of (put_object b k x objs) = (map_of objs)((b, k) \<mapsto> x)"
  by (rule ext) (simp add: put_object_def map_of_filter_key)

lemma map_of_remove_object [simp]:
  "map_of (remove_object b k objs) q = (if q = (b, k) then None else map_of objs q)"
  using map_of_filter_key [of "\<lambda>q. q \<noteq> (b, k)" objs q] by (simp add: remove_object_def)

lemma map_of_RemoveAll:
  "map_of (snd (os_RemoveAll None p f)) q = (if q = p \<or> under p q then None else map_of f q)"
  using map_of_filter_key [of "\<lambda>q. q \<noteq> p \<and> \<not> under p q" f q] by (simp add: os_RemoveAll_def)

lemma os_Remove_other: "q \<noteq> p \<Longrightarrow> map_of (snd (os_Remove a p f)) q = map_of f q"
  by (auto simp: os_Remove_def split: option.splits)

lemma under_child [simp]: "under d (d @ ''/'' @ w)"
  by (simp add: under_def)

lemma under_irrefl [simp]: "\<not> under d d"
  using prefix_length_le [of "d @ ''/''" d] by (auto simp: under_def)

text \<open>The local name of a reference.\<close>

definition local_path :: "string \<Rightarrow> ObjectRef \<Rightarrow> string" where
  "local_path dir ref = filepath_Join [dir, filepath_Base (or_Key ref)]"

lemma downloadOne_ok:
  assumes "downloadOne ans now objs dir ref f = (Inr path, f')"
  shows "path = local_path dir ref"
    and "\<exists>b. map_of objs (or_Bucket ref, or_Key ref) = Some b \<and>
           f' = fs_write path (FileNode b now) f"
  using assms
  by (auto simp: downloadOne_def local_path_def Let_def split: get_answer.splits option.splits)

lemma download_loop_ok:
  assumes "download_loop da gs now objs dir paths refs f = (Inr out, f')"
  shows "out = paths @ map (local_path dir) refs \<and>
    (\<forall>p. p \<notin> local_path dir ` set refs \<longrightarrow> map_of f' p = map_of f p) \<and>
    (\<forall>pre ref post. refs = pre @ ref # post \<longrightarrow> local_path dir ref \<notin> local_path dir ` set post \<longrightarrow>
       (\<exists>b. map_of objs (or_Bucket ref, or_Key ref) = Some b \<and>
            map_of f' (local_path dir ref) = Some (FileNode b now)))"
  using assms
proof (induction refs arbitrary: gs paths f)
  case (Cons r refs)
  obtain path f1 where one: "downloadOne (case gs of [] \<Rightarrow> Got | g # _ \<Rightarrow> g) now objs dir r f =
      (Inr path, f1)"
    and rest: "download_loop da (tl gs) now objs dir (paths @ [path]) refs f1 = (Inr out, f')"
    using Cons.prems by (auto split: prod.splits sum.splits)
  note d = downloadOne_ok [OF one]
  note IH = Cons.IH [OF rest]
  have "map_of f' (local_path dir ref) = Some (FileNode b now) \<and>
      map_of objs (or_Bucket ref, or_Key ref) = Some b"
    if "r # refs = pre @ ref # post" "local_path dir ref \<notin> local_path dir ` set post"
      "pre = []" "map_of objs (or_Bucket ref, or_Key ref) = Some b" for pre ref post b
    using that d IH by auto
  then show ?case
    using IH d by (auto simp: Cons_eq_append_conv)
qed simp


definition sample_minio :: MinIOConfig where
  "sample_minio = \<lparr>mc_Endpoint = ''e'', mc_AccessKey = ''a'', mc_SecretKey = ''s'', mc_Region = ''r'',
     mc_Bucket = ''b'', mc_UseSSL = False, mc_LocalTmpDir = ''/tmp''\<rparr>"

definition sample_ref :: ObjectRef where
  "sample_ref = \<lparr>or_Bucket = ''b'', or_Key = ''k/a''\<rparr>"

definition all_got :: download_answers where
  "all_got = \<lparr>da_mkdir = None, da_gets = [], da_removes = [], da_rmdir = None\<rparr>"




end
