(* ===== verification/SendService.thy ===== *)
theory SendService
  imports Repo Storage
begin

text \<open>
  The send-message service, \<open>internal/service/send_message.go\<close> and \<open>internal/service/errors.go\<close>:
  validation, streaming upload of the attachments, roll-back and the insert of the row. The service
  talks to the repository and the object store through the two interfaces it owns; an interface is a
  record of operations on a state \<open>'s\<close> of the outside world, and the service's own code is a function
  of such a state. \<open>time.Now\<close>, \<open>uuid.New\<close> and \<open>UUID.String\<close> come from the record \<open>runtime\<close>. The stream of
  multipart parts is the list of answers \<open>Next\<close> gives, with \<open>io.EOF\<close> after the last.
\<close>

section \<open>Interfaces\<close>

text \<open>A context as the code below reads it: its deadline, if it has one.\<close>

type_synonym ctx = "gotime option"

text \<open>A request as the HTTP clients of the service build it.\<close>

record http_request =
  hq_Method :: string
  hq_URL :: string
  hq_Header :: "(string \<times> string) list"
  hq_Body :: string

record 's runtime =
  rt_Now :: "'s \<Rightarrow> gotime"
  rt_NewUUID :: "'s \<Rightarrow> uuid \<times> 's"
  rt_UUIDString :: "uuid \<Rightarrow> string"

record 's MessageInserter =
  mi_GetByIdempotencyKey :: "ctx \<Rightarrow> string \<Rightarrow> 's \<Rightarrow> (goerr + SignalMessage) \<times> 's"
  mi_Insert :: "ctx \<Rightarrow> RepoInsertParams \<Rightarrow> 's \<Rightarrow> (goerr + SignalMessage) \<times> 's"

record 's AttachmentUploader =
  au_Put :: "ctx \<Rightarrow> string \<Rightarrow> string \<Rightarrow> int \<Rightarrow> string \<Rightarrow> 's \<Rightarrow> (goerr + string \<times> string) \<times> 's"
  au_Remove :: "ctx \<Rightarrow> string \<Rightarrow> string \<Rightarrow> 's \<Rightarrow> goerr option \<times> 's"

record CreateMessage =
  cm_ExternalID :: string
  cm_IdempotencyKey :: "string option"
  cm_Recipient :: "string option"
  cm_GroupID :: "string option"
  cm_SenderPhoneNumber :: "string option"
  cm_Content :: string
  cm_QuoteResultID :: "string option"
  cm_TimeoutSeconds :: "int option"
  cm_MaxAttempts :: "int option"

record AttachmentPart =
  ap_Filename :: string
  ap_ContentType :: string
  ap_Body :: string

type_synonym AttachmentParts = "(goerr + AttachmentPart) list option"

record EnqueueResult =
  eq_ID :: uuid
  eq_Idempotent :: bool

record 's SendMessageService =
  sv_repo :: "'s MessageInserter"
  sv_store :: "'s AttachmentUploader"
  sv_senderPhone :: string

definition NewSendMessageService ::
  "'s MessageInserter \<Rightarrow> 's AttachmentUploader \<Rightarrow> Install \<Rightarrow> 's SendMessageService" where
  "NewSendMessageService r store install =
     \<lparr>sv_repo = r, sv_store = store, sv_senderPhone = scc_SenderPhoneNumber (inst_SignalCli install)\<rparr>"

section \<open>Errors\<close>

definition invalid :: "string \<Rightarrow> string \<Rightarrow> goerr" where
  "invalid field reason =
     Conj (InvalidSignalMessage field reason) (Opaque ''invalid signal message'')"

definition senderMismatch :: "string \<Rightarrow> string \<Rightarrow> goerr" where
  "senderMismatch configured requested =
     Conj (SenderMismatch configured requested)
       (Opaque ''sender phone number does not match configured'')"

definition attachmentUploadFailed :: "string \<Rightarrow> goerr \<Rightarrow> goerr" where
  "attachmentUploadFailed filename cause =
     Conj (AttachmentUploadFailed filename) (Wrapped ''attachment upload failed'' cause)"

section \<open>Validation\<close>

definition is_set :: "string option \<Rightarrow> bool" where
  "is_set v = (case v of None \<Rightarrow> False | Some s \<Rightarrow> s \<noteq> '''')"

definition le_sign :: string where
  "le_sign = map char_of [0xE2, 0x89, 0xA4 :: nat]"

definition validate :: "'s SendMessageService \<Rightarrow> CreateMessage \<Rightarrow> goerr option" where
  "validate s m =
     (if TrimSpace (cm_ExternalID m) = '''' then Some (invalid ''externalId'' ''must not be empty'')
      else if length (cm_ExternalID m) > 255
        then Some (invalid ''externalId'' (''must be '' @ le_sign @ '' 255 chars''))
      else if TrimSpace (cm_Content m) = '''' then Some (invalid ''content'' ''must not be empty'')
      else if is_set (cm_Recipient m) = is_set (cm_GroupID m)
        then Some (invalid ''recipient|groupId'' ''exactly one of recipient or groupId must be set'')
      else case cm_SenderPhoneNumber m of
             None \<Rightarrow> None
           | Some p \<Rightarrow> if p \<noteq> '''' \<and> p \<noteq> sv_senderPhone s
                       then Some (senderMismatch (sv_senderPhone s) p) else None)"

section \<open>File names\<close>

definition filename_char :: "char \<Rightarrow> bool" where
  "filename_char c \<longleftrightarrow>
     between 65 90 c \<or> between 97 122 c \<or> between 48 57 c \<or>
     c = CHR ''.'' \<or> c = CHR ''_'' \<or> c = CHR ''-''"

text \<open>The replacement of every match of \<open>[^A-Za-z0-9._-]\<close>: one \<open>_\<close> per rune outside the class.\<close>

definition replace_disallowed :: "string \<Rightarrow> string" where
  "replace_disallowed s =
     concat (map (\<lambda>r. case r of [c] \<Rightarrow> if filename_char c then [c] else ''_'' | _ \<Rightarrow> ''_'') (runes s))"

definition sanitizeFilename :: "string \<Rightarrow> string" where
  "sanitizeFilename raw =
     (let base = filepath_Base raw in
      if base = '''' \<or> base = ''.'' \<or> base = ''/'' then ''''
      else let cleaned = replace_disallowed base in
           if cleaned = '''' \<or> prefix ''.'' cleaned then '''' else cleaned)"

section \<open>Uploads\<close>

fun rollback :: "'s SendMessageService \<Rightarrow> ctx \<Rightarrow> Attachments \<Rightarrow> 's \<Rightarrow> 's" where
  "rollback s ctx [] w = w"
| "rollback s ctx (ref # refs) w =
     rollback s ctx refs (snd (au_Remove (sv_store s) ctx (att_Bucket ref) (att_Filename ref) w))"

fun upload_loop ::
  "'s runtime \<Rightarrow> 's SendMessageService \<Rightarrow> ctx \<Rightarrow> uuid \<Rightarrow> Attachments \<Rightarrow>
     (goerr + AttachmentPart) list \<Rightarrow> 's \<Rightarrow> (goerr + Attachments) \<times> 's" where
  "upload_loop rt s ctx i atts [] w = (Inr atts, w)"
| "upload_loop rt s ctx i atts (Inl err # parts) w =
     (if errors_Is err EOF then (Inr atts, w)
      else (Inl (attachmentUploadFailed '''' err), rollback s ctx atts w))"
| "upload_loop rt s ctx i atts (Inr part # parts) w =
     (let filename = sanitizeFilename (ap_Filename part) in
      if filename = '''' then
        (Inl (invalid ''attachments'' ''rejected attachment with empty filename''),
         rollback s ctx atts w)
      else
        let key = rt_UUIDString rt i @ ''/'' @ filename in
        case au_Put (sv_store s) ctx key (ap_Body part) (- 1) (ap_ContentType part) w of
          (Inl err, w') \<Rightarrow>
            (Inl (attachmentUploadFailed filename err), rollback s ctx atts w')
        | (Inr (bucket, storedKey), w') \<Rightarrow>
            upload_loop rt s ctx i
              (atts @ [\<lparr>att_Bucket = bucket, att_Filename = storedKey,
                 att_MimeType = ap_ContentType part, att_Size = 0\<rparr>]) parts w')"

definition uploadAll ::
  "'s runtime \<Rightarrow> 's SendMessageService \<Rightarrow> ctx \<Rightarrow> uuid \<Rightarrow> AttachmentParts \<Rightarrow> 's \<Rightarrow>
     (goerr + Attachments) \<times> 's" where
  "uploadAll rt s ctx i parts w = (case parts of
     None \<Rightarrow> (Inr [], w)
   | Some ps \<Rightarrow> upload_loop rt s ctx i [] ps w)"

section \<open>Enqueue\<close>

definition correlationFromCtx :: "'s runtime \<Rightarrow> ctx \<Rightarrow> uuid \<Rightarrow> string" where
  "correlationFromCtx rt ctx i = rt_UUIDString rt i"

definition max_attempts_of :: "CreateMessage \<Rightarrow> int" where
  "max_attempts_of m = (case cm_MaxAttempts m of
     None \<Rightarrow> 5 | Some n \<Rightarrow> if n > 0 then int32 n else 5)"

definition timeout_of :: "gotime \<Rightarrow> CreateMessage \<Rightarrow> gotime option" where
  "timeout_of now m = (case cm_TimeoutSeconds m of
     None \<Rightarrow> None | Some n \<Rightarrow> if n > 0 then Some (now + int64 (n * Second)) else None)"

definition insert_params ::
  "'s runtime \<Rightarrow> 's SendMessageService \<Rightarrow> ctx \<Rightarrow> uuid \<Rightarrow> gotime \<Rightarrow> CreateMessage \<Rightarrow> Attachments \<Rightarrow>
     RepoInsertParams" where
  "insert_params rt s ctx i now m atts = \<lparr>
     rip_ExternalID = cm_ExternalID m,
     rip_IdempotencyKey = cm_IdempotencyKey m,
     rip_Recipient = cm_Recipient m,
     rip_GroupID = cm_GroupID m,
     rip_SenderPhoneNumber = sv_senderPhone s,
     rip_Content = cm_Content m,
     rip_Attachments = atts,
     rip_MaxAttempts = max_attempts_of m,
     rip_TimeoutAt = timeout_of now m,
     rip_CorrelationID = correlationFromCtx rt ctx i\<rparr>"

definition create_row ::
  "'s runtime \<Rightarrow> 's SendMessageService \<Rightarrow> ctx \<Rightarrow> CreateMessage \<Rightarrow> AttachmentParts \<Rightarrow> 's \<Rightarrow>
     (goerr + EnqueueResult) \<times> 's" where
  "create_row rt s ctx m parts w =
     (let (i, w1) = rt_NewUUID rt w in
      case uploadAll rt s ctx i parts w1 of
        (Inl err, w2) \<Rightarrow> (Inl err, w2)
      | (Inr atts, w2) \<Rightarrow>
          (case mi_Insert (sv_repo s) ctx
                  (insert_params rt s ctx i (rt_Now rt w2) m atts) w2 of
             (Inl err, w3) \<Rightarrow> (Inl err, rollback s ctx atts w3)
           | (Inr row, w3) \<Rightarrow> (Inr \<lparr>eq_ID = sm_ID row, eq_Idempotent = False\<rparr>, w3)))"

definition Enqueue ::
  "'s runtime \<Rightarrow> 's SendMessageService \<Rightarrow> ctx \<Rightarrow> CreateMessage \<Rightarrow> AttachmentParts \<Rightarrow> 's \<Rightarrow>
     (goerr + EnqueueResult) \<times> 's" where
  "Enqueue rt s ctx m parts w = (case validate s m of
     Some err \<Rightarrow> (Inl err, w)
   | None \<Rightarrow>
       if is_set (cm_IdempotencyKey m) then
         (case mi_GetByIdempotencyKey (sv_repo s) ctx (the (cm_IdempotencyKey m)) w of
            (Inr existing, w') \<Rightarrow> (Inr \<lparr>eq_ID = sm_ID existing, eq_Idempotent = True\<rparr>, w')
          | (Inl err, w') \<Rightarrow>
              if errors_Is err ErrNotFound then create_row rt s ctx m parts w'
              else (Inl (Wrapped ''idempotency lookup'' err), w'))
       else create_row rt s ctx m parts w)"

section \<open>Lemmas\<close>

lemma filename_char_ascii: "filename_char c \<Longrightarrow> byte c < 0x80"
  by (auto simp: filename_char_def between_def byte_def)

lemma replace_disallowed_chars: "list_all filename_char (replace_disallowed s)"
proof -
  have "filename_char (CHR ''_'')" by (simp add: filename_char_def)
  then show ?thesis
    by (auto simp: replace_disallowed_def list_all_iff split: list.splits if_splits)
qed

lemma replace_disallowed_id: "list_all filename_char s \<Longrightarrow> replace_disallowed s = s"
proof -
  assume s: "list_all filename_char s"
  then have "runes s = map (\<lambda>c. [c]) s"
    by (intro runes_ascii) (auto simp: list_all_iff filename_char_ascii)
  moreover have "concat (map (\<lambda>c. if filename_char c then [c] else ''_'') s) = s"
    using s by (induction s) auto
  ultimately show ?thesis
    by (simp add: replace_disallowed_def comp_def)
qed

lemma slash_not_filename: "\<not> filename_char (CHR ''/'')"
  by (simp add: filename_char_def between_def byte_def)

lemma sanitized_plain:
  assumes "sanitizeFilename raw \<noteq> ''''"
  shows "plain (sanitizeFilename raw)" and "list_all filename_char (sanitizeFilename raw)"
proof -
  define c where "c = sanitizeFilename raw"
  have c: "c = replace_disallowed (filepath_Base raw)" "\<not> prefix ''.'' c" "c \<noteq> ''''"
    using assms by (auto simp: c_def sanitizeFilename_def Let_def split: if_splits)
  show chars: "list_all filename_char (sanitizeFilename raw)"
    using replace_disallowed_chars c(1) by (simp flip: c_def)
  then have "CHR ''/'' \<notin> set c"
    using slash_not_filename unfolding c_def by (auto simp: list_all_iff)
  with c(2,3) show "plain (sanitizeFilename raw)"
    unfolding plain_def c_def [symmetric] by auto
qed

text \<open>C32. A sanitised attachment name is empty (and then refused) or a plain file name over
  letters, digits, dot, underscore and dash that does not start with a dot; sanitising it again changes
  nothing, and it is the base name of the object key built from it.\<close>

theorem sanitizeFilename_safe:
  "let name = sanitizeFilename raw in
     (name \<noteq> '''' \<longrightarrow> plain name \<and> list_all filename_char name \<and> \<not> prefix ''.'' name \<and>
        sanitizeFilename name = name \<and> filepath_Base (i @ ''/'' @ name) = name)"
proof -
  define c where "c = sanitizeFilename raw"
  have "sanitizeFilename c = c \<and> \<not> prefix ''.'' c \<and> filepath_Base (i @ ''/'' @ c) = c" if "c \<noteq> ''''"
  proof -
    note p = sanitized_plain [OF that [unfolded c_def], folded c_def]
    have b: "filepath_Base c = c" "filepath_Base (i @ ''/'' @ c) = c"
      using filepath_Base_last [of c] p(1) by (simp_all add: plain_def)
    have "\<not> prefix ''.'' c"
      using that by (auto simp: c_def sanitizeFilename_def Let_def split: if_splits)
    moreover have "c \<noteq> ''/''"
      using p(1) by (auto simp: plain_def)
    ultimately show ?thesis
      using b p that by (simp add: sanitizeFilename_def [of c] replace_disallowed_id plain_def Let_def)
  qed
  then show ?thesis
    using sanitized_plain [of raw] by (simp add: Let_def flip: c_def)
qed

theorem sanitizeFilename_safe_witness:
  "sanitizeFilename ''../x/my file.pdf'' = ''my_file.pdf'' \<and> plain (sanitizeFilename ''../x/my file.pdf'')"
proof -
  have "sanitizeFilename ''../x/my file.pdf'' = ''my_file.pdf''"
    by code_simp
  then show ?thesis
    using sanitizeFilename_safe [of "''../x/my file.pdf''" "''id''"] by (simp add: Let_def)
qed

section \<open>What the service relies on\<close>

text \<open>
  The contract of the two ports. \<open>tbl\<close> and \<open>objs\<close> read the message table and the object store off the
  state; \<open>calm\<close> holds of a state in which the store and the driver do what they report (no write that
  succeeds and is reported as failed, no lookup that fails and is reported as a miss) and removals
  succeed.
\<close>

definition att_key :: "Attachment \<Rightarrow> string \<times> string" where
  "att_key a = (att_Bucket a, att_Filename a)"

locale send_ports =
  fixes rt :: "'s runtime" and svc :: "'s SendMessageService" and bucket :: string
    and tbl :: "'s \<Rightarrow> table" and objs :: "'s \<Rightarrow> objects" and calm :: "'s \<Rightarrow> bool"
  assumes new_uuid: "rt_NewUUID rt w = (i, w') \<Longrightarrow> tbl w' = tbl w \<and> objs w' = objs w \<and> (calm w \<longrightarrow> calm w')"
    and lookup_state: "mi_GetByIdempotencyKey (sv_repo svc) c k w = (x, w') \<Longrightarrow>
      tbl w' = tbl w \<and> objs w' = objs w \<and> (calm w \<longrightarrow> calm w') \<and>
      fst (rt_NewUUID rt w') = fst (rt_NewUUID rt w)"
    and lookup_hit: "mi_GetByIdempotencyKey (sv_repo svc) c k w = (Inr m, w') \<Longrightarrow>
      \<exists>r \<in> set (tbl w). idempotency_key r = Some k \<and> m = row_message r"
    and lookup_calm: "calm w \<Longrightarrow> table_ok (tbl w) \<Longrightarrow> r \<in> set (tbl w) \<Longrightarrow> idempotency_key r = Some k \<Longrightarrow>
      fst (mi_GetByIdempotencyKey (sv_repo svc) c k w) = Inr (row_message r) \<or>
      (\<exists>e. fst (mi_GetByIdempotencyKey (sv_repo svc) c k w) = Inl e \<and> \<not> errors_Is e ErrNotFound)"
    and insert_state: "mi_Insert (sv_repo svc) c p w = (x, w') \<Longrightarrow>
      objs w' = objs w \<and> (calm w \<longrightarrow> calm w')"
    and insert_ok: "mi_Insert (sv_repo svc) c p w = (Inr m, w') \<Longrightarrow>
      \<exists>g n. tbl w' = tbl w @ [new_row g n (sqlc_insert_params p)] \<and>
            m = row_message (new_row g n (sqlc_insert_params p)) \<and>
            (table_ok (tbl w) \<longrightarrow> table_ok (tbl w'))"
    and insert_err: "mi_Insert (sv_repo svc) c p w = (Inl e, w') \<Longrightarrow> calm w \<Longrightarrow> tbl w' = tbl w"
    and put_ok: "au_Put (sv_store svc) c k body n ct w = (Inr (b, k'), w') \<Longrightarrow>
      b = bucket \<and> k' = k \<and> tbl w' = tbl w \<and> (calm w \<longrightarrow> calm w') \<and>
      map_of (objs w') = (map_of (objs w))((bucket, k) \<mapsto> body)"
    and put_err: "au_Put (sv_store svc) c k body n ct w = (Inl e, w') \<Longrightarrow>
      tbl w' = tbl w \<and> (calm w \<longrightarrow> calm w' \<and> map_of (objs w') = map_of (objs w))"
    and remove_state: "au_Remove (sv_store svc) c b k w = (y, w') \<Longrightarrow>
      tbl w' = tbl w \<and> (calm w \<longrightarrow> calm w' \<and> map_of (objs w') = (map_of (objs w))((b, k) := None))"
begin

lemma rollback_tbl: "tbl (rollback svc c refs w) = tbl w"
  by (induction refs arbitrary: w) (simp, metis remove_state rollback.simps(2) surjective_pairing)

lemma rollback_calm:
  assumes "calm w"
  shows "map_of (objs (rollback svc c refs w)) q =
    (if q \<in> att_key ` set refs then None else map_of (objs w) q)"
  using assms
proof (induction refs arbitrary: w)
  case (Cons r refs)
  obtain x w' where rm: "au_Remove (sv_store svc) c (att_Bucket r) (att_Filename r) w = (x, w')"
    by (meson surj_pair)
  from remove_state [OF rm] Cons.prems have "calm w'"
    and "map_of (objs w') = (map_of (objs w))(att_key r := None)"
    by (simp_all add: att_key_def)
  with Cons.IH [of w'] rm show ?case by auto
qed simp

lemma upload_step:
  assumes "au_Put (sv_store svc) c (rt_UUIDString rt i @ ''/'' @ sanitizeFilename nm) body n ct w =
      (Inr (b, k'), w')"
    and "sanitizeFilename nm \<noteq> ''''"
  shows "b = bucket" and "k' = rt_UUIDString rt i @ ''/'' @ sanitizeFilename nm"
    and "plain (filepath_Base k')" and "tbl w' = tbl w" and "calm w \<longrightarrow> calm w'"
    and "map_of (objs w') = (map_of (objs w))((b, k') \<mapsto> body)"
proof -
  note p = put_ok [OF assms(1)]
  have "plain (sanitizeFilename nm)" using assms(2) by (rule sanitized_plain)
  then have "filepath_Base (rt_UUIDString rt i @ ''/'' @ sanitizeFilename nm) = sanitizeFilename nm"
    by (intro filepath_Base_last) (simp_all add: plain_def)
  then show "plain (filepath_Base k')"
    using p \<open>plain (sanitizeFilename nm)\<close> by simp
qed (use put_ok [OF assms(1)] in auto)

lemma upload_loop_ok:
  assumes "upload_loop rt svc c i atts ps w = (Inr out, w')"
    and "\<forall>a \<in> set atts. map_of (objs w) (att_key a) \<noteq> None \<and> plain (filepath_Base (att_Filename a))"
  shows "tbl w' = tbl w \<and> (calm w \<longrightarrow> calm w') \<and>
    (\<forall>a \<in> set out. map_of (objs w') (att_key a) \<noteq> None \<and> plain (filepath_Base (att_Filename a)))"
  using assms
proof (induction ps arbitrary: atts w)
  case (Cons p ps)
  show ?case
  proof (cases p)
    case (Inl err)
    with Cons.prems show ?thesis by (auto split: if_splits)
  next
    case (Inr part)
    let ?fn = "sanitizeFilename (ap_Filename part)"
    from Cons.prems(1) Inr obtain b k' w1 where ne: "?fn \<noteq> ''''"
      and put: "au_Put (sv_store svc) c (rt_UUIDString rt i @ ''/'' @ ?fn) (ap_Body part) (- 1)
        (ap_ContentType part) w = (Inr (b, k'), w1)"
      and rest: "upload_loop rt svc c i (atts @ [\<lparr>att_Bucket = b, att_Filename = k',
        att_MimeType = ap_ContentType part, att_Size = 0\<rparr>]) ps w1 = (Inr out, w')"
      by (auto simp: Let_def split: if_splits prod.splits sum.splits)
    note st = upload_step [OF put ne]
    have "tbl w' = tbl w1 \<and> (calm w1 \<longrightarrow> calm w') \<and>
        (\<forall>a \<in> set out. map_of (objs w') (att_key a) \<noteq> None \<and> plain (filepath_Base (att_Filename a)))"
      using Cons.prems(2) st(3,6) by (intro Cons.IH [OF rest]) (auto simp: att_key_def)
    with st(4,5) show ?thesis by auto
  qed
qed simp

text \<open>Undoing: a failed upload leaves the object store as it was before the first part, except that
  the keys it wrote are absent.\<close>

definition own_keys :: "uuid \<Rightarrow> (string \<times> string) set" where
  "own_keys i = {q. fst q = bucket \<and> prefix (rt_UUIDString rt i @ ''/'') (snd q)}"

lemma upload_loop_keys:
  assumes "upload_loop rt svc c i atts ps w = (x, w')" and "calm w"
    and "att_key ` set atts \<subseteq> own_keys i"
    and "\<forall>q. q \<notin> att_key ` set atts \<longrightarrow> map_of (objs w) q = M q"
    and "\<forall>q \<in> own_keys i. M q = None"
  shows "case x of
      Inl e \<Rightarrow> tbl w' = tbl w \<and> map_of (objs w') = M
    | Inr out \<Rightarrow> att_key ` set out \<subseteq> own_keys i \<and> calm w' \<and>
        (\<forall>q. q \<notin> att_key ` set out \<longrightarrow> map_of (objs w') q = M q)"
  using assms
proof (induction ps arbitrary: atts w)
  case (Cons p ps)
  have undo: "map_of (objs (rollback svc c atts v)) = M"
    if "calm v" "map_of (objs v) = map_of (objs w)" for v
    using that Cons.prems(3-5) by (auto simp: rollback_calm fun_eq_iff)
  show ?case
  proof (cases p)
    case (Inl err)
    with Cons.prems undo [of w] show ?thesis
      by (auto simp: rollback_tbl split: if_splits)
  next
    case (Inr part)
    let ?fn = "sanitizeFilename (ap_Filename part)"
    let ?key = "rt_UUIDString rt i @ ''/'' @ ?fn"
    show ?thesis
    proof (cases "?fn = ''''")
      case True
      with Cons.prems Inr undo [of w] show ?thesis
        by (auto simp: Let_def rollback_tbl)
    next
      case ne: False
      obtain y w1 where put: "au_Put (sv_store svc) c ?key (ap_Body part) (- 1)
          (ap_ContentType part) w = (y, w1)"
        by (meson surj_pair)
      show ?thesis
      proof (cases y)
        case (Inl err)
        then have put': "au_Put (sv_store svc) c ?key (ap_Body part) (- 1)
          (ap_ContentType part) w = (Inl err, w1)" using put by simp
        from put_err [OF put'] Cons.prems Inr ne put' undo [of w1] show ?thesis
          by (auto simp: Let_def rollback_tbl)
      next
        case (Inr bk)
        then obtain b k' where put': "au_Put (sv_store svc) c ?key (ap_Body part) (- 1)
          (ap_ContentType part) w = (Inr (b, k'), w1)" using put by (cases bk) simp
        note st = upload_step [OF put' ne]
        let ?a = "\<lparr>att_Bucket = b, att_Filename = k', att_MimeType = ap_ContentType part, att_Size = 0\<rparr>"
        have rest: "upload_loop rt svc c i (atts @ [?a]) ps w1 = (x, w')"
          using Cons.prems(1) \<open>p = Inr part\<close> ne put' by (simp add: Let_def)
        have own: "att_key ?a \<in> own_keys i"
          using st(1,2) by (simp add: att_key_def own_keys_def)
        have "case x of Inl e \<Rightarrow> tbl w' = tbl w1 \<and> map_of (objs w') = M
          | Inr out \<Rightarrow> att_key ` set out \<subseteq> own_keys i \<and> calm w' \<and>
              (\<forall>q. q \<notin> att_key ` set out \<longrightarrow> map_of (objs w') q = M q)"
          using Cons.prems(2-5) st own
          by (intro Cons.IH [OF rest]) (auto simp: att_key_def)
        with st(4) show ?thesis by (auto split: sum.splits)
      qed
    qed
  qed
qed (use assms in auto)

end

context send_ports
begin

lemma create_row_failure:
  assumes "create_row rt svc c m parts w = (Inl e, w')" and "calm w"
    and "\<forall>q \<in> own_keys (fst (rt_NewUUID rt w)). map_of (objs w) q = None"
  shows "tbl w' = tbl w \<and> map_of (objs w') = map_of (objs w)"
proof -
  obtain i w1 where u: "rt_NewUUID rt w = (i, w1)" by (meson surj_pair)
  note u1 = new_uuid [OF u]
  obtain x w2 where up: "uploadAll rt svc c i parts w1 = (x, w2)" by (meson surj_pair)
  have keys: "case x of Inl e \<Rightarrow> tbl w2 = tbl w1 \<and> map_of (objs w2) = map_of (objs w)
      | Inr out \<Rightarrow> att_key ` set out \<subseteq> own_keys i \<and> calm w2 \<and>
          (\<forall>q. q \<notin> att_key ` set out \<longrightarrow> map_of (objs w2) q = map_of (objs w) q)"
  proof (cases parts)
    case None
    then show ?thesis using up u1 assms(2) by (auto simp: uploadAll_def)
  next
    case (Some ps)
    then have "upload_loop rt svc c i [] ps w1 = (x, w2)" using up by (simp add: uploadAll_def)
    from upload_loop_keys [OF this, of "map_of (objs w)"] show ?thesis
      using u u1 assms(2,3) by simp
  qed
  show ?thesis
  proof (cases x)
    case (Inl e')
    then show ?thesis using keys assms(1) u u1 up by (simp add: create_row_def)
  next
    case (Inr out)
    obtain y w3 where ins: "mi_Insert (sv_repo svc) c
        (insert_params rt svc c i (rt_Now rt w2) m out) w2 = (y, w3)" by (meson surj_pair)
    have y: "y = Inl e" "w' = rollback svc c out w3"
      using assms(1) u up Inr ins by (auto simp: create_row_def split: sum.splits)
    have c3: "calm w3" "objs w3 = objs w2" "tbl w3 = tbl w2"
      using insert_state [OF ins] insert_err [of c _ w2 e w3] ins y keys Inr by auto
    have "tbl w2 = tbl w1"
      using up Inr upload_loop_ok [of c i "[]" _ w1 out w2]
      by (auto simp: uploadAll_def split: option.splits)
    moreover have "map_of (objs (rollback svc c out w3)) q = map_of (objs w) q" for q
      using keys Inr c3 assms(3) u by (cases q) (auto simp: rollback_calm)
    ultimately show ?thesis
      using y c3 u1 by (auto simp: rollback_tbl)
  qed
qed

lemma Enqueue_failure:
  assumes "Enqueue rt svc c m parts w = (Inl e, w')" and "calm w"
    and "\<forall>q \<in> own_keys (fst (rt_NewUUID rt w)). map_of (objs w) q = None"
  shows "tbl w' = tbl w \<and> map_of (objs w') = map_of (objs w)"
proof (cases "validate svc m")
  case (Some err)
  then show ?thesis using assms(1) by (simp add: Enqueue_def)
next
  case None
  show ?thesis
  proof (cases "is_set (cm_IdempotencyKey m)")
    case True
    obtain x w1 where l: "mi_GetByIdempotencyKey (sv_repo svc) c (the (cm_IdempotencyKey m)) w = (x, w1)"
      by (meson surj_pair)
    note ls = lookup_state [OF l]
    show ?thesis
    proof (cases x)
      case (Inl err)
      then show ?thesis
        using assms None True l ls create_row_failure [of c m parts w1 e w']
        by (auto simp: Enqueue_def split: if_splits)
    qed (use assms(1) None True l in \<open>simp add: Enqueue_def\<close>)
  next
    case False
    then show ?thesis
      using assms None create_row_failure [of c m parts w e w'] by (simp add: Enqueue_def)
  qed
qed

lemma create_row_success:
  assumes "create_row rt svc c m parts w = (Inr res, w')"
  shows "\<not> eq_Idempotent res \<and> (calm w \<longrightarrow> calm w') \<and> (table_ok (tbl w) \<longrightarrow> table_ok (tbl w')) \<and>
    (\<exists>r. tbl w' = tbl w @ [r] \<and> signal_message_id r = eq_ID res \<and> status r = PENDING \<and>
       attempts r = 0 \<and> external_id r = cm_ExternalID m \<and> idempotency_key r = cm_IdempotencyKey m \<and>
       recipient r = cm_Recipient m \<and> group_id r = cm_GroupID m \<and> content r = cm_Content m \<and>
       sender_phone_number r = sv_senderPhone svc \<and> max_attempts r = max_attempts_of m \<and>
       (\<forall>a \<in> set (attachments r). map_of (objs w') (att_key a) \<noteq> None \<and>
          plain (filepath_Base (att_Filename a))))"
proof -
  obtain i w1 where u: "rt_NewUUID rt w = (i, w1)" by (meson surj_pair)
  note u1 = new_uuid [OF u]
  obtain out w2 w3 row where up: "uploadAll rt svc c i parts w1 = (Inr out, w2)"
    and ins: "mi_Insert (sv_repo svc) c (insert_params rt svc c i (rt_Now rt w2) m out) w2 = (Inr row, w3)"
    and res: "res = \<lparr>eq_ID = sm_ID row, eq_Idempotent = False\<rparr>" and w': "w' = w3"
    using assms u by (auto simp: create_row_def split: prod.splits sum.splits)
  have up': "tbl w2 = tbl w1 \<and> (calm w1 \<longrightarrow> calm w2) \<and> (\<forall>a \<in> set out.
      map_of (objs w2) (att_key a) \<noteq> None \<and> plain (filepath_Base (att_Filename a)))"
  proof (cases parts)
    case None
    then show ?thesis using up by (auto simp: uploadAll_def)
  next
    case (Some ps)
    then have "upload_loop rt svc c i [] ps w1 = (Inr out, w2)" using up by (simp add: uploadAll_def)
    from upload_loop_ok [OF this] show ?thesis by simp
  qed
  from insert_ok [OF ins] obtain g n where g: "tbl w3 = tbl w2 @ [new_row g n
      (sqlc_insert_params (insert_params rt svc c i (rt_Now rt w2) m out))]"
    "row = row_message (new_row g n
      (sqlc_insert_params (insert_params rt svc c i (rt_Now rt w2) m out)))"
    "table_ok (tbl w2) \<longrightarrow> table_ok (tbl w3)" by blast
  show ?thesis
    using u1 up' g insert_state [OF ins] unfolding res w'
    by (simp add: new_row_def sqlc_insert_params_def insert_params_def row_message_def)
qed

lemma Enqueue_success:
  assumes "Enqueue rt svc c m parts w = (Inr res, w')"
  shows "if eq_Idempotent res
    then tbl w' = tbl w \<and> objs w' = objs w \<and> (calm w \<longrightarrow> calm w') \<and>
      (\<exists>r \<in> set (tbl w). idempotency_key r = cm_IdempotencyKey m \<and> signal_message_id r = eq_ID res)
    else (calm w \<longrightarrow> calm w') \<and> (table_ok (tbl w) \<longrightarrow> table_ok (tbl w')) \<and>
    (\<exists>r. tbl w' = tbl w @ [r] \<and> signal_message_id r = eq_ID res \<and> status r = PENDING \<and>
       attempts r = 0 \<and> external_id r = cm_ExternalID m \<and> idempotency_key r = cm_IdempotencyKey m \<and>
       recipient r = cm_Recipient m \<and> group_id r = cm_GroupID m \<and> content r = cm_Content m \<and>
       sender_phone_number r = sv_senderPhone svc \<and> max_attempts r = max_attempts_of m \<and>
       (\<forall>a \<in> set (attachments r). map_of (objs w') (att_key a) \<noteq> None \<and>
          plain (filepath_Base (att_Filename a))))"
proof -
  from assms have v: "validate svc m = None" by (auto simp: Enqueue_def split: option.splits)
  show ?thesis
  proof (cases "is_set (cm_IdempotencyKey m)")
    case True
    then obtain k where k: "cm_IdempotencyKey m = Some k" by (auto simp: is_set_def split: option.splits)
    obtain x w1 where l: "mi_GetByIdempotencyKey (sv_repo svc) c k w = (x, w1)" by (meson surj_pair)
    note ls = lookup_state [OF l]
    show ?thesis
    proof (cases x)
      case (Inl err)
      then have "create_row rt svc c m parts w1 = (Inr res, w')"
        using assms v True k l by (auto simp: Enqueue_def split: if_splits)
      from create_row_success [OF this] ls show ?thesis by auto
    next
      case (Inr ex)
      then obtain r where "r \<in> set (tbl w)" "idempotency_key r = Some k" "ex = row_message r"
        using lookup_hit l by blast
      with Inr assms v True k l ls show ?thesis
        by (auto simp: Enqueue_def row_message_def)
    qed
  next
    case False
    then have "create_row rt svc c m parts w = (Inr res, w')"
      using assms v by (simp add: Enqueue_def)
    from create_row_success [OF this] show ?thesis by auto
  qed
qed

lemma Enqueue_repeat:
  assumes "Enqueue rt svc c m parts w = (Inr res, w')" and "calm w" and "table_ok (tbl w)"
    and "is_set (cm_IdempotencyKey m)" and "validate svc m' = None"
    and "cm_IdempotencyKey m' = cm_IdempotencyKey m"
  shows "fst (Enqueue rt svc c m' parts' w') = Inr \<lparr>eq_ID = eq_ID res, eq_Idempotent = True\<rparr> \<or>
    (\<exists>e. fst (Enqueue rt svc c m' parts' w') = Inl (Wrapped ''idempotency lookup'' e)) \<and>
      tbl (snd (Enqueue rt svc c m' parts' w')) = tbl w' \<and>
      objs (snd (Enqueue rt svc c m' parts' w')) = objs w'"
proof -
  obtain k where k: "cm_IdempotencyKey m = Some k"
    using assms(4) by (auto simp: is_set_def split: option.splits)
  from Enqueue_success [OF assms(1)] assms(2,3) have st: "calm w'" "table_ok (tbl w')"
    and ex: "\<exists>r \<in> set (tbl w'). idempotency_key r = Some k \<and> signal_message_id r = eq_ID res"
    using k by (auto split: if_splits)
  from ex obtain r where r: "r \<in> set (tbl w')" "idempotency_key r = Some k"
    "signal_message_id r = eq_ID res" by blast
  obtain x w1 where l: "mi_GetByIdempotencyKey (sv_repo svc) c k w' = (x, w1)" by (meson surj_pair)
  with lookup_calm [OF st r(1,2), of c]
  consider "x = Inr (row_message r)" | e where "x = Inl e" "\<not> errors_Is e ErrNotFound" by auto
  then show ?thesis
    using l k r(3) assms(4-6) lookup_state [OF l] by cases (simp_all add: Enqueue_def row_message_def)
qed

end

end
