(* ===== verification/Json.thy ===== *)
theory Json
  imports GoStrings
begin

text \<open>
  The part of \<open>encoding/json\<close> the service uses. Texts are byte strings: \<open>quote\<close> and \<open>unquote\<close> are the
  string encoder (HTML escaping on, as \<open>json.Marshal\<close> has it) and decoder, \<open>tokens\<close> the scanner's
  lexical level, \<open>scan_run\<close> its state machine over an explicit stack with the nesting bound of 10000, so
  \<open>json_parse\<close> accepts what \<open>json.Unmarshal\<close> accepts; \<open>json_print\<close> is the compact encoder.

  On documents, \<open>decode_struct\<close> is the decoder's treatment of a struct: members in document order, each
  matched to a field by exact name, else by the folded name, into the value the field already has; an
  ill-typed member is recorded and skipped. A \<open>'a dec\<close> returns whether no error was recorded, and the
  value.

  The lemmas at the end show that parsing undoes printing, that a printed document has no line
  break, and that decoding a field finds it in a printed object.
\<close>

section \<open>Documents\<close>

text \<open>A number is kept as its literal, an object as its members in order, duplicates included.\<close>

datatype json =
    JNull
  | JBool bool
  | JNum string
  | JStr string
  | JArr "json list"
  | JObj "(string \<times> json) list"

section \<open>Strings\<close>

definition hexdig :: "nat \<Rightarrow> char" where
  "hexdig n = ''0123456789abcdef'' ! n"

definition hexval :: "char \<Rightarrow> nat option" where
  "hexval c =
     (if between 48 57 c then Some (byte c - 48)
      else if between 97 102 c then Some (byte c - 87)
      else if between 65 70 c then Some (byte c - 55)
      else None)"

text \<open>The four hex digits of a \<open>\u\<close> escape.\<close>

fun hex4 :: "string \<Rightarrow> nat option" where
  "hex4 (a # b # c # d # s) =
     (case (hexval a, hexval b, hexval c, hexval d) of
        (Some w, Some x, Some y, Some z) \<Rightarrow> Some (4096 * w + 256 * x + 16 * y + z)
      | _ \<Rightarrow> None)"
| "hex4 s = None"

text \<open>\<open>utf8.AppendRune\<close> for a code point that is not a surrogate.\<close>

definition utf8 :: "nat \<Rightarrow> string" where
  "utf8 n =
     (if n < 0x80 then [char_of n]
      else if n < 0x800 then map char_of [0xC0 + n div 64, 0x80 + n mod 64]
      else if n < 0x10000 then
        map char_of [0xE0 + n div 4096, 0x80 + n div 64 mod 64, 0x80 + n mod 64]
      else map char_of [0xF0 + n div 262144, 0x80 + n div 4096 mod 64, 0x80 + n div 64 mod 64,
                        0x80 + n mod 64])"

definition RuneError :: string where
  "RuneError = utf8 0xFFFD"

definition backslash :: char where
  "backslash = CHR 0x5C"

definition dquote :: char where
  "dquote = CHR 0x22"

definition safe_byte :: "nat \<Rightarrow> bool" where
  "safe_byte n \<longleftrightarrow> 0x20 \<le> n \<and> n < 0x80 \<and> n \<noteq> 0x22 \<and> n \<noteq> 0x5C \<and> n \<noteq> 0x3C \<and> n \<noteq> 0x3E \<and> n \<noteq> 0x26"

definition escape_byte :: "nat \<Rightarrow> string" where
  "escape_byte n = backslash #
     (if n = 0x22 then [dquote] else if n = 0x5C then [backslash]
      else if n = 8 then ''b'' else if n = 9 then ''t'' else if n = 10 then ''n''
      else if n = 12 then ''f'' else if n = 13 then ''r''
      else ''u00'' @ [hexdig (n div 16), hexdig (n mod 16)])"

definition quote_rune :: "string \<Rightarrow> string" where
  "quote_rune r =
     (if r = utf8 0x2028 then backslash # ''u2028''
      else if r = utf8 0x2029 then backslash # ''u2029''
      else case r of
        [c] \<Rightarrow> if safe_byte (byte c) then [c]
               else if byte c < 0x80 then escape_byte (byte c)
               else backslash # ''ufffd''
      | _ \<Rightarrow> r)"

definition quote_body :: "string \<Rightarrow> string" where
  "quote_body s = concat (map quote_rune (runes s))"

definition quote :: "string \<Rightarrow> string" where
  "quote s = dquote # quote_body s @ [dquote]"

definition simple_escape :: "char \<Rightarrow> char option" where
  "simple_escape e =
     (if e = dquote \<or> e = backslash \<or> e = CHR ''/'' then Some e
      else if e = CHR ''b'' then Some (char_of (8 :: nat))
      else if e = CHR ''f'' then Some (char_of (12 :: nat))
      else if e = CHR ''n'' then Some (char_of (10 :: nat))
      else if e = CHR ''r'' then Some (char_of (13 :: nat))
      else if e = CHR ''t'' then Some (char_of (9 :: nat))
      else None)"

definition surrogate :: "nat \<Rightarrow> bool" where
  "surrogate n \<longleftrightarrow> 0xD800 \<le> n \<and> n < 0xE000"

text \<open>The low half of a surrogate pair written as a second escape right after the first.\<close>

definition second_half :: "nat \<Rightarrow> string \<Rightarrow> nat option" where
  "second_half n s =
     (if prefix [backslash, CHR ''u''] s then
        (case hex4 (drop 2 s) of
           None \<Rightarrow> None
         | Some m \<Rightarrow>
             if n < 0xDC00 \<and> 0xDC00 \<le> m \<and> m < 0xE000
             then Some ((n - 0xD800) * 1024 + (m - 0xDC00) + 0x10000) else None)
      else None)"

abbreviation prepend :: "'a list \<Rightarrow> ('a list \<times> 'b) option \<Rightarrow> ('a list \<times> 'b) option" where
  "prepend p r \<equiv> map_option (apfst (append p)) r"

text \<open>Decoding the bytes after the opening quote: the value, and what follows the closing quote.\<close>

function unquote :: "string \<Rightarrow> (string \<times> string) option" where
  "unquote [] = None"
| "unquote (c # s) =
     (if c = dquote then Some ([], s)
      else if c = backslash then
        (case s of
           [] \<Rightarrow> None
         | e # t \<Rightarrow>
             if e = CHR ''u'' then
               (case hex4 t of
                  None \<Rightarrow> None
                | Some n \<Rightarrow>
                    if surrogate n then
                      (case second_half n (drop 4 t) of
                         None \<Rightarrow> prepend RuneError (unquote (drop 4 t))
                       | Some m \<Rightarrow> prepend (utf8 m) (unquote (drop 10 t)))
                    else prepend (utf8 n) (unquote (drop 4 t)))
             else (case simple_escape e of
                     None \<Rightarrow> None
                   | Some b \<Rightarrow> prepend [b] (unquote t)))
      else if byte c < 0x20 then None
      else if byte c < 0x80 then prepend [c] (unquote s)
      else (let w = rune_width (c # s) in
            prepend (if w = 1 then RuneError else take w (c # s)) (unquote (drop w (c # s)))))"
  by pat_completeness auto
termination
  by (relation "measure length") (auto simp: not_less_eq_eq Suc_le_eq)

declare unquote.simps(2) [simp del]

section \<open>Tokens\<close>

datatype token =
    TLBrace | TRBrace | TLBrack | TRBrack | TColon | TComma
  | TStr string | TNum string | TTrue | TFalse | TNull

definition json_space :: "char \<Rightarrow> bool" where
  "json_space c \<longleftrightarrow> byte c \<in> {9, 10, 13, 32}"

definition num_char :: "char \<Rightarrow> bool" where
  "num_char c \<longleftrightarrow> digit c \<or> c \<in> set ''+-.eE''"

definition expo_part :: "string \<Rightarrow> bool" where
  "expo_part r \<longleftrightarrow> (case r of
     [] \<Rightarrow> True
   | e # t \<Rightarrow> (e = CHR ''e'' \<or> e = CHR ''E'') \<and>
       (let ds = (if prefix ''+'' t \<or> prefix ''-'' t then tl t else t) in ds \<noteq> [] \<and> list_all digit ds))"

definition frac_part :: "string \<Rightarrow> bool" where
  "frac_part r \<longleftrightarrow> (case r of
     [] \<Rightarrow> True
   | c # t \<Rightarrow> if c = CHR ''.'' then t \<noteq> [] \<and> digit (hd t) \<and> expo_part (dropWhile digit t)
              else expo_part r)"

definition json_number :: "string \<Rightarrow> bool" where
  "json_number s \<longleftrightarrow>
     (case (if prefix ''-'' s then tl s else s) of
        [] \<Rightarrow> False
      | c # r \<Rightarrow> if c = CHR ''0'' then frac_part r else digit c \<and> frac_part (dropWhile digit r))"

definition punct :: "char \<Rightarrow> token option" where
  "punct c =
     (if c = CHR 0x7B then Some TLBrace else if c = CHR 0x7D then Some TRBrace
      else if c = CHR 0x5B then Some TLBrack else if c = CHR 0x5D then Some TRBrack
      else if c = CHR 0x3A then Some TColon else if c = CHR 0x2C then Some TComma
      else None)"

lemma unquote_shorter: "unquote s = Some (v, r) \<Longrightarrow> length r < length s"
proof (induction s arbitrary: v r rule: length_induct)
  case (1 s)
  have IH: "length r < n" if "unquote t = Some (a, r)" "length t < length s" "length s \<le> n" for t a n
    using 1(1) that by (meson less_trans less_le_trans)
  show ?case
  proof (cases s)
    case (Cons c t)
    from 1(2) show ?thesis
      unfolding Cons unquote.simps(2)
      by (auto split: if_splits list.splits option.splits simp: Let_def Cons intro!: IH)
  qed (use 1(2) in simp)
qed

function tokens :: "string \<Rightarrow> token list option" where
  "tokens [] = Some []"
| "tokens (c # s) =
     (if json_space c then tokens s
      else case punct c of
        Some t \<Rightarrow> map_option (Cons t) (tokens s)
      | None \<Rightarrow>
          if c = dquote then
            (case unquote s of
               None \<Rightarrow> None
             | Some (v, r) \<Rightarrow> map_option (Cons (TStr v)) (tokens r))
          else if num_char c then
            (if json_number (takeWhile num_char (c # s))
             then map_option (Cons (TNum (takeWhile num_char (c # s)))) (tokens (dropWhile num_char s))
             else None)
          else if prefix ''true'' (c # s) then map_option (Cons TTrue) (tokens (drop 3 s))
          else if prefix ''false'' (c # s) then map_option (Cons TFalse) (tokens (drop 4 s))
          else if prefix ''null'' (c # s) then map_option (Cons TNull) (tokens (drop 3 s))
          else None)"
  by pat_completeness auto
termination
  by (relation "measure length")
    (auto simp: less_Suc_eq_le length_dropWhile_le dest!: unquote_shorter)

declare tokens.simps(2) [simp del]

section \<open>The scanner's states\<close>

datatype frame =
    In_array "json list"
  | In_object "(string \<times> json) list"
  | In_member "(string \<times> json) list" string

datatype scan =
    BeginValue | BeginValueOrEmpty | BeginString | BeginStringOrEmpty | EndKey | EndValue json

definition maxNestingDepth :: nat where
  "maxNestingDepth = 10000"

definition simple_value :: "token \<Rightarrow> json option" where
  "simple_value t = (case t of
     TStr s \<Rightarrow> Some (JStr s) | TNum n \<Rightarrow> Some (JNum n) | TTrue \<Rightarrow> Some (JBool True)
   | TFalse \<Rightarrow> Some (JBool False) | TNull \<Rightarrow> Some JNull | _ \<Rightarrow> None)"

text \<open>One state's reaction to a token: the next state and stack, or \<open>None\<close> for a syntax error.\<close>

fun end_value :: "json \<Rightarrow> frame list \<Rightarrow> token \<Rightarrow> (scan \<times> frame list) option" where
  "end_value v (In_array vs # st) t =
     (if t = TComma then Some (BeginValue, In_array (v # vs) # st)
      else if t = TRBrack then Some (EndValue (JArr (rev (v # vs))), st)
      else None)"
| "end_value v (In_member ms k # st) t =
     (if t = TComma then Some (BeginString, In_object ((k, v) # ms) # st)
      else if t = TRBrace then Some (EndValue (JObj (rev ((k, v) # ms))), st)
      else None)"
| "end_value v _ t = None"

definition begin_value :: "frame list \<Rightarrow> token \<Rightarrow> (scan \<times> frame list) option" where
  "begin_value st t =
     (if t = TLBrack then
        (if length st < maxNestingDepth then Some (BeginValueOrEmpty, In_array [] # st) else None)
      else if t = TLBrace then
        (if length st < maxNestingDepth then Some (BeginStringOrEmpty, In_object [] # st) else None)
      else map_option (\<lambda>v. (EndValue v, st)) (simple_value t))"

definition begin_string :: "frame list \<Rightarrow> token \<Rightarrow> (scan \<times> frame list) option" where
  "begin_string st t = (case (st, t) of
     (In_object ms # st', TStr k) \<Rightarrow> Some (EndKey, In_member ms k # st')
   | _ \<Rightarrow> None)"

fun scan_step :: "scan \<Rightarrow> frame list \<Rightarrow> token \<Rightarrow> (scan \<times> frame list) option" where
  "scan_step BeginValue st t = begin_value st t"
| "scan_step BeginValueOrEmpty st t =
     (if t = TRBrack then Some (EndValue (JArr []), tl st) else begin_value st t)"
| "scan_step BeginString st t = begin_string st t"
| "scan_step BeginStringOrEmpty st t =
     (if t = TRBrace then Some (EndValue (JObj []), tl st) else begin_string st t)"
| "scan_step EndKey st t = (if t = TColon then Some (BeginValue, st) else None)"
| "scan_step (EndValue v) st t = end_value v st t"

definition scan_eof :: "scan \<Rightarrow> frame list \<Rightarrow> json option" where
  "scan_eof sc st = (case sc of EndValue v \<Rightarrow> if st = [] then Some v else None | _ \<Rightarrow> None)"

fun scan_run :: "scan \<Rightarrow> frame list \<Rightarrow> token list \<Rightarrow> json option" where
  "scan_run sc st [] = scan_eof sc st"
| "scan_run sc st (t # ts) =
     (case scan_step sc st t of None \<Rightarrow> None | Some (sc', st') \<Rightarrow> scan_run sc' st' ts)"

definition json_parse :: "string \<Rightarrow> json option" where
  "json_parse s = (case tokens s of None \<Rightarrow> None | Some ts \<Rightarrow> scan_run BeginValue [] ts)"

section \<open>Printing\<close>

fun commas :: "token list list \<Rightarrow> token list" where
  "commas [] = []"
| "commas [x] = x"
| "commas (x # y # xs) = x @ TComma # commas (y # xs)"

fun toks :: "json \<Rightarrow> token list" where
  "toks JNull = [TNull]"
| "toks (JBool b) = [if b then TTrue else TFalse]"
| "toks (JNum n) = [TNum n]"
| "toks (JStr s) = [TStr s]"
| "toks (JArr vs) = TLBrack # commas (map toks vs) @ [TRBrack]"
| "toks (JObj ms) = TLBrace # commas (map (\<lambda>(k, v). TStr k # TColon # toks v) ms) @ [TRBrace]"

fun token_text :: "token \<Rightarrow> string" where
  "token_text TLBrace = [CHR 0x7B]"
| "token_text TRBrace = [CHR 0x7D]"
| "token_text TLBrack = [CHR 0x5B]"
| "token_text TRBrack = [CHR 0x5D]"
| "token_text TColon = [CHR 0x3A]"
| "token_text TComma = [CHR 0x2C]"
| "token_text (TStr s) = quote s"
| "token_text (TNum n) = n"
| "token_text TTrue = ''true''"
| "token_text TFalse = ''false''"
| "token_text TNull = ''null''"

definition json_print :: "json \<Rightarrow> string" where
  "json_print j = concat (map token_text (toks j))"

section \<open>Parsing undoes printing: strings\<close>

text \<open>What a string becomes on the way through the encoder: a byte that is no part of a well-formed
  encoding is replaced.\<close>

definition valid_rune :: "string \<Rightarrow> string" where
  "valid_rune r = (if length r = 1 \<and> 0x80 \<le> byte (hd r) then RuneError else r)"

definition ToValidUTF8 :: "string \<Rightarrow> string" where
  "ToValidUTF8 s = concat (map valid_rune (runes s))"

definition utf8_valid :: "string \<Rightarrow> bool" where
  "utf8_valid s \<longleftrightarrow> list_all (\<lambda>r. valid_rune r = r) (runes s)"

lemma ToValidUTF8_valid [simp]: "utf8_valid s \<Longrightarrow> ToValidUTF8 s = s"
proof -
  assume "utf8_valid s"
  then have "map valid_rune (runes s) = runes s"
    by (auto simp: utf8_valid_def list_all_iff intro: map_idI)
  then show ?thesis
    by (simp add: ToValidUTF8_def runes_concat)
qed

lemma utf8_valid_ascii: "list_all (\<lambda>c. byte c < 128) s \<Longrightarrow> utf8_valid s"
proof -
  assume *: "list_all (\<lambda>c. byte c < 128) s"
  then have "runes s = map (\<lambda>c. [c]) s"
    by (simp add: runes_ascii list_all_iff)
  with * show ?thesis
    by (auto simp: utf8_valid_def valid_rune_def list_all_iff)
qed

lemma hexval_hexdig: "n < 16 \<Longrightarrow> hexval (hexdig n) = Some n"
proof -
  assume "n < 16"
  then have "n \<in> set [0 ..< 16]"
    by simp
  then show ?thesis
    by (simp add: upt_rec hexval_def hexdig_def between_def byte_def) auto
qed

definition lead3 :: "char \<Rightarrow> char \<Rightarrow> bool" where
  "lead3 a b \<longleftrightarrow> between 0xE0 0xE0 a \<and> between 0xA0 0xBF b \<or> between 0xE1 0xEC a \<and> cont b \<or>
     between 0xED 0xED a \<and> between 0x80 0x9F b \<or> between 0xEE 0xEF a \<and> cont b"

definition lead4 :: "char \<Rightarrow> char \<Rightarrow> bool" where
  "lead4 a b \<longleftrightarrow> between 0xF0 0xF0 a \<and> between 0x90 0xBF b \<or> between 0xF1 0xF3 a \<and> cont b \<or>
     between 0xF4 0xF4 a \<and> between 0x80 0x8F b"

lemma rune_width_2:
  "rune_width (a # b # u) =
     (if between 0xC2 0xDF a \<and> cont b then 2
      else if u \<noteq> [] \<and> lead3 a b \<and> cont (hd u) then 3
      else if u \<noteq> [] \<and> tl u \<noteq> [] \<and> lead4 a b \<and> cont (hd u) \<and> cont (hd (tl u)) then 4
      else 1)"
  by (cases "a # b # u" rule: rune_width.cases) (simp_all add: lead3_def lead4_def)

lemma lead_byte:
  "between 0xC2 0xDF a \<Longrightarrow> 0x80 \<le> byte a" "lead3 a b \<Longrightarrow> 0x80 \<le> byte a" "lead4 a b \<Longrightarrow> 0x80 \<le> byte a"
  by (auto simp: between_def lead3_def lead4_def)

lemma rune_width_multi_cases:
  assumes "rune_width s = n" "n \<noteq> 1"
  obtains (two) a b u where "s = a # b # u" "between 0xC2 0xDF a \<and> cont b" "n = 2"
  | (three) a b c v where "s = a # b # c # v" "\<not> (between 0xC2 0xDF a \<and> cont b)" "lead3 a b" "cont c"
      "n = 3"
  | (four) a b c d v where "s = a # b # c # d # v" "\<not> (between 0xC2 0xDF a \<and> cont b)"
      "\<not> (lead3 a b \<and> cont c)" "lead4 a b" "cont c" "cont d" "n = 4"
proof -
  have "2 \<le> length s"
    using assms by (cases s rule: rune_width.cases) auto
  then obtain a b u where s: "s = a # b # u"
    by (cases s; cases "tl s") auto
  show ?thesis
    using assms that unfolding s rune_width_2 by (cases u; cases "tl u") (auto split: if_splits)
qed

lemma rune_width_multi:
  assumes "rune_width s = n" "n \<noteq> 1"
  shows "n \<le> length s \<and> rune_width (take n s @ t) = n \<and> 0x80 \<le> byte (hd s) \<and> n \<in> {2, 3, 4}"
  using assms
proof (cases rule: rune_width_multi_cases)
  case two
  then show ?thesis
    by (simp add: rune_width_2 lead_byte numeral_2_eq_2)
next
  case three
  then show ?thesis
    by (simp add: rune_width_2 lead_byte numeral_3_eq_3)
next
  case four
  have "4 = Suc (Suc (Suc (Suc 0)))"
    by simp
  with four show ?thesis
    by (simp add: rune_width_2 lead_byte)
qed

lemma char_literals: "dquote = char_of (0x22 :: nat)" "backslash = char_of (0x5C :: nat)"
  by (code_simp, code_simp)

lemma unquote_u:
  assumes "hex4 t = Some n" "\<not> surrogate n"
  shows "unquote (backslash # CHR ''u'' # t) = prepend (utf8 n) (unquote (drop 4 t))"
  using assms by (simp add: unquote.simps(2) backslash_def dquote_def)

lemma unquote_simple:
  assumes "simple_escape e = Some b"
  shows "unquote (backslash # e # t) = prepend [b] (unquote t)"
proof -
  have "simple_escape (CHR ''u'') = None"
    by (simp add: simple_escape_def backslash_def dquote_def)
  with assms have "e \<noteq> CHR ''u''"
    by auto
  with assms show ?thesis
    by (simp add: unquote.simps(2) backslash_def dquote_def)
qed

lemma simple_escapes:
  "simple_escape dquote = Some dquote" "simple_escape backslash = Some backslash"
  "simple_escape (CHR ''b'') = Some (char_of (8 :: nat))"
  "simple_escape (CHR ''t'') = Some (char_of (9 :: nat))"
  "simple_escape (CHR ''n'') = Some (char_of (10 :: nat))"
  "simple_escape (CHR ''f'') = Some (char_of (12 :: nat))"
  "simple_escape (CHR ''r'') = Some (char_of (13 :: nat))"
  by (simp_all add: simple_escape_def backslash_def dquote_def)

lemma unquote_escape:
  assumes "n < 0x80"
  shows "unquote (escape_byte n @ t) = prepend [char_of n] (unquote t)"
proof -
  have h0: "hexval (CHR ''0'') = Some 0"
    using hexval_hexdig [of 0] by (simp add: hexdig_def)
  have d: "16 * (n div 16) + n mod 16 = n"
    by simp
  have h: "hex4 (CHR ''0'' # CHR ''0'' # hexdig (n div 16) # hexdig (n mod 16) # t) = Some n"
    using assms(1) d by (simp add: h0 hexval_hexdig del: mult_div_mod_eq)
  have u: "unquote (backslash # CHR ''u'' # CHR ''0'' # CHR ''0'' # hexdig (n div 16) # hexdig (n mod 16) # t)
      = prepend [char_of n] (unquote t)"
    using unquote_u [OF h] assms by (simp add: surrogate_def utf8_def)
  show ?thesis
    unfolding escape_byte_def
    by (simp add: unquote_simple simple_escapes u) (simp add: char_literals)
qed

lemma unquote_rune:
  assumes "s \<noteq> []"
  shows "unquote (quote_rune (take (rune_width s) s) @ t) =
    prepend (valid_rune (take (rune_width s) s)) (unquote t)"
proof -
  have ls: "hexval (CHR ''2'') = Some 2" "hexval (CHR ''0'') = Some 0" "hexval (CHR ''8'') = Some 8"
      "hexval (CHR ''9'') = Some 9" "hexval (CHR ''f'') = Some 15" "hexval (CHR ''d'') = Some 13"
    by (simp_all add: hexval_def between_def byte_def)
  have len: "length (utf8 0x2028) = 3" "length (utf8 0x2029) = 3"
    by (simp_all add: utf8_def)
  have u: "unquote (backslash # CHR ''u'' # CHR ''2'' # CHR ''0'' # CHR ''2'' # CHR ''8'' # t) =
        prepend (utf8 0x2028) (unquote t)"
      "unquote (backslash # CHR ''u'' # CHR ''2'' # CHR ''0'' # CHR ''2'' # CHR ''9'' # t) =
        prepend (utf8 0x2029) (unquote t)"
      "unquote (backslash # CHR ''u'' # CHR ''f'' # CHR ''f'' # CHR ''f'' # CHR ''d'' # t) =
        prepend RuneError (unquote t)"
    by (simp_all add: unquote_u surrogate_def ls RuneError_def)
  show ?thesis
  proof (cases "rune_width s = 1")
    case True
    then obtain c where r: "take (rune_width s) s = [c]"
      using assms by (cases s) auto
    have ne: "[c] \<noteq> utf8 0x2028" "[c] \<noteq> utf8 0x2029"
      using len by (auto dest: arg_cong [where f = length])
    have safe: "unquote (c # t) = prepend [c] (unquote t)" if "safe_byte (byte c)"
      using that by (auto simp: unquote.simps(2) safe_byte_def dquote_def backslash_def byte_def)
    have esc: "unquote (escape_byte (byte c) @ t) = prepend [c] (unquote t)" if "byte c < 0x80"
      using unquote_escape [OF that] by (simp add: byte_def)
    show ?thesis
      using ne safe esc u(3) by (auto simp: r quote_rune_def valid_rune_def safe_byte_def)
  next
    case False
    define n where "n = rune_width s"
    define r where "r = take n s"
    have m: "n \<le> length s" "rune_width (r @ t) = n" "0x80 \<le> byte (hd s)" "n \<in> {2, 3, 4}"
      using rune_width_multi [of s n t] False by (auto simp: n_def r_def)
    have lr: "length r = n" "n \<noteq> 1"
      using m(1) False by (simp_all add: r_def n_def)
    obtain c d r' where r: "r = c # d # r'" and c: "c = hd s"
      using lr m(4) assms by (cases r; cases "tl r"; cases s) (auto simp: r_def)
    have "unquote (r @ t) = prepend r (unquote t)"
    proof -
      have "c \<noteq> dquote" "c \<noteq> backslash" "\<not> byte c < 0x20" "\<not> byte c < 0x80"
        using m(3) c by (auto simp: dquote_def backslash_def byte_def)
      then have "unquote (r @ t) = prepend (take n (r @ t)) (unquote (drop n (r @ t)))"
        using m(2) lr by (simp add: r unquote.simps(2) Let_def)
      then show ?thesis
        using lr by simp
    qed
    moreover have "valid_rune r = r"
      using lr by (simp add: valid_rune_def)
    ultimately show ?thesis
      using u(1,2) by (simp add: quote_rune_def r flip: n_def r_def)
  qed
qed

lemma unquote_quote: "unquote (quote_body s @ dquote # t) = Some (ToValidUTF8 s, t)"
proof (induction s rule: length_induct)
  case (1 s)
  show ?case
  proof (cases s)
    case Nil
    then show ?thesis
      by (simp add: quote_body_def ToValidUTF8_def unquote.simps(2))
  next
    case (Cons c u)
    then have ne: "s \<noteq> []"
      by simp
    define r where "r = take (rune_width s) s"
    define v where "v = drop (rune_width s) s"
    have rs: "runes s = r # runes v"
      using Cons by (simp add: runes.simps r_def v_def)
    have "length v < length s"
      using Cons by (simp add: v_def)
    with 1 have IH: "unquote (quote_body v @ dquote # t) = Some (ToValidUTF8 v, t)"
      by blast
    have "unquote (quote_body s @ dquote # t) = unquote (quote_rune r @ (quote_body v @ dquote # t))"
      by (simp add: quote_body_def rs)
    also have "\<dots> = prepend (valid_rune r) (Some (ToValidUTF8 v, t))"
      using unquote_rune [of s "quote_body v @ dquote # t"] ne by (simp add: IH flip: r_def)
    finally show ?thesis
      by (simp add: ToValidUTF8_def rs)
  qed
qed

section \<open>Parsing undoes printing: documents\<close>

fun json_depth :: "json \<Rightarrow> nat" where
  "json_depth (JArr vs) = Suc (Max (set (0 # map json_depth vs)))"
| "json_depth (JObj ms) = Suc (Max (set (0 # map (json_depth \<circ> snd) ms)))"
| "json_depth _ = 0"

lemma json_depth_element: "v \<in> set vs \<Longrightarrow> json_depth v < json_depth (JArr vs)"
  by (simp add: less_Suc_eq_le)

lemma json_depth_member: "(k, v) \<in> set ms \<Longrightarrow> json_depth v < json_depth (JObj ms)"
  by (force simp: less_Suc_eq_le intro: Max_ge)

text \<open>A bound on the depth, member by member: it computes on documents whose shape is known.\<close>

lemma json_depth_le:
  "json_depth (JArr vs) \<le> n \<longleftrightarrow> 0 < n \<and> (\<forall>v \<in> set vs. json_depth v \<le> n - 1)"
  "json_depth (JObj ms) \<le> n \<longleftrightarrow> 0 < n \<and> (\<forall>m \<in> set ms. json_depth (snd m) \<le> n - 1)"
  by (cases n; auto)+

text \<open>The documents the encoder writes and reads back unchanged: well-formed strings, number literals
  of the grammar.\<close>

fun printable :: "json \<Rightarrow> bool" where
  "printable (JStr s) = utf8_valid s"
| "printable (JNum n) = (json_number n \<and> list_all num_char n)"
| "printable (JArr vs) = list_all printable vs"
| "printable (JObj ms) = list_all (\<lambda>(k, v). utf8_valid k \<and> printable v) ms"
| "printable _ = True"

lemma toks_first: "\<exists>t ts. toks j = t # ts \<and> t \<noteq> TRBrack \<and> t \<noteq> TRBrace"
  by (cases j) auto

lemma run_elements:
  assumes "vs \<noteq> []"
    and "\<And>v st ts. v \<in> set vs \<Longrightarrow> length st = n \<Longrightarrow>
      scan_run BeginValue st (toks v @ ts) = scan_run (EndValue v) st ts"
    and "Suc (length st) = n"
  shows "scan_run BeginValue (In_array acc # st) (commas (map toks vs) @ TRBrack # ts) =
    scan_run (EndValue (JArr (rev acc @ vs))) st ts"
  using assms(1,2)
proof (induction vs arbitrary: acc)
  case (Cons v vs)
  show ?case
  proof (cases vs)
    case Nil
    then show ?thesis
      using Cons.prems(2) [of v] assms(3) by simp
  next
    case (Cons w ws)
    have "scan_run BeginValue (In_array acc # st) (commas (map toks (v # vs)) @ TRBrack # ts) =
        scan_run BeginValue (In_array (v # acc) # st) (commas (map toks vs) @ TRBrack # ts)"
      using Cons.prems(2) [of v] assms(3) by (simp add: Cons)
    also have "\<dots> = scan_run (EndValue (JArr (rev (v # acc) @ vs))) st ts"
      using Cons.IH [of "v # acc"] Cons.prems(2) Cons by auto
    finally show ?thesis
      by simp
  qed
qed simp

lemma run_members:
  assumes "ms \<noteq> []"
    and "\<And>k v st ts. (k, v) \<in> set ms \<Longrightarrow> length st = n \<Longrightarrow>
      scan_run BeginValue st (toks v @ ts) = scan_run (EndValue v) st ts"
    and "Suc (length st) = n"
  shows "scan_run BeginString (In_object acc # st)
      (commas (map (\<lambda>(k, v). TStr k # TColon # toks v) ms) @ TRBrace # ts) =
    scan_run (EndValue (JObj (rev acc @ ms))) st ts"
  using assms(1,2)
proof (induction ms arbitrary: acc)
  case (Cons m ms)
  obtain k v where m: "m = (k, v)"
    by (cases m)
  have v: "scan_run BeginValue st (toks v @ ts) = scan_run (EndValue v) st ts" if "length st = n" for st ts
    using Cons.prems(2) [of k v] that by (simp add: m)
  show ?case
  proof (cases ms)
    case Nil
    then show ?thesis
      using v assms(3) by (simp add: m begin_string_def)
  next
    case (Cons w ws)
    let ?M = "map (\<lambda>(k, v). TStr k # TColon # toks v)"
    have "commas (?M (m # ms)) = TStr k # TColon # toks v @ TComma # commas (?M ms)"
      by (simp add: m Cons split_beta)
    then have "scan_run BeginString (In_object acc # st) (commas (?M (m # ms)) @ TRBrace # ts) =
        scan_run BeginString (In_object ((k, v) # acc) # st) (commas (?M ms) @ TRBrace # ts)"
      using v assms(3) by (simp add: begin_string_def)
    also have "\<dots> = scan_run (EndValue (JObj (rev ((k, v) # acc) @ ms))) st ts"
      using Cons.IH [of "(k, v) # acc"] Cons.prems(2) Cons by auto
    finally show ?thesis
      by (simp add: m)
  qed
qed simp

lemma run_or_empty:
  "scan_run BeginValueOrEmpty st (toks v @ ts) = scan_run BeginValue st (toks v @ ts)"
  using toks_first [of v] by auto

lemma run_toks:
  assumes "length st + json_depth j \<le> maxNestingDepth"
  shows "scan_run BeginValue st (toks j @ ts) = scan_run (EndValue j) st ts"
  using assms
proof (induction j arbitrary: st ts rule: toks.induct)
  case (5 vs)
  have d: "Suc (length st) + json_depth v \<le> maxNestingDepth" if "v \<in> set vs" for v
    using "5.prems" json_depth_element [OF that] by simp
  have v: "scan_run BeginValue st' (toks v @ ts') = scan_run (EndValue v) st' ts'"
    if "v \<in> set vs" "length st' = Suc (length st)" for v st' ts'
    using "5.IH" that d [of v] by simp
  show ?case
  proof (cases vs)
    case Nil
    then show ?thesis
      using "5.prems" by (simp add: begin_value_def)
  next
    case (Cons w ws)
    then have "commas (map toks vs) = toks w @ (if ws = [] then [] else TComma # commas (map toks ws))"
      by (cases ws) auto
    then have "scan_run BeginValueOrEmpty (In_array [] # st) (commas (map toks vs) @ TRBrack # ts) =
        scan_run BeginValue (In_array [] # st) (commas (map toks vs) @ TRBrack # ts)"
      by (simp add: run_or_empty)
    then show ?thesis
      using "5.prems" run_elements [of vs "Suc (length st)" st "[]" ts] v Cons
      by (simp add: begin_value_def)
  qed
next
  case (6 ms)
  have d: "Suc (length st) + json_depth v \<le> maxNestingDepth" if "(k, v) \<in> set ms" for k v
    using "6.prems" json_depth_member [OF that] by simp
  have v: "scan_run BeginValue st' (toks v @ ts') = scan_run (EndValue v) st' ts'"
    if "(k, v) \<in> set ms" "length st' = Suc (length st)" for k v st' ts'
    using "6.IH" [of "(k, v)" k v] that d [of k v] by simp
  let ?M = "map (\<lambda>(k, v). TStr k # TColon # toks v)"
  show ?case
  proof (cases ms)
    case Nil
    then show ?thesis
      using "6.prems" by (simp add: begin_value_def)
  next
    case (Cons w ws)
    then obtain k r where "commas (?M ms) = TStr k # r"
      by (cases w; cases ws) auto
    then have "scan_run BeginStringOrEmpty (In_object [] # st) (commas (?M ms) @ TRBrace # ts) =
        scan_run BeginString (In_object [] # st) (commas (?M ms) @ TRBrace # ts)"
      by simp
    then show ?thesis
      using "6.prems" run_members [of ms "Suc (length st)" st "[]" ts] v Cons
      by (simp add: begin_value_def)
  qed
qed (simp_all add: begin_value_def simple_value_def)

definition printable_token :: "token \<Rightarrow> bool" where
  "printable_token t = (case t of
     TStr s \<Rightarrow> utf8_valid s | TNum n \<Rightarrow> json_number n \<and> list_all num_char n | _ \<Rightarrow> True)"

lemma tokens_text:
  assumes "printable_token t" and "\<And>n. t = TNum n \<Longrightarrow> r = [] \<or> \<not> num_char (hd r)"
  shows "tokens (token_text t @ r) = map_option (Cons t) (tokens r)"
proof (cases t)
  case (TStr s)
  have "\<not> json_space dquote" "punct dquote = None"
    by (simp_all add: dquote_def json_space_def byte_def punct_def)
  then show ?thesis
    using assms(1) by (simp add: TStr quote_def tokens.simps(2) unquote_quote printable_token_def)
next
  case (TNum n)
  then have n: "json_number n" "list_all num_char n" and r: "r = [] \<or> \<not> num_char (hd r)"
    using assms by (auto simp: printable_token_def)
  obtain c s where cs: "n = c # s" and c: "num_char c"
    using n by (cases n) (auto simp: json_number_def)
  have "takeWhile num_char (n @ r) = n" "dropWhile num_char (n @ r) = r"
    using n(2) r by (cases r; simp add: takeWhile_append dropWhile_append list_all_iff)+
  then have "takeWhile num_char (c # s @ r) = n" "dropWhile num_char (s @ r) = r"
    using c by (simp_all add: cs)
  moreover have "\<not> json_space c" "punct c = None" "c \<noteq> dquote"
    using c by (auto simp: num_char_def digit_def between_def json_space_def punct_def dquote_def byte_def)
  ultimately show ?thesis
    using n c by (simp add: TNum cs tokens.simps(2))
qed (simp_all add: tokens.simps(2) json_space_def punct_def byte_def dquote_def num_char_def
    digit_def between_def)

abbreviation texts :: "token list \<Rightarrow> string" where
  "texts ts \<equiv> concat (map token_text ts)"

text \<open>A remainder that does not extend a number literal.\<close>

definition stops :: "string \<Rightarrow> bool" where
  "stops r \<longleftrightarrow> r = [] \<or> \<not> num_char (hd r)"

definition reads_back :: "token list \<Rightarrow> bool" where
  "reads_back x \<longleftrightarrow> (\<forall>r. stops r \<longrightarrow> tokens (texts x @ r) = map_option (\<lambda>u. x @ u) (tokens r))"

lemma reads_backD: "reads_back x \<Longrightarrow> stops r \<Longrightarrow> tokens (texts x @ r) = map_option (\<lambda>u. x @ u) (tokens r)"
  by (simp add: reads_back_def)

lemma stops_punct: "t \<in> {TComma, TRBrack, TRBrace} \<Longrightarrow> stops (token_text t @ r)"
  by (auto simp: stops_def num_char_def digit_def between_def byte_def)

lemma reads_back_token: "printable_token t \<Longrightarrow> reads_back [t]"
  by (simp add: reads_back_def stops_def tokens_text option.map_comp o_def)

lemma tokens_punct:
  "t \<in> {TComma, TRBrack, TRBrace, TLBrack, TLBrace, TColon} \<Longrightarrow>
     tokens (token_text t @ r) = map_option (Cons t) (tokens r)"
  by (rule tokens_text) (auto simp: printable_token_def)

lemma reads_back_commas:
  assumes "\<And>x. x \<in> set xs \<Longrightarrow> reads_back x"
  shows "reads_back (commas xs)"
  using assms
proof (induction xs rule: commas.induct)
  case 1
  then show ?case
    by (simp add: reads_back_def option.map_ident)
next
  case (3 x y xs)
  have x: "reads_back x" and rest: "reads_back (commas (y # xs))"
    using 3 by auto
  show ?case
    unfolding reads_back_def
  proof (intro allI impI)
    fix r
    assume r: "stops r"
    have "tokens (texts (x @ TComma # commas (y # xs)) @ r) =
        map_option (\<lambda>u. x @ u) (tokens (token_text TComma @ texts (commas (y # xs)) @ r))"
      using reads_backD [OF x stops_punct [of TComma "texts (commas (y # xs)) @ r"]] by simp
    also have "\<dots> = map_option (\<lambda>u. x @ u) (map_option (Cons TComma) (map_option (\<lambda>u. (commas (y # xs)) @ u) (tokens r)))"
      using reads_backD [OF rest r] tokens_punct [of TComma "texts (commas (y # xs)) @ r"] by simp
    finally show "tokens (texts (commas (x # y # xs)) @ r) =
        map_option (\<lambda>u. (commas (x # y # xs)) @ u) (tokens r)"
      by (simp add: option.map_comp o_def)
  qed
qed simp

lemma reads_back_bracket:
  assumes "reads_back x" "a \<in> {TLBrack, TLBrace}" "b \<in> {TRBrack, TRBrace}"
  shows "reads_back (a # x @ [b])"
  unfolding reads_back_def
proof (intro allI impI)
  fix r
  have "tokens (texts (a # x @ [b]) @ r) = map_option (Cons a) (tokens (texts x @ token_text b @ r))"
    using tokens_punct [of a "texts x @ token_text b @ r"] assms(2) by auto
  also have "tokens (texts x @ token_text b @ r) = map_option (\<lambda>u. x @ u) (tokens (token_text b @ r))"
    using reads_backD [OF assms(1) stops_punct] assms(3) by auto
  also have "tokens (token_text b @ r) = map_option (Cons b) (tokens r)"
    using tokens_punct [of b r] assms(3) by auto
  finally show "tokens (texts (a # x @ [b]) @ r) = map_option (\<lambda>u. (a # x @ [b]) @ u) (tokens r)"
    by (simp add: option.map_comp o_def)
qed

lemma reads_back_toks: "printable j \<Longrightarrow> reads_back (toks j)"
proof (induction j rule: toks.induct)
  case (5 vs)
  then show ?case
    by (auto simp: list_all_iff intro!: reads_back_bracket reads_back_commas)
next
  case (6 ms)
  have "reads_back (TStr k # TColon # toks v)" if m: "(k, v) \<in> set ms" for k v
  proof -
    have "utf8_valid k" "reads_back (toks v)"
      using 6 m by (auto simp: list_all_iff)
    then show ?thesis
      using tokens_text [of "TStr k"] tokens_punct [of TColon]
      by (auto simp: reads_back_def printable_token_def option.map_comp o_def)
  qed
  then show ?case
    by (auto intro!: reads_back_bracket reads_back_commas)
qed (auto intro!: reads_back_token simp: printable_token_def)

theorem json_roundtrip:
  assumes "printable j" "json_depth j \<le> maxNestingDepth"
  shows "json_parse (json_print j) = Some j"
proof -
  have "tokens (json_print j) = Some (toks j)"
    using reads_backD [OF reads_back_toks [OF assms(1)], of "[]"]
    by (simp add: json_print_def stops_def)
  then show ?thesis
    using run_toks [of "[]" j "[]"] assms(2) by (simp add: json_parse_def scan_eof_def)
qed

declare json_depth.simps(1,2) [simp del] json_depth_le [simp]

section \<open>A printed document is one line\<close>

definition inline :: "string \<Rightarrow> bool" where
  "inline s \<longleftrightarrow> list_all (\<lambda>c. 0x20 \<le> byte c) s"

lemma inline_simps [simp]:
  "inline []" "inline (c # s) \<longleftrightarrow> 0x20 \<le> byte c \<and> inline s" "inline (s @ t) \<longleftrightarrow> inline s \<and> inline t"
  by (simp_all add: inline_def)

lemma inline_concat: "(\<And>x. x \<in> set xs \<Longrightarrow> inline x) \<Longrightarrow> inline (concat xs)"
  by (induction xs) auto

lemma inline_hexdig: "n < 16 \<Longrightarrow> 0x20 \<le> byte (hexdig n)"
  using hexval_hexdig [of n] by (auto simp: hexval_def between_def split: if_splits)

lemma inline_lit [simp]: "0x20 \<le> byte backslash" "0x20 \<le> byte dquote"
  by (simp_all add: backslash_def dquote_def byte_def)

lemma inline_multi:
  assumes "rune_width s \<noteq> 1"
  shows "inline (take (rune_width s) s)"
proof -
  have c: "cont x \<Longrightarrow> 0x20 \<le> byte x" "lead3 a x \<Longrightarrow> 0x20 \<le> byte x" "lead4 a x \<Longrightarrow> 0x20 \<le> byte x"
      "lead3 x a \<Longrightarrow> 0x20 \<le> byte x" "lead4 x a \<Longrightarrow> 0x20 \<le> byte x" "between 0xC2 0xDF x \<Longrightarrow> 0x20 \<le> byte x"
    for a x
    by (auto simp: cont_def between_def lead3_def lead4_def)
  define n where "n = rune_width s"
  have four: "4 = Suc (Suc (Suc (Suc 0)))"
    by simp
  from assms have "n \<noteq> 1"
    by (simp add: n_def)
  with n_def [symmetric] have "inline (take n s)"
  proof (cases rule: rune_width_multi_cases)
    case two
    then show ?thesis
      by (simp add: numeral_2_eq_2 c)
  next
    case (three a b c v)
    then show ?thesis
      using c(1) [of c] c(2,4) [of a b] c(4) [of a b] by (simp add: numeral_3_eq_3)
  next
    case (four a b c d v)
    then show ?thesis
      using c(1) [of c] c(1) [of d] c(3) [of a b] c(5) [of a b] by simp
  qed
  then show ?thesis
    by (simp add: n_def)
qed

lemma byte_Char [simp]: "byte (Char a b c d e f g h) = of_char (Char a b c d e f g h)"
  by (simp add: byte_def)

lemma inline_escape_byte: "n < 0x80 \<Longrightarrow> inline (escape_byte n)"
  using inline_hexdig [of "n div 16"] inline_hexdig [of "n mod 16"]
  by (simp add: escape_byte_def)

lemma inline_quote_rune:
  assumes "s \<noteq> []"
  shows "inline (quote_rune (take (rune_width s) s))"
proof (cases "rune_width s = 1")
  case True
  then obtain c where "take (rune_width s) s = [c]"
    using assms by (cases s) auto
  then show ?thesis
    using inline_escape_byte [of "byte c"]
    by (auto simp: quote_rune_def safe_byte_def)
next
  case False
  have "2 \<le> length (take (rune_width s) s)"
    using rune_width_multi [OF refl False, of "[]"] by auto
  then obtain c d r where "take (rune_width s) s = c # d # r"
    by (cases "take (rune_width s) s"; cases "tl (take (rune_width s) s)") auto
  then show ?thesis
    using inline_multi [OF False] by (simp add: quote_rune_def)
qed

lemma inline_quote: "inline (quote s)"
proof -
  have "inline (quote_body s)"
  proof (induction s rule: runes.induct)
    case (2 c s)
    then show ?case
      using inline_quote_rune [of "c # s"] by (simp add: quote_body_def runes.simps(2))
  qed (simp add: quote_body_def)
  then show ?thesis
    by (simp add: quote_def)
qed

lemma inline_num: "list_all num_char n \<Longrightarrow> inline n"
  by (auto simp: inline_def list_all_iff num_char_def digit_def between_def)

lemma set_commas: "set (commas xs) \<subseteq> insert TComma (\<Union> (set ` set xs))"
  by (induction xs rule: commas.induct) auto

lemma toks_printable: "printable j \<Longrightarrow> t \<in> set (toks j) \<Longrightarrow> printable_token t"
proof (induction j arbitrary: t rule: toks.induct)
  case (5 vs)
  have "printable_token TLBrack" "printable_token TRBrack" "printable_token TComma"
    by (simp_all add: printable_token_def)
  then show ?case
    using 5 set_commas [of "map toks vs"] by (auto simp: list_all_iff)
next
  case (6 ms)
  have p: "printable_token TLBrace" "printable_token TRBrace" "printable_token TComma" "printable_token TColon"
    by (simp_all add: printable_token_def)
  consider "t \<in> {TLBrace, TRBrace, TComma, TColon}"
    | k v where "(k, v) \<in> set ms" "t = TStr k \<or> t \<in> set (toks v)"
    using "6.prems"(2) set_commas [of "map (\<lambda>(k, v). TStr k # TColon # toks v) ms"] by auto
  then show ?case
  proof cases
    case 2
    then show ?thesis
      using "6.prems"(1) "6.IH" by (auto simp: list_all_iff printable_token_def)
  qed (use p in auto)
qed (auto simp: printable_token_def)

lemma inline_token: "printable_token t \<Longrightarrow> inline (token_text t)"
  by (cases t) (simp_all add: printable_token_def inline_quote inline_num)

lemma inline_print: "printable j \<Longrightarrow> inline (json_print j)"
  unfolding json_print_def by (rule inline_concat) (auto dest: toks_printable intro: inline_token)

section \<open>Decoding into Go values\<close>

type_synonym 'a dec = "json \<Rightarrow> 'a \<Rightarrow> bool \<times> 'a"

definition dec_string :: "string dec" where
  "dec_string j old = (case j of JNull \<Rightarrow> (True, old) | JStr s \<Rightarrow> (True, s) | _ \<Rightarrow> (False, old))"

definition dec_bool :: "bool dec" where
  "dec_bool j old = (case j of JNull \<Rightarrow> (True, old) | JBool b \<Rightarrow> (True, b) | _ \<Rightarrow> (False, old))"

definition dec_int :: "int dec" where
  "dec_int j old = (case j of
     JNull \<Rightarrow> (True, old)
   | JNum n \<Rightarrow> (case ParseInt n of Some i \<Rightarrow> (True, i) | None \<Rightarrow> (False, old))
   | _ \<Rightarrow> (False, old))"

text \<open>A \<open>json.RawMessage\<close> keeps the value, \<open>null\<close> included; absent, it stays nil.\<close>

definition dec_raw :: "json option dec" where
  "dec_raw j old = (True, Some j)"

definition dec_ptr :: "'a \<Rightarrow> 'a dec \<Rightarrow> 'a option dec" where
  "dec_ptr zero d j old = (case j of
     JNull \<Rightarrow> (True, None)
   | _ \<Rightarrow> map_prod id Some (d j (case old of None \<Rightarrow> zero | Some v \<Rightarrow> v)))"

text \<open>The elements of a slice are decoded over the ones it already has.\<close>

fun dec_elements :: "'a \<Rightarrow> 'a dec \<Rightarrow> json list \<Rightarrow> 'a list \<Rightarrow> bool \<times> 'a list" where
  "dec_elements zero d [] old = (True, [])"
| "dec_elements zero d (j # js) old =
     (let (b, v) = d j (case old of [] \<Rightarrow> zero | v # _ \<Rightarrow> v);
          (b', vs) = dec_elements zero d js (tl old) in
      (b \<and> b', v # vs))"

definition dec_slice :: "'a \<Rightarrow> 'a dec \<Rightarrow> 'a list dec" where
  "dec_slice zero d j old = (case j of
     JNull \<Rightarrow> (True, [])
   | JArr js \<Rightarrow> dec_elements zero d js old
   | _ \<Rightarrow> (False, old))"

text \<open>Case folding of a member name: of the runes outside ASCII only the long s and the Kelvin sign fold
  to ASCII letters.\<close>

definition fold_rune :: "string \<Rightarrow> string" where
  "fold_rune r =
     (if r = utf8 0x17F then ''S'' else if r = utf8 0x212A then ''K''
      else case r of [c] \<Rightarrow> if between 97 122 c then [char_of (byte c - 32)] else r | _ \<Rightarrow> r)"

definition fold_name :: "string \<Rightarrow> string" where
  "fold_name s = concat (map fold_rune (runes s))"

type_synonym 'r field = "string \<times> 'r dec"

definition field_of :: "string \<Rightarrow> ('r \<Rightarrow> 'a) \<Rightarrow> (('a \<Rightarrow> 'a) \<Rightarrow> 'r \<Rightarrow> 'r) \<Rightarrow> 'a dec \<Rightarrow> 'r field" where
  "field_of name sel upd d = (name, \<lambda>j r. let (b, v) = d j (sel r) in (b, upd (\<lambda>_. v) r))"

definition find_field :: "'r field list \<Rightarrow> string \<Rightarrow> 'r dec option" where
  "find_field fs k =
     (case List.find (\<lambda>f. fst f = k) fs of
        Some f \<Rightarrow> Some (snd f)
      | None \<Rightarrow> map_option snd (List.find (\<lambda>f. fold_name (fst f) = fold_name k) fs))"

fun decode_members :: "'r field list \<Rightarrow> (string \<times> json) list \<Rightarrow> 'r \<Rightarrow> bool \<times> 'r" where
  "decode_members fs [] r = (True, r)"
| "decode_members fs ((k, j) # ms) r =
     (case find_field fs k of
        None \<Rightarrow> decode_members fs ms r
      | Some d \<Rightarrow> (let (b, r') = d j r; (b', r'') = decode_members fs ms r' in (b \<and> b', r'')))"

definition decode_struct :: "'r field list \<Rightarrow> 'r dec" where
  "decode_struct fs j r = (case j of
     JNull \<Rightarrow> (True, r)
   | JObj ms \<Rightarrow> decode_members fs ms r
   | _ \<Rightarrow> (False, r))"

definition json_Unmarshal :: "'a dec \<Rightarrow> string \<Rightarrow> 'a \<Rightarrow> goerr option \<times> 'a" where
  "json_Unmarshal d data old =
     (case json_parse data of
        None \<Rightarrow> (Some (Opaque ''json: syntax error''), old)
      | Some j \<Rightarrow> let (b, v) = d j old in
          (if b then None else Some (Opaque ''json: cannot unmarshal''), v))"

lemma dec_simps [simp]:
  "dec_string (JStr s) old = (True, s)" "dec_string JNull old = (True, old)"
  "dec_bool (JBool b) old' = (True, b)" "dec_bool JNull old' = (True, old')"
  "dec_int JNull old'' = (True, old'')"
  "dec_ptr z d JNull p = (True, None)"
  "dec_ptr z d (JStr s) p = map_prod id Some (d (JStr s) (case p of None \<Rightarrow> z | Some v \<Rightarrow> v))"
  "dec_ptr z d (JNum s) p = map_prod id Some (d (JNum s) (case p of None \<Rightarrow> z | Some v \<Rightarrow> v))"
  "dec_ptr z d (JObj ms) p = map_prod id Some (d (JObj ms) (case p of None \<Rightarrow> z | Some v \<Rightarrow> v))"
  "dec_slice z d (JArr js) vs = dec_elements z d js vs" "dec_slice z d JNull vs = (True, [])"
  "decode_struct fs (JObj ms) r = decode_members fs ms r" "decode_struct fs JNull r = (True, r)"
  by (simp_all add: dec_string_def dec_bool_def dec_int_def dec_ptr_def dec_slice_def decode_struct_def)

lemmas field_defs = find_field_def field_of_def

definition JInt :: "int \<Rightarrow> json" where
  "JInt i = JNum (FormatInt i)"

lemma JInt_depth [simp]: "json_depth (JInt i) = 0"
  by (simp add: JInt_def)

lemma dec_int_JInt [simp]: "in_int64 i \<Longrightarrow> dec_int (JInt i) old = (True, i)"
  by (simp add: dec_int_def JInt_def ParseInt_FormatInt)

lemma digits_first: "n \<noteq> 0 \<Longrightarrow> \<exists>c s. digits n = c # s \<and> digit c \<and> c \<noteq> CHR ''0'' \<and> list_all digit s"
proof (induction n rule: less_induct)
  case (less n)
  show ?case
  proof (cases "n < 10")
    case True
    then have "digits n = [char_of (48 + n)]"
      by (subst digits.simps) simp
    moreover have "CHR ''0'' = char_of (48 :: nat)"
      by code_simp
    then have "char_of (48 + n) \<noteq> CHR ''0''"
      using True less.prems by (auto dest!: arg_cong [where f = "byte"] simp del: byte_Char)
    ultimately show ?thesis
      using True by (simp add: digit_def between_def)
  next
    case False
    have "digit (char_of (48 + n mod 10))"
      by (simp add: digit_def between_def)
    moreover have "n div 10 < n" "n div 10 \<noteq> 0"
      using False by auto
    ultimately show ?thesis
      using less.IH [of "n div 10"] False by (subst digits.simps) auto
  qed
qed

lemma JInt_printable [simp]: "printable (JInt i)"
proof -
  have d: "json_number (digits n) \<and> list_all num_char (digits n)" for n
  proof (cases "n = 0")
    case True
    have "digits 0 = ''0''"
      by (subst digits.simps) code_simp
    then show ?thesis
      using True by (simp add: json_number_def frac_part_def num_char_def digit_def between_def)
  next
    case False
    then obtain c s where cs: "digits n = c # s" "digit c" "c \<noteq> CHR ''0''" "list_all digit s"
      using digits_first by blast
    then have e: "dropWhile digit s = []" and "c \<noteq> CHR ''-''"
      by (auto simp: list_all_iff digit_def between_def)
    moreover have "frac_part (dropWhile digit s)"
      unfolding e by (simp add: frac_part_def)
    ultimately show ?thesis
      using cs by (simp add: json_number_def num_char_def list_all_iff)
  qed
  have m: "json_number (CHR ''-'' # digits n)" for n
    using d [of n] digits_no_sign [of n] by (simp add: json_number_def)
  show ?thesis
    using d m by (simp add: JInt_def FormatInt_def num_char_def)
qed

end
