(* ===== verification/MessageBuilder.thy ===== *)
theory MessageBuilder
  imports Domain Json
begin

text \<open>
  The JSON-RPC payload of a send, \<open>internal/signal/message_builder.go\<close>, with its JSON form, and the daemon's answer to it
  (\<open>SendResult\<close> of \<open>internal/signal/tcp_client.go\<close>).
\<close>

record SendParams =
  sp_Account :: string
  sp_Message :: string
  sp_Attachments :: "string list"
  sp_Recipient :: "string list"
  sp_GroupID :: "string list"
  sp_QuoteTimestamp :: int
  sp_QuoteAuthor :: string

definition JStrs :: "string list \<Rightarrow> json" where
  "JStrs xs = JArr (map JStr xs)"

definition SendParams_json :: "SendParams \<Rightarrow> json" where
  "SendParams_json p = JObj
     ([(''account'', JStr (sp_Account p)), (''message'', JStr (sp_Message p))] @
      (if sp_Attachments p = [] then [] else [(''attachments'', JStrs (sp_Attachments p))]) @
      (if sp_Recipient p = [] then [] else [(''recipient'', JStrs (sp_Recipient p))]) @
      (if sp_GroupID p = [] then [] else [(''groupId'', JStrs (sp_GroupID p))]) @
      (if sp_QuoteTimestamp p = 0 then [] else [(''quoteTimestamp'', JInt (sp_QuoteTimestamp p))]) @
      (if sp_QuoteAuthor p = '''' then [] else [(''quoteAuthor'', JStr (sp_QuoteAuthor p))]))"

definition nonempty :: "string option \<Rightarrow> bool" where
  "nonempty v = (case v of None \<Rightarrow> False | Some s \<Rightarrow> s \<noteq> '''')"

definition BuildSendParams ::
  "string \<Rightarrow> SignalMessage \<Rightarrow> string list \<Rightarrow> goerr + SendParams" where
  "BuildSendParams account msg paths =
     (if account = '''' then Inl (Opaque ''send params: empty account'')
      else if sm_Content msg = '''' then Inl (Opaque ''send params: empty content'')
      else
        let p = \<lparr>sp_Account = account, sp_Message = sm_Content msg, sp_Attachments = paths,
                 sp_Recipient = [], sp_GroupID = [], sp_QuoteTimestamp = 0, sp_QuoteAuthor = ''''\<rparr> in
        case (if nonempty (sm_Recipient msg) then Some (p\<lparr>sp_Recipient := [the (sm_Recipient msg)]\<rparr>)
              else if nonempty (sm_GroupID msg) then Some (p\<lparr>sp_GroupID := [the (sm_GroupID msg)]\<rparr>)
              else None) of
          None \<Rightarrow> Inl (Opaque ''send params: neither recipient nor groupId set'')
        | Some q \<Rightarrow>
            if nonempty (sm_QuoteResultID msg) then
              (case ParseInt (the (sm_QuoteResultID msg)) of
                 None \<Rightarrow> Inl (Wrapped ''send params: parse quoteResultId'' (Opaque ''strconv.ParseInt''))
               | Some ts \<Rightarrow> Inr (q\<lparr>sp_QuoteTimestamp := ts, sp_QuoteAuthor := account\<rparr>))
            else Inr q)"

record SendResult =
  sr_Timestamp :: int
  sr_Raw :: "json option"

definition ResultID :: "SendResult \<Rightarrow> string" where
  "ResultID r = FormatInt (sr_Timestamp r)"

section \<open>Properties\<close>

text \<open>A payload is built exactly when the account and the content are not empty, a recipient or a
  group is set and a quoted result id, if any, is a decimal 64-bit number; the payload then carries the
  message and names exactly one target, the recipient when both are set.\<close>

theorem BuildSendParams_spec:
  "let quote_ok = (if nonempty (sm_QuoteResultID msg)
                   then ParseInt (the (sm_QuoteResultID msg)) \<noteq> None else True);
       ready = (account \<noteq> '''' \<and> sm_Content msg \<noteq> '''' \<and>
                (nonempty (sm_Recipient msg) \<or> nonempty (sm_GroupID msg)) \<and> quote_ok) in
   case BuildSendParams account msg paths of
     Inl e \<Rightarrow> \<not> ready
   | Inr p \<Rightarrow> ready \<and> sp_Account p = account \<and> sp_Message p = sm_Content msg \<and>
       sp_Attachments p = paths \<and>
       (if nonempty (sm_Recipient msg) then sp_Recipient p = [the (sm_Recipient msg)] \<and> sp_GroupID p = []
        else sp_Recipient p = [] \<and> sp_GroupID p = [the (sm_GroupID msg)]) \<and>
       (if nonempty (sm_QuoteResultID msg)
        then ParseInt (the (sm_QuoteResultID msg)) = Some (sp_QuoteTimestamp p) \<and> sp_QuoteAuthor p = account
        else sp_QuoteTimestamp p = 0 \<and> sp_QuoteAuthor p = '''')"
  by (auto simp: BuildSendParams_def Let_def split: option.splits)

text \<open>A message that quotes the result id stored for an earlier send quotes exactly that send's
  timestamp.\<close>

theorem ResultID_quote_roundtrip:
  assumes "sm_QuoteResultID msg = Some (ResultID r)" and "in_int64 (sr_Timestamp r)"
    and "BuildSendParams account msg paths = Inr p"
  shows "sp_QuoteTimestamp p = sr_Timestamp r"
proof -
  have "FormatInt (sr_Timestamp r) \<noteq> ''''"
    using digits_digits by (auto simp: FormatInt_def)
  then have "nonempty (sm_QuoteResultID msg)"
    using assms(1) by (simp add: nonempty_def ResultID_def)
  then show ?thesis
    using assms(1,3) ParseInt_FormatInt [OF assms(2)]
    by (auto simp: BuildSendParams_def Let_def ResultID_def split: if_splits)
qed

definition sample_message :: SignalMessage where
  "sample_message = \<lparr>sm_ID = 1, sm_ExternalID = ''e'', sm_IdempotencyKey = None,
     sm_Recipient = Some ''+1'', sm_GroupID = None, sm_SenderPhoneNumber = ''+2'', sm_Content = ''hi'',
     sm_Attachments = [], sm_Attempts = 1, sm_MaxAttempts = 5, sm_NextAttemptAt = 0, sm_TimeoutAt = None,
     sm_Status = StatusSending, sm_LastError = None, sm_ResultID = None,
     sm_QuoteResultID = Some (ResultID \<lparr>sr_Timestamp = 1700000000123, sr_Raw = None\<rparr>),
     sm_CorrelationID = ''c'', sm_CreatedAt = 0, sm_ModifiedAt = 0\<rparr>"

theorem ResultID_quote_roundtrip_witness:
  "\<exists>p. BuildSendParams ''+2'' sample_message [] = Inr p \<and> sp_QuoteTimestamp p = 1700000000123"
proof -
  have ne: "FormatInt 1700000000123 \<noteq> ''''"
    using digits_digits by (auto simp: FormatInt_def)
  have "ParseInt (FormatInt 1700000000123) = Some 1700000000123"
    by (rule ParseInt_FormatInt) (simp add: in_int64_def)
  with ne have "\<exists>p. BuildSendParams ''+2'' sample_message [] = Inr p"
    by (simp add: BuildSendParams_def sample_message_def nonempty_def ResultID_def Let_def)
  then obtain p where p: "BuildSendParams ''+2'' sample_message [] = Inr p" by blast
  have "sp_QuoteTimestamp p = sr_Timestamp \<lparr>sr_Timestamp = 1700000000123, sr_Raw = None\<rparr>"
    by (rule ResultID_quote_roundtrip [OF _ _ p]) (simp_all add: sample_message_def in_int64_def)
  with p show ?thesis by simp
qed

section \<open>Lemmas for clients\<close>

lemma BuildSendParams_fields:
  assumes "BuildSendParams account msg paths = Inr p"
  shows "sp_Account p = account" and "sp_Message p = sm_Content msg" and "sp_Attachments p = paths"
    and "sp_Recipient p = (if nonempty (sm_Recipient msg) then [the (sm_Recipient msg)] else [])"
    and "sp_GroupID p = (if nonempty (sm_Recipient msg) then [] else [the (sm_GroupID msg)])"
  using assms by (auto simp: BuildSendParams_def Let_def split: if_splits option.splits)

end
