(* ===== verification/Backoff.thy ===== *)
theory Backoff
  imports Complex_Main Prelude
begin

text \<open>
  The retry delay, \<open>internal/service/backoff.go\<close>, with the IEEE 754 arithmetic it is computed in. A
  \<open>float64\<close> is a rational, an infinity or NaN; \<open>round_f64\<close> is the rounding to the nearest double,
  ties to even, and \<open>fin\<close> turns a result beyond the largest double into an infinity. The uniform draw
  of \<open>rand.Float64\<close> is the argument \<open>u\<close>; what Go's conversion of a float to \<open>int64\<close> gives outside the
  range of the type is left to the implementation by the language, and the argument \<open>oob\<close> here.
\<close>

section \<open>Doubles\<close>

datatype f64 = Fin rat | PInf | NInf | NaN

definition pow2 :: "int \<Rightarrow> rat" where
  "pow2 k = (if 0 \<le> k then 2 ^ nat k else 1 / 2 ^ nat (- k))"

fun bits :: "nat \<Rightarrow> nat" where
  "bits n = (if n = 0 then 0 else Suc (bits (n div 2)))"

declare bits.simps [simp del]

text \<open>The exponent of a positive rational: the largest \<open>e\<close> with \<open>pow2 e \<le> x\<close>.\<close>

definition exponent :: "rat \<Rightarrow> int" where
  "exponent x =
     (let (p, q) = quotient_of x; k = int (bits (nat p)) - int (bits (nat q)) in
      if pow2 k \<le> x then k else k - 1)"

definition round_even :: "rat \<Rightarrow> int" where
  "round_even x =
     (let f = \<lfloor>x\<rfloor>; d = x - of_int f in
      if d < 1 / 2 then f else if 1 / 2 < d then f + 1 else if even f then f else f + 1)"

definition round_pos :: "rat \<Rightarrow> rat" where
  "round_pos x =
     (let s = max (exponent x) (- 1022) - 52 in of_int (round_even (x * pow2 (- s))) * pow2 s)"

definition round_f64 :: "rat \<Rightarrow> rat" where
  "round_f64 x = (if x = 0 then 0 else if 0 < x then round_pos x else - round_pos (- x))"

definition fin :: "rat \<Rightarrow> f64" where
  "fin x = (let r = round_f64 x in
     if 2 ^ 1024 \<le> r then PInf else if r \<le> - (2 ^ 1024) then NInf else Fin r)"

text \<open>The operations of the code: conversion from an integer, product, \<open>math.Pow(2, n)\<close> for an
  integer \<open>n\<close>, comparison, and the conversion to a duration.\<close>

definition float64 :: "int \<Rightarrow> f64" where
  "float64 n = fin (of_int n)"

definition inf_times :: "bool \<Rightarrow> rat \<Rightarrow> f64" where
  "inf_times pos x = (if x = 0 then NaN else if (0 < x) = pos then PInf else NInf)"

fun f64_mul :: "f64 \<Rightarrow> f64 \<Rightarrow> f64" where
  "f64_mul (Fin a) (Fin b) = fin (a * b)"
| "f64_mul (Fin a) PInf = inf_times True a"
| "f64_mul (Fin a) NInf = inf_times False a"
| "f64_mul PInf (Fin b) = inf_times True b"
| "f64_mul NInf (Fin b) = inf_times False b"
| "f64_mul PInf PInf = PInf"
| "f64_mul PInf NInf = NInf"
| "f64_mul NInf PInf = NInf"
| "f64_mul NInf NInf = PInf"
| "f64_mul NaN y = NaN"
| "f64_mul x NaN = NaN"

definition Pow2 :: "int \<Rightarrow> f64" where
  "Pow2 n = (if 1024 \<le> n then PInf else fin (pow2 n))"

fun f64_gt :: "f64 \<Rightarrow> f64 \<Rightarrow> bool" where
  "f64_gt (Fin a) (Fin b) = (a > b)"
| "f64_gt PInf (Fin b) = True"
| "f64_gt PInf NInf = True"
| "f64_gt (Fin a) NInf = True"
| "f64_gt x y = False"

definition toward_zero :: "rat \<Rightarrow> int" where
  "toward_zero x = (if 0 \<le> x then \<lfloor>x\<rfloor> else \<lceil>x\<rceil>)"

definition Duration :: "(f64 \<Rightarrow> int) \<Rightarrow> f64 \<Rightarrow> duration" where
  "Duration oob x = (case x of
     Fin r \<Rightarrow> if in_int64 (toward_zero r) then toward_zero r else oob x
   | _ \<Rightarrow> oob x)"

section \<open>The delay\<close>

definition Backoff :: "(f64 \<Rightarrow> int) \<Rightarrow> rat \<Rightarrow> int \<Rightarrow> duration \<Rightarrow> duration \<Rightarrow> duration" where
  "Backoff oob u attempts base mx =
     (if attempts \<le> 0 then 0
      else let raw = f64_mul (float64 base) (Pow2 (attempts - 1));
               jitter = f64_mul (Fin u) raw in
           if f64_gt jitter (float64 mx) then mx else Duration oob jitter)"

section \<open>Rounding lemmas\<close>

lemma pow2_pos [simp]: "0 < pow2 k"
  by (simp add: pow2_def)

lemma pow2_int: "0 \<le> k \<Longrightarrow> pow2 k = of_int (2 ^ nat k)"
  by (simp add: pow2_def)

lemma pow2_cancel [simp]: "pow2 (- k) * pow2 k = 1"
  by (cases "0 \<le> k"; cases "k = 0") (auto simp: pow2_def)

lemma round_even_int [simp]: "round_even (of_int n) = n"
  by (simp add: round_even_def)

lemma round_even_nonneg: "0 \<le> x \<Longrightarrow> 0 \<le> round_even x"
  by (auto simp: round_even_def Let_def)

lemma round_f64_nonneg: "0 \<le> x \<Longrightarrow> 0 \<le> round_f64 x"
  by (auto simp: round_f64_def round_pos_def Let_def order_less_imp_le
    intro!: mult_nonneg_nonneg round_even_nonneg)

lemma bits_le: "n < 2 ^ k \<Longrightarrow> bits n \<le> k"
proof (induction k arbitrary: n)
  case 0
  then show ?case by (simp add: bits.simps)
next
  case (Suc k)
  then have "bits (n div 2) \<le> k" by (intro Suc.IH) auto
  then show ?case by (subst bits.simps) simp
qed

lemma exponent_nat: "exponent (of_int (int n)) \<le> int (bits n) - 1"
proof -
  have "quotient_of (of_int (int n)) = (int n, 1)"
    by (simp add: of_int_rat quotient_of_Fract Rat.normalize_def)
  moreover have "bits 1 = 1"
    by (simp add: bits.simps)
  ultimately show ?thesis
    by (simp add: exponent_def Let_def)
qed

text \<open>Integers of up to 53 bits are doubles.\<close>

lemma round_f64_exact:
  assumes "0 \<le> n" and "n \<le> 2 ^ 53"
  shows "round_f64 (of_int n) = of_int n"
proof (cases "n = 0")
  case False
  define s where "s = max (exponent (of_int n)) (- 1022) - 52"
  have n: "0 < n" using False assms by simp
  have "\<exists>m. of_int n * pow2 (- s) = (of_int m :: rat)"
  proof (cases "n = 2 ^ 53")
    case True
    have "bits (2 ^ 53) \<le> 54" by (rule bits_le) simp
    then have "s \<le> 1"
      using exponent_nat [of "2 ^ 53"] by (simp add: s_def True)
    then have "of_int n * pow2 (- s) = (of_int (2 ^ nat (53 - s)) :: rat)"
    proof (cases "s = 1")
      case True
      then show ?thesis by (simp add: \<open>n = 2 ^ 53\<close> pow2_def)
    next
      case False
      with \<open>s \<le> 1\<close> have "nat (53 - s) = 53 + nat (- s)" by simp
      then show ?thesis
        using False \<open>s \<le> 1\<close> by (simp add: \<open>n = 2 ^ 53\<close> pow2_def power_add)
    qed
    then show ?thesis by blast
  next
    case False
    with assms have "nat n < 2 ^ 53" by (simp add: nat_less_iff)
    from bits_le [OF this] have "s \<le> 0"
      using exponent_nat [of "nat n"] n by (simp add: s_def)
    then have "of_int n * pow2 (- s) = (of_int (n * 2 ^ nat (- s)) :: rat)"
      by (simp add: pow2_int)
    then show ?thesis by blast
  qed
  then obtain m where m: "of_int n * pow2 (- s) = (of_int m :: rat)" by blast
  have "of_int m * pow2 s = of_int n * (pow2 (- s) * pow2 s)"
    by (simp only: m [symmetric] mult.assoc)
  with n show ?thesis
    by (simp add: round_f64_def round_pos_def Let_def m flip: s_def)
qed (simp add: round_f64_def)

lemma float64_exact: "0 \<le> n \<Longrightarrow> n \<le> 2 ^ 53 \<Longrightarrow> float64 n = Fin (of_int n)"
proof -
  assume n: "0 \<le> n" "n \<le> 2 ^ 53"
  have "(2::rat) ^ 53 < 2 ^ 1024" by simp
  moreover have "(of_int n :: rat) \<le> 2 ^ 53"
    using n(2) by (metis of_int_le_iff of_int_numeral of_int_power)
  moreover have "\<not> of_int n \<le> - (2 ^ 1024 :: rat)"
    using n(1) by (simp add: not_le)
  ultimately show ?thesis
    using round_f64_exact [OF n] by (simp add: float64_def fin_def Let_def)
qed

section \<open>Properties\<close>

lemma max_double_pos: "0 < (2::rat) ^ 1024"
  by (rule zero_less_power) (rule zero_less_numeral)

lemma fin_nonneg:
  assumes "0 \<le> x"
  obtains "fin x = PInf" | r where "0 \<le> r" and "fin x = Fin r"
proof -
  have "0 \<le> round_f64 x" using assms by (rule round_f64_nonneg)
  then have "\<not> round_f64 x \<le> - y" if "0 < y" for y
    using that by linarith
  from this [OF max_double_pos] \<open>0 \<le> round_f64 x\<close> that show ?thesis
    unfolding fin_def Let_def by (cases "2 ^ 1024 \<le> round_f64 x") simp_all
qed

lemma Pow2_nonneg:
  obtains "Pow2 n = PInf" | r where "0 \<le> r" and "Pow2 n = Fin r"
proof (cases "1024 \<le> n")
  case True
  then show ?thesis using that by (simp add: Pow2_def)
next
  case False
  then have "Pow2 n = fin (pow2 n)" by (simp add: Pow2_def)
  then show ?thesis
    using that fin_nonneg [of "pow2 n"] pow2_pos [of n] by (metis order_less_imp_le)
qed

lemma f64_mul_nonneg:
  assumes "x = PInf \<or> (\<exists>r \<ge> 0. x = Fin r)" and "0 < a"
  shows "f64_mul (Fin a) x = PInf \<or> (\<exists>r \<ge> 0. f64_mul (Fin a) x = Fin r)"
proof -
  consider "x = PInf" | r where "0 \<le> r" "x = Fin r" using assms(1) by blast
  then show ?thesis
  proof cases
    case 2
    then have "0 \<le> a * r" using assms(2) by simp
    then show ?thesis using 2(2) by (cases rule: fin_nonneg) simp_all
  qed (use assms(2) in \<open>simp add: inf_times_def\<close>)
qed

lemma Duration_floor:
  assumes "0 \<le> r" and "r \<le> of_int n" and "n \<le> 2 ^ 53"
  shows "0 \<le> Duration oob (Fin r) \<and> Duration oob (Fin r) \<le> n"
proof -
  have "0 \<le> \<lfloor>r\<rfloor>" "\<lfloor>r\<rfloor> \<le> n" using assms(1,2) by (simp_all add: floor_le_iff)
  then show ?thesis
    using assms by (simp add: Duration_def toward_zero_def in_int64_def)
qed



text \<open>Where the exponential overflows, a draw of zero gives NaN, which is not above the ceiling,
  so the delay is the implementation's conversion of NaN, not a bounded value.\<close>

theorem Backoff_overflow_nan:
  assumes "0 < base" and "base \<le> 2 ^ 53" and "1025 \<le> attempts"
  shows "Backoff oob 0 attempts base mx = oob NaN"
proof -
  have "f64_mul (float64 base) (Pow2 (attempts - 1)) = PInf"
    using assms by (simp add: float64_exact Pow2_def inf_times_def)
  with assms(3) show ?thesis
    by (simp add: Backoff_def inf_times_def Duration_def)
qed

theorem Backoff_overflow_nan_witness:
  "Backoff (\<lambda>_. - (2 ^ 63)) 0 1025 1000000000 300000000000 = - (2 ^ 63)"
  using Backoff_overflow_nan [of 1000000000 1025 "\<lambda>_. - (2 ^ 63)"] by simp

end
