(* ===== verification/Worker.thy ===== *)
theory Worker
  imports SendService MessageBuilder Backoff
begin

text \<open>
  The outbox worker, \<open>internal/worker/worker.go\<close>. The worker's collaborators are records of operations on
  a state \<open>'s\<close>, one record per interface of the source; the Go runtime it uses (the clock, contexts, the
  random draw, waiting on a timer or a context) is the record \<open>worker_runtime\<close>. Log lines are not
  modelled: no code reads them.
\<close>

section \<open>Interfaces\<close>

record 's worker_runtime =
  wr_Now :: "'s \<Rightarrow> gotime"
  wr_Err :: "ctx \<Rightarrow> 's \<Rightarrow> bool"
  wr_Wait :: "ctx \<Rightarrow> duration \<Rightarrow> 's \<Rightarrow> bool \<times> 's"
  wr_Float64 :: "'s \<Rightarrow> rat \<times> 's"
  wr_oob :: "f64 \<Rightarrow> int"
  wr_UUIDString :: "uuid \<Rightarrow> string"
  wr_Error :: "goerr \<Rightarrow> string"

record 's Metrics =
  mt_ObserveClaim :: "duration \<Rightarrow> 's \<Rightarrow> 's"
  mt_ObserveSend :: "duration \<Rightarrow> bool \<Rightarrow> 's \<Rightarrow> 's"
  mt_IncTerminal :: "string \<Rightarrow> 's \<Rightarrow> 's"
  mt_IncTerminalN :: "string \<Rightarrow> int \<Rightarrow> 's \<Rightarrow> 's"
  mt_IncRetry :: "'s \<Rightarrow> 's"
  mt_SetBacklog :: "int \<Rightarrow> duration \<Rightarrow> 's \<Rightarrow> 's"

record 's WorkerRepo =
  wk_ClaimPending :: "ctx \<Rightarrow> duration \<Rightarrow> 's \<Rightarrow> (goerr + SignalMessage) \<times> 's"
  wk_MarkSent :: "ctx \<Rightarrow> uuid \<Rightarrow> string \<Rightarrow> 's \<Rightarrow> goerr option \<times> 's"
  wk_MarkFailed :: "ctx \<Rightarrow> uuid \<Rightarrow> string \<Rightarrow> gotime \<Rightarrow> 's \<Rightarrow> goerr option \<times> 's"

record 's Downloader =
  dl_DownloadAll :: "ctx \<Rightarrow> string \<Rightarrow> ObjectRef list \<Rightarrow> 's \<Rightarrow> (goerr + string list) \<times> 's"
  dl_CleanupLocal :: "ctx \<Rightarrow> string \<Rightarrow> 's \<Rightarrow> 's"

record 's Sender =
  sn_Send :: "ctx \<Rightarrow> SendParams \<Rightarrow> 's \<Rightarrow> (goerr + SendResult) \<times> 's"

record 's FailureNotifier =
  fn_Enabled :: "'s \<Rightarrow> bool"
  fn_NotifyPermanentFailure :: "ctx \<Rightarrow> SignalMessage \<Rightarrow> goerr \<Rightarrow> 's \<Rightarrow> 's"

record 's Worker =
  wk_repo :: "'s WorkerRepo"
  wk_store :: "'s Downloader"
  wk_signal :: "'s Sender"
  wk_notifier :: "'s FailureNotifier option"
  wk_metrics :: "'s Metrics"
  wk_cfg :: WorkerConfig
  wk_account :: string

definition NewWorker ::
  "'s WorkerRepo \<Rightarrow> 's Downloader \<Rightarrow> 's Sender \<Rightarrow> 's FailureNotifier option \<Rightarrow> 's Metrics \<Rightarrow> Install \<Rightarrow>
     's Worker" where
  "NewWorker r store sender notifier m install =
     \<lparr>wk_repo = r, wk_store = store, wk_signal = sender, wk_notifier = notifier, wk_metrics = m,
      wk_cfg = inst_Worker install, wk_account = scc_SenderPhoneNumber (inst_SignalCli install)\<rparr>"

section \<open>Helpers\<close>

definition toRefs :: "Attachments \<Rightarrow> ObjectRef list" where
  "toRefs att =
     (if att = [] then []
      else map (\<lambda>a. \<lparr>or_Bucket = att_Bucket a, or_Key = att_Filename a\<rparr>) att)"

text \<open>\<open>rand.Int64N(n)\<close> panics for \<open>n \<le> 0\<close>: \<open>None\<close>. Otherwise the draw \<open>r\<close> is below \<open>n\<close>.\<close>

definition jitter :: "int \<Rightarrow> duration \<Rightarrow> duration option" where
  "jitter r d =
     (if d \<le> 0 then Some d
      else if go_div d 2 \<le> 0 then None
      else Some (d - go_div d 4 + r))"

definition sleepCtx :: "'s worker_runtime \<Rightarrow> ctx \<Rightarrow> duration \<Rightarrow> 's \<Rightarrow> bool \<times> 's" where
  "sleepCtx rt ctx d s = wr_Wait rt ctx d s"

definition WithTimeout :: "gotime \<Rightarrow> ctx \<Rightarrow> duration \<Rightarrow> ctx" where
  "WithTimeout now parent d =
     (case parent of None \<Rightarrow> Some (now + d) | Some p \<Rightarrow> Some (min p (now + d)))"

definition metric_sent :: string where "metric_sent = ''sent''"
definition metric_permanent_failed :: string where "metric_permanent_failed = ''permanent_failed''"
definition metric_timed_out :: string where "metric_timed_out = ''timed_out''"

section \<open>Marking the outcome\<close>

definition mark_attempts :: nat where "mark_attempts = 3"

text \<open>The retry loop of \<open>markSent\<close>, with \<open>n\<close> iterations left; \<open>err\<close> is the last error.\<close>

fun markSent_loop ::
  "'s worker_runtime \<Rightarrow> 's Worker \<Rightarrow> ctx \<Rightarrow> uuid \<Rightarrow> string \<Rightarrow> nat \<Rightarrow> goerr option \<Rightarrow> 's \<Rightarrow>
     goerr option \<times> 's" where
  "markSent_loop rt w ctx i resultID 0 err s = (err, s)"
| "markSent_loop rt w ctx i resultID (Suc n) err0 s =
     (case wk_MarkSent (wk_repo w) ctx i resultID s of
        (None, s1) \<Rightarrow> (None, s1)
      | (Some err, s1) \<Rightarrow>
          if wr_Err rt ctx s1 then (Some err, s1)
          else if n > 0 then
            (case sleepCtx rt ctx (int (mark_attempts - n) * 50 * Millisecond) s1 of
               (False, s2) \<Rightarrow> (Some err, s2)
             | (True, s2) \<Rightarrow> markSent_loop rt w ctx i resultID n (Some err) s2)
          else (Some err, s1))"

definition markSent ::
  "'s worker_runtime \<Rightarrow> 's Worker \<Rightarrow> ctx \<Rightarrow> uuid \<Rightarrow> string \<Rightarrow> 's \<Rightarrow> goerr option \<times> 's" where
  "markSent rt w ctx i resultID s = markSent_loop rt w ctx i resultID mark_attempts None s"

definition fail ::
  "'s worker_runtime \<Rightarrow> 's Worker \<Rightarrow> ctx \<Rightarrow> SignalMessage \<Rightarrow> goerr \<Rightarrow> 's \<Rightarrow> 's" where
  "fail rt w ctx msg cause s =
     (let (u, s1) = wr_Float64 rt s;
          nxt = wr_Now rt s + Backoff (wr_oob rt) u (sm_Attempts msg)
                  (wc_BaseBackoff (wk_cfg w)) (wc_MaxBackoff (wk_cfg w)) in
      case wk_MarkFailed (wk_repo w) ctx (sm_ID msg) (wr_Error rt cause) nxt s1 of
        (Some err, s2) \<Rightarrow> s2
      | (None, s2) \<Rightarrow>
          if sm_Attempts msg \<ge> sm_MaxAttempts msg then
            (let s3 = mt_IncTerminal (wk_metrics w) metric_permanent_failed s2 in
             case wk_notifier w of
               None \<Rightarrow> s3
             | Some nt \<Rightarrow> if fn_Enabled nt s3 then fn_NotifyPermanentFailure nt ctx msg cause s3 else s3)
          else mt_IncRetry (wk_metrics w) s2)"

section \<open>Dispatch\<close>

text \<open>The part of \<open>dispatch\<close> after the downloads, under the deferred clean-up.\<close>

definition dispatch_send ::
  "'s worker_runtime \<Rightarrow> 's Worker \<Rightarrow> ctx \<Rightarrow> SignalMessage \<Rightarrow> string list \<Rightarrow> 's \<Rightarrow> 's" where
  "dispatch_send rt w sendCtx msg paths s =
     (case BuildSendParams (wk_account w) msg paths of
        Inl err \<Rightarrow> fail rt w sendCtx msg err s
      | Inr params \<Rightarrow>
          (let sendStart = wr_Now rt s;
               (res, s1) = sn_Send (wk_signal w) sendCtx params s;
               s2 = mt_ObserveSend (wk_metrics w) (wr_Now rt s1 - sendStart) (\<not> isl res) s1 in
           case res of
             Inl err \<Rightarrow> fail rt w sendCtx msg err s2
           | Inr r \<Rightarrow>
               (case markSent rt w sendCtx (sm_ID msg) (ResultID r) s2 of
                  (Some err, s3) \<Rightarrow> s3
                | (None, s3) \<Rightarrow> mt_IncTerminal (wk_metrics w) metric_sent s3)))"

definition dispatch ::
  "'s worker_runtime \<Rightarrow> 's Worker \<Rightarrow> ctx \<Rightarrow> SignalMessage \<Rightarrow> 's \<Rightarrow> 's" where
  "dispatch rt w ctx msg s =
     (let sendCtx = WithTimeout (wr_Now rt s) ctx (wc_PerAttemptTimeout (wk_cfg w));
          refs = toRefs (sm_Attachments msg);
          mid = wr_UUIDString rt (sm_ID msg) in
      case dl_DownloadAll (wk_store w) sendCtx mid refs s of
        (Inl err, s1) \<Rightarrow> fail rt w sendCtx msg (Wrapped ''download attachments'' err) s1
      | (Inr paths, s1) \<Rightarrow>
          dl_CleanupLocal (wk_store w) sendCtx mid (dispatch_send rt w sendCtx msg paths s1))"

definition tick :: "'s worker_runtime \<Rightarrow> 's Worker \<Rightarrow> ctx \<Rightarrow> 's \<Rightarrow> bool \<times> 's" where
  "tick rt w ctx s =
     (let start = wr_Now rt s;
          (x, s1) = wk_ClaimPending (wk_repo w) ctx (wc_LeaseDuration (wk_cfg w)) s;
          s2 = mt_ObserveClaim (wk_metrics w) (wr_Now rt s1 - start) s1 in
      case x of
        Inl err \<Rightarrow> (False, s2)
      | Inr msg \<Rightarrow> (True, dispatch rt w ctx msg s2))"

text \<open>The inner loop of \<open>runSingle\<close>: further claims until one finds no row, or the context ends, when
  \<open>runSingle\<close> returns (\<open>True\<close>). \<open>fuel\<close> bounds the loop, which the source leaves unbounded; \<open>None\<close> means
  the bound was reached.\<close>

fun drain :: "nat \<Rightarrow> 's worker_runtime \<Rightarrow> 's Worker \<Rightarrow> ctx \<Rightarrow> 's \<Rightarrow> (bool \<times> 's) option" where
  "drain 0 rt w ctx s = None"
| "drain (Suc fuel) rt w ctx s =
     (case tick rt w ctx s of
        (False, s1) \<Rightarrow> Some (False, s1)
      | (True, s1) \<Rightarrow> if wr_Err rt ctx s1 then Some (True, s1) else drain fuel rt w ctx s1)"

definition on_ticker :: "nat \<Rightarrow> 's worker_runtime \<Rightarrow> 's Worker \<Rightarrow> ctx \<Rightarrow> 's \<Rightarrow> (bool \<times> 's) option" where
  "on_ticker fuel rt w ctx s =
     (case tick rt w ctx s of
        (False, s1) \<Rightarrow> Some (False, s1)
      | (True, s1) \<Rightarrow> drain fuel rt w ctx s1)"

text \<open>\<open>runSingle\<close> over the arms its \<open>select\<close> takes, one after the other: whether it has returned, and the
  state.\<close>

datatype select_arm = Ctx_done | Ticker_fired

fun runSingle ::
  "nat \<Rightarrow> 's worker_runtime \<Rightarrow> 's Worker \<Rightarrow> ctx \<Rightarrow> select_arm list \<Rightarrow> 's \<Rightarrow> (bool \<times> 's) option" where
  "runSingle fuel rt w ctx [] s = Some (False, s)"
| "runSingle fuel rt w ctx (Ctx_done # arms) s = Some (True, s)"
| "runSingle fuel rt w ctx (Ticker_fired # arms) s =
     (case on_ticker fuel rt w ctx s of
        None \<Rightarrow> None
      | Some (True, s1) \<Rightarrow> Some (True, s1)
      | Some (False, s1) \<Rightarrow> runSingle fuel rt w ctx arms s1)"

text \<open>The loop of the periodic jobs: the body once for every firing of the ticker, until the context
  ends.\<close>

fun ticker_loop :: "('s \<Rightarrow> 's) \<Rightarrow> select_arm list \<Rightarrow> 's \<Rightarrow> bool \<times> 's" where
  "ticker_loop body [] s = (False, s)"
| "ticker_loop body (Ctx_done # arms) s = (True, s)"
| "ticker_loop body (Ticker_fired # arms) s = ticker_loop body arms (body s)"

definition poll_interval :: "WorkerConfig \<Rightarrow> duration" where
  "poll_interval cfg = (if wc_PollInterval cfg \<le> 0 then Second else wc_PollInterval cfg)"

definition goroutines :: "WorkerConfig \<Rightarrow> int" where
  "goroutines cfg = (if wc_Concurrency cfg \<le> 1 then 1 else wc_Concurrency cfg)"

section \<open>What the worker relies on\<close>

text \<open>What can be observed of a state: the message table, the payloads the daemon accepted, the counts of
  terminal and retry events, and the alerts raised.\<close>

record view =
  v_tbl :: table
  v_accepted :: "SendParams list"
  v_terminal :: "string list"
  v_retries :: nat
  v_alerts :: "SignalMessage list"

definition mark_row :: "uuid \<Rightarrow> (row \<Rightarrow> row) \<Rightarrow> view \<Rightarrow> view" where
  "mark_row i f v = v\<lparr>v_tbl := update_where (\<lambda>r. signal_message_id r = i) f (v_tbl v)\<rparr>"

text \<open>The two recorded outcomes of an attempt, as relations between the views before and after it.\<close>

definition recorded_sent :: "SignalMessage \<Rightarrow> view \<Rightarrow> view \<Rightarrow> bool" where
  "recorded_sent msg v v' \<longleftrightarrow>
     (\<exists>n res. v' = (mark_row (sm_ID msg) (sent_row n (Some res)) v)\<lparr>v_terminal := v_terminal v @ [metric_sent]\<rparr>)"

definition recorded_failed :: "SignalMessage \<Rightarrow> view \<Rightarrow> view \<Rightarrow> bool" where
  "recorded_failed msg v v' \<longleftrightarrow>
     (\<exists>n err nxt. let u = mark_row (sm_ID msg) (failed_row n (Some err) nxt) v in
        if sm_MaxAttempts msg \<le> sm_Attempts msg
        then v_tbl v' = v_tbl u \<and> v_accepted v' = v_accepted u \<and> v_retries v' = v_retries u \<and>
             v_terminal v' = v_terminal u @ [metric_permanent_failed] \<and>
             (v_alerts v' = v_alerts u \<or> v_alerts v' = v_alerts u @ [msg])
        else v' = u\<lparr>v_retries := Suc (v_retries u)\<rparr>)"

text \<open>No outcome was reported to the worker, though the table may show the one the driver failed to
  report.\<close>

definition lost_sent :: "SignalMessage \<Rightarrow> view \<Rightarrow> view \<Rightarrow> bool" where
  "lost_sent msg v v' \<longleftrightarrow>
     v' = v \<or> (\<exists>n res. v' = mark_row (sm_ID msg) (sent_row n (Some res)) v)"

definition lost_failed :: "SignalMessage \<Rightarrow> view \<Rightarrow> view \<Rightarrow> bool" where
  "lost_failed msg v v' \<longleftrightarrow>
     v' = v \<or> (\<exists>n err nxt. v' = mark_row (sm_ID msg) (failed_row n (Some err) nxt) v)"

text \<open>
  The contract of the worker's collaborators: which operation changes what. An operation of the
  repository that reports an error has had its effect or none; a send that reports success was accepted
  by the daemon, one that reports an error may have been.
\<close>

locale worker_ports =
  fixes rt :: "'s worker_runtime" and w :: "'s Worker" and obs :: "'s \<Rightarrow> view"
  assumes draw: "obs (snd (wr_Float64 rt s)) = obs s"
    and waiting: "obs (snd (wr_Wait rt c d s)) = obs s"
    and claim_obs: "wk_ClaimPending (wk_repo w) c l s = (x, s') \<Longrightarrow>
      obs s' = (obs s)\<lparr>v_tbl := v_tbl (obs s')\<rparr>"
    and mark_sent_ok: "wk_MarkSent (wk_repo w) c i res s = (None, s') \<Longrightarrow>
      \<exists>n res'. obs s' = mark_row i (sent_row n (Some res')) (obs s)"
    and mark_sent_err: "wk_MarkSent (wk_repo w) c i res s = (Some e, s') \<Longrightarrow>
      obs s' = obs s \<or> (\<exists>n res'. obs s' = mark_row i (sent_row n (Some res')) (obs s))"
    and mark_failed_ok: "wk_MarkFailed (wk_repo w) c i err nxt s = (None, s') \<Longrightarrow>
      \<exists>n nxt'. obs s' = mark_row i (failed_row n (Some err) nxt') (obs s)"
    and mark_failed_err: "wk_MarkFailed (wk_repo w) c i err nxt s = (Some e, s') \<Longrightarrow>
      obs s' = obs s \<or> (\<exists>n nxt'. obs s' = mark_row i (failed_row n (Some err) nxt') (obs s))"
    and download: "obs (snd (dl_DownloadAll (wk_store w) c m refs s)) = obs s"
    and cleanup: "obs (dl_CleanupLocal (wk_store w) c m s) = obs s"
    and send_ok: "sn_Send (wk_signal w) c p s = (Inr r, s') \<Longrightarrow>
      obs s' = (obs s)\<lparr>v_accepted := v_accepted (obs s) @ [p]\<rparr>"
    and send_err: "sn_Send (wk_signal w) c p s = (Inl e, s') \<Longrightarrow>
      obs s' = obs s \<or> obs s' = (obs s)\<lparr>v_accepted := v_accepted (obs s) @ [p]\<rparr>"
    and observe_claim: "obs (mt_ObserveClaim (wk_metrics w) d s) = obs s"
    and observe_send: "obs (mt_ObserveSend (wk_metrics w) d ok s) = obs s"
    and inc_terminal: "obs (mt_IncTerminal (wk_metrics w) st s) =
      (obs s)\<lparr>v_terminal := v_terminal (obs s) @ [st]\<rparr>"
    and inc_retry: "obs (mt_IncRetry (wk_metrics w) s) = (obs s)\<lparr>v_retries := Suc (v_retries (obs s))\<rparr>"
    and notify: "wk_notifier w = Some nt \<Longrightarrow> obs (fn_NotifyPermanentFailure nt c msg e s) =
      (obs s)\<lparr>v_alerts := v_alerts (obs s) @ [msg]\<rparr>"
begin

lemma fail_outcome:
  "recorded_failed msg (obs s) (obs (fail rt w c msg cause s)) \<or>
   lost_failed msg (obs s) (obs (fail rt w c msg cause s))"
proof -
  obtain u s1 where d: "wr_Float64 rt s = (u, s1)" by (meson surj_pair)
  then have s1: "obs s1 = obs s" using draw [of s] by simp
  define nxt where "nxt = wr_Now rt s + Backoff (wr_oob rt) u (sm_Attempts msg)
    (wc_BaseBackoff (wk_cfg w)) (wc_MaxBackoff (wk_cfg w))"
  obtain x s2 where m: "wk_MarkFailed (wk_repo w) c (sm_ID msg) (wr_Error rt cause) nxt s1 = (x, s2)"
    by (meson surj_pair)
  show ?thesis
  proof (cases x)
    case None
    with m have m': "wk_MarkFailed (wk_repo w) c (sm_ID msg) (wr_Error rt cause) nxt s1 = (None, s2)"
      by simp
    obtain n nxt' where o: "obs s2 = mark_row (sm_ID msg)
        (failed_row n (Some (wr_Error rt cause)) nxt') (obs s)"
      using mark_failed_ok [OF m'] s1 by auto
    let ?s3 = "mt_IncTerminal (wk_metrics w) metric_permanent_failed s2"
    have f: "fail rt w c msg cause s =
        (if sm_MaxAttempts msg \<le> sm_Attempts msg
         then case wk_notifier w of None \<Rightarrow> ?s3
              | Some nt \<Rightarrow> if fn_Enabled nt ?s3 then fn_NotifyPermanentFailure nt c msg cause ?s3 else ?s3
         else mt_IncRetry (wk_metrics w) s2)"
      using d m' by (simp add: fail_def Let_def nxt_def)
    have "recorded_failed msg (obs s) (obs (fail rt w c msg cause s))"
      unfolding recorded_failed_def
      by (rule exI [of _ n], rule exI [of _ "wr_Error rt cause"], rule exI [of _ nxt'])
        (auto simp: f Let_def inc_terminal inc_retry notify o split: option.split)
    then show ?thesis ..
  next
    case (Some e)
    with m d have "fail rt w c msg cause s = s2"
      by (simp add: fail_def Let_def nxt_def)
    moreover have "lost_failed msg (obs s) (obs s2)"
      using mark_failed_err [of c "sm_ID msg" "wr_Error rt cause" nxt s1 e s2] m Some
      unfolding lost_failed_def s1 by blast
    ultimately show ?thesis by simp
  qed
qed

lemma markSent_loop_outcome:
  assumes "markSent_loop rt w c i res k err0 s = (x, s')" and "0 < k"
    and "obs s = v \<or> (\<exists>n r. obs s = mark_row i (sent_row n (Some r)) v)"
  shows "if x = None then (\<exists>n r. obs s' = mark_row i (sent_row n (Some r)) v)
    else obs s' = v \<or> (\<exists>n r. obs s' = mark_row i (sent_row n (Some r)) v)"
  using assms
proof (induction k arbitrary: err0 s)
  case (Suc k)
  have again: "mark_row i (sent_row n (Some r)) (mark_row i (sent_row n' (Some r')) v) =
      mark_row i (sent_row n (Some r)) v" for n r n' r'
    by (simp add: mark_row_def update_where_def sent_row_def)
  obtain y s1 where m: "wk_MarkSent (wk_repo w) c i res s = (y, s1)" by (meson surj_pair)
  show ?case
  proof (cases y)
    case None
    with m obtain n r where "obs s1 = mark_row i (sent_row n (Some r)) (obs s)"
      using mark_sent_ok by blast
    with Suc.prems(3) again have "obs s1 = mark_row i (sent_row n (Some r)) v" by metis
    moreover have "x = None" "s' = s1" using Suc.prems(1) m None by simp_all
    ultimately show ?thesis by auto
  next
    case (Some e)
    with m mark_sent_err [of c i res s e s1] Suc.prems(3) again
    have s1: "obs s1 = v \<or> (\<exists>n r. obs s1 = mark_row i (sent_row n (Some r)) v)" by metis
    obtain b s2 where sl: "sleepCtx rt c (int (mark_attempts - k) * 50 * Millisecond) s1 = (b, s2)"
      by (meson surj_pair)
    then have "obs s2 = obs s1" using waiting by (metis sleepCtx_def snd_conv)
    with s1 have s2: "obs s2 = v \<or> (\<exists>n r. obs s2 = mark_row i (sent_row n (Some r)) v)" by simp
    consider "(x, s') = (Some e, s1)" | "(x, s') = (Some e, s2)"
      | "0 < k" "markSent_loop rt w c i res k (Some e) s2 = (x, s')"
      using Suc.prems(1) m Some sl by (cases "wr_Err rt c s1"; cases "0 < k"; cases b) auto
    then show ?thesis
    proof cases
      case 3
      from Suc.IH [OF 3(2,1) s2] show ?thesis .
    qed (use s1 s2 in simp_all)
  qed
qed simp

lemma dispatch_send_outcome:
  "let v = obs s; v' = obs (dispatch_send rt w c msg paths s) in
   (\<exists>p. BuildSendParams (wk_account w) msg paths = Inr p \<and>
        (recorded_sent msg (v\<lparr>v_accepted := v_accepted v @ [p]\<rparr>) v' \<or>
         lost_sent msg (v\<lparr>v_accepted := v_accepted v @ [p]\<rparr>) v')) \<or>
   (\<exists>ps. (ps = [] \<or> (\<exists>p. ps = [p] \<and> BuildSendParams (wk_account w) msg paths = Inr p)) \<and>
        (recorded_failed msg (v\<lparr>v_accepted := v_accepted v @ ps\<rparr>) v' \<or>
         lost_failed msg (v\<lparr>v_accepted := v_accepted v @ ps\<rparr>) v'))"
proof (cases "BuildSendParams (wk_account w) msg paths")
  case (Inl err)
  then have "dispatch_send rt w c msg paths s = fail rt w c msg err s"
    by (simp add: dispatch_send_def)
  then show ?thesis
    using fail_outcome [of msg s c err] by (auto simp: Let_def intro!: exI [of _ "[]"])
next
  case (Inr p)
  obtain res s1 where snd: "sn_Send (wk_signal w) c p s = (res, s1)" by (meson surj_pair)
  define s2 where "s2 = mt_ObserveSend (wk_metrics w) (wr_Now rt s1 - wr_Now rt s) (\<not> isl res) s1"
  have s2: "obs s2 = obs s1" by (simp add: s2_def observe_send)
  let ?vp = "(obs s)\<lparr>v_accepted := v_accepted (obs s) @ [p]\<rparr>"
  show ?thesis
  proof (cases res)
    case (Inl err)
    then have d: "dispatch_send rt w c msg paths s = fail rt w c msg err s2"
      using \<open>BuildSendParams _ _ _ = Inr p\<close> snd by (simp add: dispatch_send_def Let_def s2_def)
    obtain ps where ps: "ps = [] \<or> ps = [p]"
      and o: "obs s2 = (obs s)\<lparr>v_accepted := v_accepted (obs s) @ ps\<rparr>"
      using send_err [of c p s err s1] snd Inl s2
      by (cases "obs s1 = obs s") (auto intro: that [of "[]"] that [of "[p]"])
    have "recorded_failed msg (obs s2) (obs (fail rt w c msg err s2)) \<or>
        lost_failed msg (obs s2) (obs (fail rt w c msg err s2))"
      by (rule fail_outcome)
    then show ?thesis
      using ps \<open>BuildSendParams _ _ _ = Inr p\<close> unfolding d Let_def o by blast
  next
    case (Inr r)
    obtain x s3 where m: "markSent rt w c (sm_ID msg) (ResultID r) s2 = (x, s3)" by (meson surj_pair)
    have o: "obs s2 = ?vp" using send_ok [of c p s r s1] snd Inr s2 by simp
    have out: "if x = None then (\<exists>n q. obs s3 = mark_row (sm_ID msg) (sent_row n (Some q)) ?vp)
        else obs s3 = ?vp \<or> (\<exists>n q. obs s3 = mark_row (sm_ID msg) (sent_row n (Some q)) ?vp)"
      using m o by (intro markSent_loop_outcome [of c _ "ResultID r" mark_attempts None s2])
        (simp_all add: markSent_def mark_attempts_def)
    have d: "dispatch_send rt w c msg paths s =
        (if x = None then mt_IncTerminal (wk_metrics w) metric_sent s3 else s3)"
      using \<open>BuildSendParams _ _ _ = Inr p\<close> snd Inr m
      by (auto simp: dispatch_send_def Let_def s2_def split: option.splits)
    show ?thesis
    proof (cases x)
      case None
      then obtain n q where q: "obs s3 = mark_row (sm_ID msg) (sent_row n (Some q)) ?vp"
        using out by auto
      have "v_terminal (mark_row (sm_ID msg) (sent_row n (Some q)) ?vp) = v_terminal ?vp"
        by (simp add: mark_row_def)
      then have "recorded_sent msg ?vp (obs (dispatch_send rt w c msg paths s))"
        unfolding recorded_sent_def using q None by (auto simp: d inc_terminal)
      then show ?thesis using \<open>BuildSendParams _ _ _ = Inr p\<close> by (auto simp: Let_def)
    next
      case (Some e)
      then have "lost_sent msg ?vp (obs (dispatch_send rt w c msg paths s))"
        using out unfolding lost_sent_def d by auto
      then show ?thesis using \<open>BuildSendParams _ _ _ = Inr p\<close> unfolding Let_def by blast
    qed
  qed
qed

end

text \<open>The possible results of one attempt: one payload was accepted and is recorded as sent, unless the
  driver failed; or at most one payload was accepted and the attempt is recorded as failed, unless the
  driver failed.\<close>

definition attempt_outcome :: "string \<Rightarrow> SignalMessage \<Rightarrow> view \<Rightarrow> view \<Rightarrow> bool" where
  "attempt_outcome account msg v v' \<longleftrightarrow>
     (\<exists>paths p. BuildSendParams account msg paths = Inr p \<and>
        (recorded_sent msg (v\<lparr>v_accepted := v_accepted v @ [p]\<rparr>) v' \<or>
         lost_sent msg (v\<lparr>v_accepted := v_accepted v @ [p]\<rparr>) v')) \<or>
     (\<exists>ps. (ps = [] \<or> (\<exists>paths p. ps = [p] \<and> BuildSendParams account msg paths = Inr p)) \<and>
        (recorded_failed msg (v\<lparr>v_accepted := v_accepted v @ ps\<rparr>) v' \<or>
         lost_failed msg (v\<lparr>v_accepted := v_accepted v @ ps\<rparr>) v'))"

context worker_ports
begin

lemma dispatch_outcome:
  "attempt_outcome (wk_account w) msg (obs s) (obs (dispatch rt w c msg s))"
proof -
  define sc where "sc = WithTimeout (wr_Now rt s) c (wc_PerAttemptTimeout (wk_cfg w))"
  define mid where "mid = wr_UUIDString rt (sm_ID msg)"
  obtain x s1 where d: "dl_DownloadAll (wk_store w) sc mid (toRefs (sm_Attachments msg)) s = (x, s1)"
    by (meson surj_pair)
  then have s1: "obs s1 = obs s" using download by (metis snd_conv)
  show ?thesis
  proof (cases x)
    case (Inl err)
    then have "dispatch rt w c msg s = fail rt w sc msg (Wrapped ''download attachments'' err) s1"
      using d by (simp add: dispatch_def Let_def sc_def mid_def)
    then show ?thesis
      using fail_outcome [of msg s1 sc "Wrapped ''download attachments'' err"] s1
      unfolding attempt_outcome_def by (intro disjI2 exI [of _ "[]"]) simp
  next
    case (Inr paths)
    then have "dispatch rt w c msg s = dl_CleanupLocal (wk_store w) sc mid (dispatch_send rt w sc msg paths s1)"
      using d by (simp add: dispatch_def Let_def sc_def mid_def)
    then have "obs (dispatch rt w c msg s) = obs (dispatch_send rt w sc msg paths s1)"
      by (simp add: cleanup)
    with dispatch_send_outcome [of s1 sc msg paths] s1 show ?thesis
      unfolding attempt_outcome_def Let_def by metis
  qed
qed

lemma tick_outcome:
  assumes "tick rt w c s = (b, s')"
  shows "\<exists>x s1. wk_ClaimPending (wk_repo w) c (wc_LeaseDuration (wk_cfg w)) s = (x, s1) \<and>
    (case x of
       Inl err \<Rightarrow> \<not> b \<and> obs s' = obs s1
     | Inr msg \<Rightarrow> b \<and> attempt_outcome (wk_account w) msg (obs s1) (obs s'))"
proof -
  obtain x s1 where cl: "wk_ClaimPending (wk_repo w) c (wc_LeaseDuration (wk_cfg w)) s = (x, s1)"
    by (meson surj_pair)
  define s2 where "s2 = mt_ObserveClaim (wk_metrics w) (wr_Now rt s1 - wr_Now rt s) s1"
  have "obs s2 = obs s1" by (simp add: s2_def observe_claim)
  then show ?thesis
    using assms cl dispatch_outcome [of _ s2 c]
    by (auto simp: tick_def Let_def s2_def split: sum.splits)
qed

end

text \<open>What an outcome means for the table: only the message's own row changes, and only in the columns an
  attempt writes.\<close>

lemma attempt_outcome_tbl:
  assumes "attempt_outcome account msg v v'"
  shows "\<exists>f. v_tbl v' = update_where (\<lambda>r. signal_message_id r = sm_ID msg) f (v_tbl v) \<and>
    (f = (\<lambda>r. r) \<or> (\<exists>n res. f = sent_row n (Some res)) \<or> (\<exists>n err nxt. f = failed_row n (Some err) nxt))"
proof -
  have idf: "v_tbl u = update_where (\<lambda>r. signal_message_id r = sm_ID msg) (\<lambda>r. r) (v_tbl u)" for u :: view
    by (simp add: update_where_def)
  from assms consider
      p n res where "v_tbl v' = update_where (\<lambda>r. signal_message_id r = sm_ID msg) (sent_row n (Some res)) (v_tbl v)"
    | n err nxt where "v_tbl v' = update_where (\<lambda>r. signal_message_id r = sm_ID msg) (failed_row n (Some err) nxt) (v_tbl v)"
    | "v_tbl v' = v_tbl v"
    unfolding attempt_outcome_def recorded_sent_def recorded_failed_def lost_sent_def
      lost_failed_def mark_row_def Let_def
    by (auto split: if_splits)
  then show ?thesis
    using idf [of v] by cases metis+
qed

lemma attempt_outcome_cases:
  assumes "attempt_outcome account msg v v'"
  obtains (accepted) paths p f where "BuildSendParams account msg paths = Inr p"
      and "v_accepted v' = v_accepted v @ [p]"
      and "v_tbl v' = update_where (\<lambda>r. signal_message_id r = sm_ID msg) f (v_tbl v)"
      and "f = (\<lambda>r. r) \<or> (\<exists>n res. f = sent_row n (Some res))"
      and "v_alerts v' = v_alerts v"
  | (failed) ps f where "ps = [] \<or> (\<exists>paths p. ps = [p] \<and> BuildSendParams account msg paths = Inr p)"
      and "v_accepted v' = v_accepted v @ ps"
      and "v_tbl v' = update_where (\<lambda>r. signal_message_id r = sm_ID msg) f (v_tbl v)"
      and "f = (\<lambda>r. r) \<or> (\<exists>n err nxt. f = failed_row n (Some err) nxt)"
      and "v_alerts v' = v_alerts v \<or>
        (v_alerts v' = v_alerts v @ [msg] \<and> sm_MaxAttempts msg \<le> sm_Attempts msg \<and>
         (\<exists>n err nxt. f = failed_row n (Some err) nxt))"
proof -
  let ?P = "\<lambda>r. signal_message_id r = sm_ID msg"
  have idf: "t = update_where ?P (\<lambda>r. r) t" for t
    by (simp add: update_where_def)
  from assms consider
      (1) paths p where "BuildSendParams account msg paths = Inr p"
        "recorded_sent msg (v\<lparr>v_accepted := v_accepted v @ [p]\<rparr>) v'"
    | (2) paths p where "BuildSendParams account msg paths = Inr p"
        "lost_sent msg (v\<lparr>v_accepted := v_accepted v @ [p]\<rparr>) v'"
    | (3) ps where "ps = [] \<or> (\<exists>paths p. ps = [p] \<and> BuildSendParams account msg paths = Inr p)"
        "recorded_failed msg (v\<lparr>v_accepted := v_accepted v @ ps\<rparr>) v'"
    | (4) ps where "ps = [] \<or> (\<exists>paths p. ps = [p] \<and> BuildSendParams account msg paths = Inr p)"
        "lost_failed msg (v\<lparr>v_accepted := v_accepted v @ ps\<rparr>) v'"
    unfolding attempt_outcome_def by metis
  then show ?thesis
  proof cases
    case 1
    then obtain n res where "v_accepted v' = v_accepted v @ [p]" "v_alerts v' = v_alerts v"
      "v_tbl v' = update_where ?P (sent_row n (Some res)) (v_tbl v)"
      by (auto simp: recorded_sent_def mark_row_def)
    then show ?thesis using accepted [OF 1(1)] by blast
  next
    case 2
    from 2(2) consider "v' = v\<lparr>v_accepted := v_accepted v @ [p]\<rparr>"
      | n res where "v' = mark_row (sm_ID msg) (sent_row n (Some res)) (v\<lparr>v_accepted := v_accepted v @ [p]\<rparr>)"
      unfolding lost_sent_def by blast
    then show ?thesis
    proof cases
      case 1
      then show ?thesis using accepted [OF 2(1), of "\<lambda>r. r"] idf [of "v_tbl v"] by simp
    next
      case (2 n res)
      then show ?thesis
        using accepted [OF \<open>BuildSendParams _ _ _ = _\<close>, of "sent_row n (Some res)"]
        by (auto simp: mark_row_def)
    qed
  next
    case 3
    then obtain n err nxt where "v_accepted v' = v_accepted v @ ps"
      "v_tbl v' = update_where ?P (failed_row n (Some err) nxt) (v_tbl v)"
      "v_alerts v' = v_alerts v \<or> (v_alerts v' = v_alerts v @ [msg] \<and> sm_MaxAttempts msg \<le> sm_Attempts msg)"
      by (auto simp: recorded_failed_def mark_row_def Let_def split: if_splits)
    then show ?thesis using failed [OF 3(1)] by blast
  next
    case 4
    from 4(2) consider "v' = v\<lparr>v_accepted := v_accepted v @ ps\<rparr>"
      | n err nxt where "v' = mark_row (sm_ID msg) (failed_row n (Some err) nxt) (v\<lparr>v_accepted := v_accepted v @ ps\<rparr>)"
      unfolding lost_failed_def by blast
    then show ?thesis
    proof cases
      case 1
      then show ?thesis using failed [OF 4(1), of "\<lambda>r. r"] idf [of "v_tbl v"] by simp
    next
      case (2 n err nxt)
      then show ?thesis
        using failed [OF 4(1), of "failed_row n (Some err) nxt"] by (auto simp: mark_row_def)
    qed
  qed
qed

end
