(* ===== verification/World.thy ===== *)
theory World
  imports Worker
begin

text \<open>
  The outside world the service and the worker run in, as one record: the database table, the object
  store, the local file system, the clock, and what the daemon, the metrics registry and the alert
  channel were given. The outcome of each outside call is scripted: every call takes the next entry of
  its list (and the good answer once the list is used up), so a theorem that holds for every world holds
  for every sequence of failures. The adapter providers of the source bind the concrete repository, store,
  client and notifier to the interfaces of the service and the worker; the bindings below do the same, and
  the interpretations at the end show that they meet the contracts \<open>send_ports\<close> and \<open>worker_ports\<close>.
\<close>

datatype daemon_answer = Accepted int | Accepted_lost goerr | Rejected goerr

record world =
  w_tbl :: table
  w_objects :: objects
  w_fs :: fs
  w_clock :: gotime
  w_skew :: int
  w_stop :: "gotime option"
  w_elapsed :: "nat list"
  w_db :: "db_answer list"
  w_locked :: "uuid list"
  w_puts :: "store_answer list"
  w_removes :: "store_answer list"
  w_downloads :: "download_answers list"
  w_rmalls :: "goerr option list"
  w_daemon :: "daemon_answer list"
  w_uuids :: "nat \<Rightarrow> uuid"
  w_drawn :: nat
  w_draws :: "rat list"
  w_accepted :: "SendParams list"
  w_terminal :: "string list"
  w_retries :: nat
  w_alerts :: "SignalMessage list"
  w_slack_on :: bool
  w_backlog :: "(int \<times> int) option"
  w_timers :: "(string \<times> string \<times> duration) list"
  w_dropped :: "string list"

definition next_of :: "'a \<Rightarrow> 'a list \<Rightarrow> 'a" where
  "next_of d xs = (case xs of [] \<Rightarrow> d | x # _ \<Rightarrow> x)"

definition elapse :: "world \<Rightarrow> world" where
  "elapse w = w\<lparr>w_clock := w_clock w + int (next_of 0 (w_elapsed w)), w_elapsed := tl (w_elapsed w)\<rparr>"

section \<open>Time and contexts\<close>

text \<open>A context is done when the process is stopping or its deadline has passed.\<close>

definition ctx_done :: "ctx \<Rightarrow> world \<Rightarrow> bool" where
  "ctx_done c w \<longleftrightarrow>
     (case w_stop w of None \<Rightarrow> False | Some t \<Rightarrow> t \<le> w_clock w) \<or>
     (case c of None \<Rightarrow> False | Some t \<Rightarrow> t \<le> w_clock w)"

text \<open>Waiting for a timer or the context: the timer wins when the context is not done by then.\<close>

definition wait_timer :: "ctx \<Rightarrow> duration \<Rightarrow> world \<Rightarrow> bool \<times> world" where
  "wait_timer c d w =
     (let w' = w\<lparr>w_clock := w_clock w + max 0 d\<rparr> in (\<not> ctx_done c w', w'))"

definition world_runtime :: "(uuid \<Rightarrow> string) \<Rightarrow> world runtime" where
  "world_runtime us =
     \<lparr>rt_Now = w_clock,
      rt_NewUUID = (\<lambda>w. (w_uuids w (w_drawn w), w\<lparr>w_drawn := Suc (w_drawn w)\<rparr>)),
      rt_UUIDString = us\<rparr>"

definition world_worker_runtime ::
  "(f64 \<Rightarrow> int) \<Rightarrow> (uuid \<Rightarrow> string) \<Rightarrow> (goerr \<Rightarrow> string) \<Rightarrow> world worker_runtime" where
  "world_worker_runtime oob us es =
     \<lparr>wr_Now = w_clock,
      wr_Err = ctx_done,
      wr_Wait = wait_timer,
      wr_Float64 = (\<lambda>w. (next_of 0 (w_draws w), w\<lparr>w_draws := tl (w_draws w)\<rparr>)),
      wr_oob = oob,
      wr_UUIDString = us,
      wr_Error = es\<rparr>"

section \<open>The repository\<close>

text \<open>A call with a context that is done fails before it reaches the server; any other call gets the
  next scripted answer, at the server's clock.\<close>

definition db_run :: "ctx \<Rightarrow> (db_answer \<Rightarrow> gotime \<Rightarrow> table \<Rightarrow> 'a \<times> table) \<Rightarrow> world \<Rightarrow> 'a \<times> world" where
  "db_run c f w =
     (if ctx_done c w then
        (let (x, t) = f (Failed_before (Sentinel CtxErr)) (w_clock w + w_skew w) (w_tbl w) in
         (x, w\<lparr>w_tbl := t\<rparr>))
      else
        (let (x, t) = f (next_of Done (w_db w)) (w_clock w + w_skew w) (w_tbl w) in
         (x, elapse (w\<lparr>w_tbl := t, w_db := tl (w_db w)\<rparr>))))"

definition world_inserter :: "world MessageInserter" where
  "world_inserter =
     \<lparr>mi_GetByIdempotencyKey = (\<lambda>c k. db_run c (\<lambda>d now. Messages_GetByIdempotencyKey d k)),
      mi_Insert = (\<lambda>c p w. db_run c (\<lambda>d now. Messages_Insert d (w_uuids w (w_drawn w)) now p)
        (w\<lparr>w_drawn := Suc (w_drawn w)\<rparr>))\<rparr>"

definition world_repo :: "world WorkerRepo" where
  "world_repo =
     \<lparr>wk_ClaimPending = (\<lambda>c lease w. db_run c (\<lambda>d now. Messages_ClaimPending d (w_locked w) now lease) w),
      wk_MarkSent = (\<lambda>c i res. db_run c (\<lambda>d now. Messages_MarkSent d now i res)),
      wk_MarkFailed = (\<lambda>c i err nxt. db_run c (\<lambda>d now. Messages_MarkFailed d now i err nxt))\<rparr>"

section \<open>The object store and the file system\<close>

definition world_uploader :: "MinIOConfig \<Rightarrow> world AttachmentUploader" where
  "world_uploader cfg =
     \<lparr>au_Put = (\<lambda>c k body n ct w.
        (let (x, ob) = ObjectStore_Put cfg (next_of Stored (w_puts w)) k body n ct (w_objects w) in
         (x, elapse (w\<lparr>w_objects := ob, w_puts := tl (w_puts w)\<rparr>)))),
      au_Remove = (\<lambda>c b k w.
        (let (x, ob) = ObjectStore_Remove (next_of Stored (w_removes w)) b k (w_objects w) in
         (x, elapse (w\<lparr>w_objects := ob, w_removes := tl (w_removes w)\<rparr>))))\<rparr>"

definition world_downloader :: "MinIOConfig \<Rightarrow> world Downloader" where
  "world_downloader cfg =
     \<lparr>dl_DownloadAll = (\<lambda>c m refs w.
        (let (x, f) = ObjectStore_DownloadAll cfg (next_of all_got (w_downloads w)) (w_clock w)
               (w_objects w) m refs (w_fs w) in
         (x, elapse (w\<lparr>w_fs := f, w_downloads := tl (w_downloads w)\<rparr>)))),
      dl_CleanupLocal = (\<lambda>c m w.
        elapse (w\<lparr>w_fs := ObjectStore_CleanupLocal cfg (next_of None (w_rmalls w)) m (w_fs w),
                  w_rmalls := tl (w_rmalls w)\<rparr>))\<rparr>"

section \<open>The daemon, metrics and alerts\<close>

definition world_sender :: "world Sender" where
  "world_sender =
     \<lparr>sn_Send = (\<lambda>c p w.
        let w1 = elapse (w\<lparr>w_daemon := tl (w_daemon w)\<rparr>);
            w2 = w1\<lparr>w_accepted := w_accepted w1 @ [p]\<rparr> in
        (case next_of (Accepted 0) (w_daemon w) of
           Accepted ts \<Rightarrow> (Inr \<lparr>sr_Timestamp = ts, sr_Raw = Some (JObj [(''timestamp'', JInt ts)])\<rparr>, w2)
         | Accepted_lost e \<Rightarrow> (Inl e, w2)
         | Rejected e \<Rightarrow> (Inl e, w1)))\<rparr>"

definition Outbox_IncTerminalN :: "string \<Rightarrow> int \<Rightarrow> world \<Rightarrow> world" where
  "Outbox_IncTerminalN st n w =
     (if n \<le> 0 then w else w\<lparr>w_terminal := w_terminal w @ replicate (nat n) st\<rparr>)"

definition Outbox_IncTerminal :: "string \<Rightarrow> world \<Rightarrow> world" where
  "Outbox_IncTerminal st w = Outbox_IncTerminalN st 1 w"

definition Outbox_IncRetry :: "world \<Rightarrow> world" where
  "Outbox_IncRetry w = w\<lparr>w_retries := Suc (w_retries w)\<rparr>"

definition Outbox_IncInboundDropped :: "string \<Rightarrow> world \<Rightarrow> world" where
  "Outbox_IncInboundDropped meth w = w\<lparr>w_dropped := w_dropped w @ [meth]\<rparr>"

text \<open>A timer update is the timer's name, its outcome tag (empty when it has none) and the duration.\<close>

definition Outbox_ObserveClaim :: "duration \<Rightarrow> world \<Rightarrow> world" where
  "Outbox_ObserveClaim d w = w\<lparr>w_timers := w_timers w @ [(''signalium.outbox.claim'', '''', d)]\<rparr>"

definition Outbox_ObserveSend :: "duration \<Rightarrow> bool \<Rightarrow> world \<Rightarrow> world" where
  "Outbox_ObserveSend d ok w =
     (let outcome = (if ok then ''success'' else ''error'') in
      w\<lparr>w_timers := w_timers w @ [(''signalium.outbox.send'', outcome, d)]\<rparr>)"

text \<open>\<open>Duration.Seconds\<close> adds the whole seconds and the fraction as floating point numbers; the gauge
  takes the sum cut off towards zero.\<close>

definition Duration_Seconds :: "duration \<Rightarrow> rat" where
  "Duration_Seconds d =
     (let sec = go_div d Second;
          nsec = d - sec * Second in
      round_f64 (round_f64 (of_int sec) + round_f64 (round_f64 (of_int nsec) / 1000000000)))"

definition Outbox_SetBacklog :: "int \<Rightarrow> duration \<Rightarrow> world \<Rightarrow> world" where
  "Outbox_SetBacklog depth oldest w =
     w\<lparr>w_backlog := Some (depth, toward_zero (Duration_Seconds oldest))\<rparr>"

definition world_metrics :: "world Metrics" where
  "world_metrics =
     \<lparr>mt_ObserveClaim = Outbox_ObserveClaim,
      mt_ObserveSend = Outbox_ObserveSend,
      mt_IncTerminal = Outbox_IncTerminal,
      mt_IncTerminalN = Outbox_IncTerminalN,
      mt_IncRetry = Outbox_IncRetry,
      mt_SetBacklog = Outbox_SetBacklog\<rparr>"

definition world_notifier :: "world FailureNotifier" where
  "world_notifier =
     \<lparr>fn_Enabled = w_slack_on,
      fn_NotifyPermanentFailure = (\<lambda>c m e w. w\<lparr>w_alerts := w_alerts w @ [m]\<rparr>)\<rparr>"

section \<open>The bound components\<close>

definition world_service :: "Install \<Rightarrow> world SendMessageService" where
  "world_service install =
     NewSendMessageService world_inserter (world_uploader (inst_MinIO install)) install"

definition world_worker :: "Install \<Rightarrow> world Worker" where
  "world_worker install =
     NewWorker world_repo (world_downloader (inst_MinIO install)) world_sender (Some world_notifier)
       world_metrics install"

definition world_view :: "world \<Rightarrow> view" where
  "world_view w =
     \<lparr>v_tbl = w_tbl w, v_accepted = w_accepted w, v_terminal = w_terminal w, v_retries = w_retries w,
      v_alerts = w_alerts w\<rparr>"

definition calm_db :: "db_answer \<Rightarrow> bool" where
  "calm_db d = (case d of
     Done \<Rightarrow> True
   | Failed_before e \<Rightarrow> \<not> errors_Is e ErrNoRows \<and> \<not> errors_Is e ErrNotFound
   | Failed_after e \<Rightarrow> False)"

definition calm_put :: "store_answer \<Rightarrow> bool" where
  "calm_put a = (case a of Stored \<Rightarrow> True | Refused e \<Rightarrow> True | Stored_but e \<Rightarrow> False)"

definition calm_remove :: "store_answer \<Rightarrow> bool" where
  "calm_remove a \<longleftrightarrow> a = Stored"

text \<open>Calls may be refused; but nothing that was reported as failed has happened, no failed lookup looks
  like a miss, and removals succeed.\<close>

definition calm :: "world \<Rightarrow> bool" where
  "calm w \<longleftrightarrow> list_all calm_db (w_db w) \<and> list_all calm_put (w_puts w) \<and>
     list_all calm_remove (w_removes w)"

section \<open>Lemmas\<close>

lemma elapse_simps [simp]:
  "w_tbl (elapse w) = w_tbl w" "w_objects (elapse w) = w_objects w" "w_fs (elapse w) = w_fs w"
  "w_stop (elapse w) = w_stop w" "w_db (elapse w) = w_db w" "w_puts (elapse w) = w_puts w"
  "w_removes (elapse w) = w_removes w" "w_uuids (elapse w) = w_uuids w"
  "w_drawn (elapse w) = w_drawn w" "w_accepted (elapse w) = w_accepted w"
  "w_terminal (elapse w) = w_terminal w" "w_retries (elapse w) = w_retries w"
  "w_alerts (elapse w) = w_alerts w" "w_slack_on (elapse w) = w_slack_on w"
  "w_skew (elapse w) = w_skew w" "w_locked (elapse w) = w_locked w"
  "w_daemon (elapse w) = w_daemon w" "w_draws (elapse w) = w_draws w"
  "w_rmalls (elapse w) = w_rmalls w" "w_backlog (elapse w) = w_backlog w"
  "w_downloads (elapse w) = w_downloads w" "w_timers (elapse w) = w_timers w"
  "w_dropped (elapse w) = w_dropped w"
  by (simp_all add: elapse_def)

lemma calm_elapse [simp]: "calm (elapse w) = calm w"
  by (simp add: calm_def)

lemma next_of_mem: "list_all P xs \<Longrightarrow> P d \<Longrightarrow> P (next_of d xs)"
  by (cases xs) (simp_all add: next_of_def)

lemma list_all_tl: "list_all P xs \<Longrightarrow> list_all P (tl xs)"
  by (cases xs) simp_all

lemma db_run_state:
  assumes "db_run c f w = (x, w')"
  shows "w_objects w' = w_objects w" "w_fs w' = w_fs w" "w_drawn w' = w_drawn w" "w_uuids w' = w_uuids w"
    "world_view w' = (world_view w)\<lparr>v_tbl := w_tbl w'\<rparr>" "calm w \<Longrightarrow> calm w'"
    "\<exists>d now. (x, w_tbl w') = f d now (w_tbl w) \<and> (calm w \<longrightarrow> calm_db d)"
proof -
  have d: "calm w \<Longrightarrow> calm_db (next_of Done (w_db w))"
    using next_of_mem [of calm_db "w_db w" Done] by (simp add: calm_def calm_db_def)
  have nd: "calm_db (Failed_before (Sentinel CtxErr))"
    by (simp add: calm_db_def)
  show "w_objects w' = w_objects w" "w_fs w' = w_fs w" "w_drawn w' = w_drawn w" "w_uuids w' = w_uuids w"
    "world_view w' = (world_view w)\<lparr>v_tbl := w_tbl w'\<rparr>"
    using assms by (auto simp: db_run_def world_view_def split: if_splits prod.splits)
  show "calm w \<Longrightarrow> calm w'"
    using assms by (auto simp: db_run_def calm_def list_all_tl split: if_splits prod.splits)
  show "\<exists>d now. (x, w_tbl w') = f d now (w_tbl w) \<and> (calm w \<longrightarrow> calm_db d)"
  proof (cases "ctx_done c w")
    case True
    with assms nd show ?thesis
      by (intro exI [of _ "Failed_before (Sentinel CtxErr)"] exI [of _ "w_clock w + w_skew w"])
        (auto simp: db_run_def split: prod.splits)
  next
    case False
    with assms d show ?thesis
      by (intro exI [of _ "next_of Done (w_db w)"] exI [of _ "w_clock w + w_skew w"])
        (auto simp: db_run_def split: prod.splits)
  qed
qed

lemma db_run_at:
  assumes "db_run c f w = (x, w')"
  shows "\<exists>d. (x, w_tbl w') = f d (w_clock w + w_skew w) (w_tbl w)"
proof (rule exI)
  show "(x, w_tbl w') = f (if ctx_done c w then Failed_before (Sentinel CtxErr) else next_of Done (w_db w))
      (w_clock w + w_skew w) (w_tbl w)"
    using assms by (auto simp: db_run_def split: prod.splits if_splits)
qed

section \<open>The bindings meet the contracts\<close>

lemma world_lookup:
  assumes "db_run c (\<lambda>d now. Messages_GetByIdempotencyKey d k) w = (x, w')"
  shows "w_tbl w' = w_tbl w"
    and "x = Inr m \<Longrightarrow> \<exists>r \<in> set (w_tbl w). idempotency_key r = Some k \<and> m = row_message r"
    and "calm w \<Longrightarrow> table_ok (w_tbl w) \<Longrightarrow> r \<in> set (w_tbl w) \<Longrightarrow> idempotency_key r = Some k \<Longrightarrow>
      x = Inr (row_message r) \<or> (\<exists>e. x = Inl e \<and> \<not> errors_Is e ErrNotFound)"
proof -
  obtain d where e: "Messages_GetByIdempotencyKey d k (w_tbl w) = (x, w_tbl w')"
    and d: "calm w \<longrightarrow> calm_db d"
    using db_run_state(7) [OF assms] by metis
  show "w_tbl w' = w_tbl w"
    and "x = Inr m \<Longrightarrow> \<exists>r \<in> set (w_tbl w). idempotency_key r = Some k \<and> m = row_message r"
    using Messages_GetByIdempotencyKey_effect [OF e] by auto
  show "calm w \<Longrightarrow> table_ok (w_tbl w) \<Longrightarrow> r \<in> set (w_tbl w) \<Longrightarrow> idempotency_key r = Some k \<Longrightarrow>
      x = Inr (row_message r) \<or> (\<exists>e. x = Inl e \<and> \<not> errors_Is e ErrNotFound)"
    using d e Messages_GetByIdempotencyKey_Done [of "w_tbl w" r k]
    by (auto simp: calm_db_def Messages_GetByIdempotencyKey_def wrap_row_def split: db_answer.splits)
qed

lemma world_insert:
  assumes "mi_Insert world_inserter c p w = (x, w')"
  shows "w_objects w' = w_objects w" "calm w \<Longrightarrow> calm w'"
    and "x = Inr m \<Longrightarrow> \<exists>g n. w_tbl w' = w_tbl w @ [new_row g n (sqlc_insert_params p)] \<and>
      m = row_message (new_row g n (sqlc_insert_params p)) \<and> (table_ok (w_tbl w) \<longrightarrow> table_ok (w_tbl w'))"
    and "x = Inl e \<Longrightarrow> calm w \<Longrightarrow> w_tbl w' = w_tbl w"
proof -
  let ?w = "w\<lparr>w_drawn := Suc (w_drawn w)\<rparr>"
  have r: "db_run c (\<lambda>d now. Messages_Insert d (w_uuids w (w_drawn w)) now p) ?w = (x, w')"
    using assms by (simp add: world_inserter_def)
  note st = db_run_state [OF r]
  have cl: "calm ?w = calm w" by (simp add: calm_def)
  obtain d now where "Messages_Insert d (w_uuids w (w_drawn w)) now p (w_tbl w) = (x, w_tbl w')"
    and d: "calm w \<longrightarrow> calm_db d"
    using st(7) cl by auto
  note ef = Messages_Insert_effect [OF this(1)]
  show "w_objects w' = w_objects w" "calm w \<Longrightarrow> calm w'"
    using st cl by simp_all
  show "x = Inr m \<Longrightarrow> \<exists>g n. w_tbl w' = w_tbl w @ [new_row g n (sqlc_insert_params p)] \<and>
      m = row_message (new_row g n (sqlc_insert_params p)) \<and> (table_ok (w_tbl w) \<longrightarrow> table_ok (w_tbl w'))"
    using ef by (intro exI [of _ "w_uuids w (w_drawn w)"] exI [of _ now]) auto
  show "x = Inl e \<Longrightarrow> calm w \<Longrightarrow> w_tbl w' = w_tbl w"
    using ef d by (auto simp: calm_db_def)
qed

interpretation sp: send_ports "world_runtime us" "world_service install"
  "mc_Bucket (inst_MinIO install)" w_tbl w_objects calm for us install
proof
  fix w w' :: world and c :: ctx
  show "rt_NewUUID (world_runtime us) w = (i, w') \<Longrightarrow>
      w_tbl w' = w_tbl w \<and> w_objects w' = w_objects w \<and> (calm w \<longrightarrow> calm w')" for i
    by (auto simp: world_runtime_def calm_def)
  show "mi_GetByIdempotencyKey (sv_repo (world_service install)) c k w = (x, w') \<Longrightarrow>
      w_tbl w' = w_tbl w \<and> w_objects w' = w_objects w \<and> (calm w \<longrightarrow> calm w') \<and>
      fst (rt_NewUUID (world_runtime us) w') = fst (rt_NewUUID (world_runtime us) w)" for k x
    using db_run_state [of c _ w x w'] world_lookup(1) [of c k w x w']
    by (simp add: world_service_def NewSendMessageService_def world_inserter_def world_runtime_def)
  show "mi_GetByIdempotencyKey (sv_repo (world_service install)) c k w = (Inr m, w') \<Longrightarrow>
      \<exists>r\<in>set (w_tbl w). idempotency_key r = Some k \<and> m = row_message r" for k m
    using world_lookup(2) [of c k w "Inr m" w' m]
    by (simp add: world_service_def NewSendMessageService_def world_inserter_def)
  show "calm w \<Longrightarrow> table_ok (w_tbl w) \<Longrightarrow> r \<in> set (w_tbl w) \<Longrightarrow> idempotency_key r = Some k \<Longrightarrow>
      fst (mi_GetByIdempotencyKey (sv_repo (world_service install)) c k w) = Inr (row_message r) \<or>
      (\<exists>e. fst (mi_GetByIdempotencyKey (sv_repo (world_service install)) c k w) = Inl e \<and>
         \<not> errors_Is e ErrNotFound)" for r k
    using world_lookup(3) [OF surjective_pairing, where c = c and k = k and w = w and r = r]
    by (simp add: world_service_def NewSendMessageService_def world_inserter_def)
  show "mi_Insert (sv_repo (world_service install)) c p w = (x, w') \<Longrightarrow>
      w_objects w' = w_objects w \<and> (calm w \<longrightarrow> calm w')" for p x
    using world_insert(1,2) [of c p w x w'] by (simp add: world_service_def NewSendMessageService_def)
  show "mi_Insert (sv_repo (world_service install)) c p w = (Inr m, w') \<Longrightarrow>
      \<exists>g n. w_tbl w' = w_tbl w @ [new_row g n (sqlc_insert_params p)] \<and>
        m = row_message (new_row g n (sqlc_insert_params p)) \<and>
        (table_ok (w_tbl w) \<longrightarrow> table_ok (w_tbl w'))" for p m
    using world_insert(3) [of c p w "Inr m" w' m] by (simp add: world_service_def NewSendMessageService_def)
  show "mi_Insert (sv_repo (world_service install)) c p w = (Inl e, w') \<Longrightarrow> calm w \<Longrightarrow>
      w_tbl w' = w_tbl w" for p e
    using world_insert(4) [of c p w "Inl e" w' e] by (simp add: world_service_def NewSendMessageService_def)
  show "au_Put (sv_store (world_service install)) c k body n ct w = (Inr (b, k'), w') \<Longrightarrow>
      b = mc_Bucket (inst_MinIO install) \<and> k' = k \<and> w_tbl w' = w_tbl w \<and> (calm w \<longrightarrow> calm w') \<and>
      map_of (w_objects w') = (map_of (w_objects w))((mc_Bucket (inst_MinIO install), k) \<mapsto> body)"
    for k body n ct b k'
    by (auto simp: world_service_def NewSendMessageService_def world_uploader_def ObjectStore_Put_def
      calm_def list_all_tl split: store_answer.splits)
  show "au_Put (sv_store (world_service install)) c k body n ct w = (Inl e, w') \<Longrightarrow>
      w_tbl w' = w_tbl w \<and> (calm w \<longrightarrow> calm w' \<and> map_of (w_objects w') = map_of (w_objects w))"
    for k body n ct e
    using next_of_mem [of calm_put "w_puts w" Stored]
    by (auto simp: world_service_def NewSendMessageService_def world_uploader_def ObjectStore_Put_def
      calm_def calm_put_def list_all_tl split: store_answer.splits)
  show "au_Remove (sv_store (world_service install)) c b k w = (y, w') \<Longrightarrow>
      w_tbl w' = w_tbl w \<and>
      (calm w \<longrightarrow> calm w' \<and> map_of (w_objects w') = (map_of (w_objects w))((b, k) := None))" for b k y
    using next_of_mem [of calm_remove "w_removes w" Stored]
    by (auto simp: world_service_def NewSendMessageService_def world_uploader_def ObjectStore_Remove_def
      calm_def calm_remove_def list_all_tl fun_eq_iff split: store_answer.splits)
qed

lemma world_view_mark:
  assumes "w_tbl w' = update_where (\<lambda>r. signal_message_id r = i) f (w_tbl w)"
    and "world_view w' = (world_view w)\<lparr>v_tbl := w_tbl w'\<rparr>"
  shows "world_view w' = mark_row i f (world_view w)"
  using assms by (simp add: mark_row_def) (simp add: world_view_def)

lemma world_mark_sent:
  assumes "wk_MarkSent world_repo c i res w = (x, w')"
  shows "(x \<noteq> None \<and> world_view w' = world_view w) \<or>
    (\<exists>n res'. world_view w' = mark_row i (sent_row n (Some res')) (world_view w))"
proof -
  have r: "db_run c (\<lambda>d now. Messages_MarkSent d now i res) w = (x, w')"
    using assms by (simp add: world_repo_def)
  note st = db_run_state [OF r]
  obtain d now where "Messages_MarkSent d now i res (w_tbl w) = (x, w_tbl w')"
    using st(7) by metis
  from Messages_MarkSent_effect [OF this] consider "x \<noteq> None" "w_tbl w' = w_tbl w"
    | res' where "w_tbl w' = update_where (\<lambda>r. signal_message_id r = i) (sent_row now (Some res')) (w_tbl w)"
    by blast
  then show ?thesis
  proof cases
    case 1
    then show ?thesis using st(5) by (simp add: world_view_def)
  next
    case 2
    from world_view_mark [OF this st(5)] show ?thesis by blast
  qed
qed

lemma world_mark_failed:
  assumes "wk_MarkFailed world_repo c i err nxt w = (x, w')"
  shows "(x \<noteq> None \<and> world_view w' = world_view w) \<or>
    (\<exists>n nxt'. world_view w' = mark_row i (failed_row n (Some err) nxt') (world_view w))"
proof -
  have r: "db_run c (\<lambda>d now. Messages_MarkFailed d now i err nxt) w = (x, w')"
    using assms by (simp add: world_repo_def)
  note st = db_run_state [OF r]
  obtain d now where "Messages_MarkFailed d now i err nxt (w_tbl w) = (x, w_tbl w')"
    using st(7) by metis
  from Messages_MarkFailed_effect [OF this] consider "x \<noteq> None" "w_tbl w' = w_tbl w"
    | nxt' where "w_tbl w' = update_where (\<lambda>r. signal_message_id r = i) (failed_row now (Some err) nxt') (w_tbl w)"
    by blast
  then show ?thesis
  proof cases
    case 1
    then show ?thesis using st(5) by (simp add: world_view_def)
  next
    case 2
    from world_view_mark [OF this st(5)] show ?thesis by blast
  qed
qed

lemmas world_worker_simps = world_worker_def NewWorker_def world_worker_runtime_def

interpretation wp: worker_ports "world_worker_runtime oob us es" "world_worker install" world_view
  for oob us es install
proof
  fix s s' :: world and c :: ctx
  show "world_view (snd (wr_Float64 (world_worker_runtime oob us es) s)) = world_view s"
    by (simp add: world_worker_simps world_view_def)
  show "world_view (snd (wr_Wait (world_worker_runtime oob us es) c d s)) = world_view s" for d
    by (simp add: world_worker_simps world_view_def wait_timer_def Let_def)
  show "wk_ClaimPending (wk_repo (world_worker install)) c l s = (x, s') \<Longrightarrow>
      world_view s' = (world_view s)\<lparr>v_tbl := v_tbl (world_view s')\<rparr>" for l x
    using db_run_state(5) [of c _ s x s'] by (simp add: world_worker_simps world_repo_def world_view_def)
  show "wk_MarkSent (wk_repo (world_worker install)) c i res s = (None, s') \<Longrightarrow>
      \<exists>n res'. world_view s' = mark_row i (sent_row n (Some res')) (world_view s)" for i res
    using world_mark_sent [of c i res s None s'] by (simp add: world_worker_simps)
  show "wk_MarkSent (wk_repo (world_worker install)) c i res s = (Some e, s') \<Longrightarrow>
      world_view s' = world_view s \<or>
      (\<exists>n res'. world_view s' = mark_row i (sent_row n (Some res')) (world_view s))" for i res e
    using world_mark_sent [of c i res s "Some e" s'] by (auto simp: world_worker_simps)
  show "wk_MarkFailed (wk_repo (world_worker install)) c i err nxt s = (None, s') \<Longrightarrow>
      \<exists>n nxt'. world_view s' = mark_row i (failed_row n (Some err) nxt') (world_view s)" for i err nxt
    using world_mark_failed [of c i err nxt s None s'] by (simp add: world_worker_simps)
  show "wk_MarkFailed (wk_repo (world_worker install)) c i err nxt s = (Some e, s') \<Longrightarrow>
      world_view s' = world_view s \<or>
      (\<exists>n nxt'. world_view s' = mark_row i (failed_row n (Some err) nxt') (world_view s))" for i err nxt e
    using world_mark_failed [of c i err nxt s "Some e" s'] by (auto simp: world_worker_simps)
  show "world_view (snd (dl_DownloadAll (wk_store (world_worker install)) c m refs s)) = world_view s" for m refs
    by (simp add: world_worker_simps world_downloader_def world_view_def split: prod.split)
  show "world_view (dl_CleanupLocal (wk_store (world_worker install)) c m s) = world_view s" for m
    by (simp add: world_worker_simps world_downloader_def world_view_def)
  show "sn_Send (wk_signal (world_worker install)) c p s = (Inr r, s') \<Longrightarrow>
      world_view s' = (world_view s)\<lparr>v_accepted := v_accepted (world_view s) @ [p]\<rparr>" for p r
    by (auto simp: world_worker_simps world_sender_def Let_def world_view_def split: daemon_answer.splits)
  show "sn_Send (wk_signal (world_worker install)) c p s = (Inl e, s') \<Longrightarrow>
      world_view s' = world_view s \<or>
      world_view s' = (world_view s)\<lparr>v_accepted := v_accepted (world_view s) @ [p]\<rparr>" for p e
    by (auto simp: world_worker_simps world_sender_def Let_def world_view_def split: daemon_answer.splits)
  show "world_view (mt_ObserveClaim (wk_metrics (world_worker install)) d s) = world_view s" for d
    by (simp add: world_worker_simps world_metrics_def Outbox_ObserveClaim_def world_view_def)
  show "world_view (mt_ObserveSend (wk_metrics (world_worker install)) d ok s) = world_view s" for d ok
    by (simp add: world_worker_simps world_metrics_def Outbox_ObserveSend_def world_view_def)
  show "world_view (mt_IncTerminal (wk_metrics (world_worker install)) st s) =
      (world_view s)\<lparr>v_terminal := v_terminal (world_view s) @ [st]\<rparr>" for st
    by (simp add: world_worker_simps world_metrics_def world_view_def Outbox_IncTerminal_def
      Outbox_IncTerminalN_def)
  show "world_view (mt_IncRetry (wk_metrics (world_worker install)) s) =
      (world_view s)\<lparr>v_retries := Suc (v_retries (world_view s))\<rparr>"
    by (simp add: world_worker_simps world_metrics_def world_view_def Outbox_IncRetry_def)
  show "wk_notifier (world_worker install) = Some nt \<Longrightarrow>
      world_view (fn_NotifyPermanentFailure nt c msg e s) =
      (world_view s)\<lparr>v_alerts := v_alerts (world_view s) @ [msg]\<rparr>" for nt msg e
    by (auto simp: world_worker_simps world_notifier_def world_view_def)
qed

section \<open>A sample world\<close>

definition sample_install :: Install where
  "sample_install = \<lparr>
     inst_ProductName = ''go-signalium'',
     inst_Database = \<lparr>dbc_URL = ''u'', dbc_Pool = \<lparr>dp_MaxConns = 4, dp_MinConns = 1,
       dp_MaxConnLifetime = Minute, dp_ConnectTimeout = Second\<rparr>, dbc_EnableMigrationsAutoRun = True,
       dbc_MigrationsAdvisoryLockKey = 1\<rparr>,
     inst_MinIO = sample_minio,
     inst_SignalCli = \<lparr>scc_TCP = \<lparr>tcp_Host = ''h'', tcp_Port = 1, tcp_WaitResultTimeout = Second,
       tcp_IgnoreResults = False\<rparr>, scc_HTTP = \<lparr>http_Host = ''h'', http_Port = 2, http_Timeout = Second,
       http_MaxRetries = 3\<rparr>, scc_SenderPhoneNumber = ''+2'', scc_EnableListening = False\<rparr>,
     inst_Worker = \<lparr>wc_PollInterval = Second, wc_LeaseDuration = Minute, wc_PerAttemptTimeout = 30 * Second,
       wc_Concurrency = 1, wc_BaseBackoff = Second, wc_MaxBackoff = 5 * Minute\<rparr>,
     inst_Cron = \<lparr>cron_CleanupOldFiles = \<lparr>cof_Enabled = False, cof_Schedule = '''', cof_Directories = [],
       cof_FileTTL = 0\<rparr>, cron_TimeoutReaper = \<lparr>trc_Enabled = True, trc_Schedule = ''''\<rparr>\<rparr>\<rparr>"

definition sample_world :: world where
  "sample_world = \<lparr>w_tbl = [], w_objects = [], w_fs = [], w_clock = 5000, w_skew = 0, w_stop = None,
     w_elapsed = [], w_db = [], w_locked = [], w_puts = [], w_removes = [], w_downloads = [],
     w_rmalls = [], w_daemon = [], w_uuids = (\<lambda>n. of_nat (n + 7)), w_drawn = 0, w_draws = [],
     w_accepted = [], w_terminal = [], w_retries = 0, w_alerts = [], w_slack_on = True,
     w_backlog = None, w_timers = [], w_dropped = []\<rparr>"

end
