(* ===== verification/Delivery.thy ===== *)
theory Delivery
  imports World
begin

text \<open>
  The properties of the send service and the worker in the world of theory \<open>World\<close>: what a request
  leaves behind when it fails and when it succeeds, that an idempotency key is honoured, and what one
  tick of the worker does to the table, the daemon, the metrics and the alerts.
\<close>

section \<open>Sample requests\<close>

definition sample_request :: CreateMessage where
  "sample_request = \<lparr>cm_ExternalID = ''e1'', cm_IdempotencyKey = Some ''k1'', cm_Recipient = Some ''+1'',
     cm_GroupID = None, cm_SenderPhoneNumber = None, cm_Content = ''hi'', cm_QuoteResultID = None,
     cm_TimeoutSeconds = None, cm_MaxAttempts = None\<rparr>"

definition sample_parts :: AttachmentParts where
  "sample_parts = Some [Inr \<lparr>ap_Filename = ''a'', ap_ContentType = ''t'', ap_Body = ''x''\<rparr>,
     Inr \<lparr>ap_Filename = ''.'', ap_ContentType = ''t'', ap_Body = ''y''\<rparr>]"

definition sample_uuid_string :: "uuid \<Rightarrow> string" where
  "sample_uuid_string i = ''id''"

lemma sample_validate:
  "x \<noteq> [] \<Longrightarrow> visible (hd x) \<Longrightarrow> visible (last x) \<Longrightarrow>
     validate (world_service sample_install) (sample_request\<lparr>cm_Content := x\<rparr>) = None"
  by (simp add: validate_def sample_request_def TrimSpace_visible is_set_def)
    (simp add: visible_def byte_def TrimSpace_visible)

lemma sample_valid: "validate (world_service sample_install) sample_request = None"
proof -
  have "sample_request\<lparr>cm_Content := ''hi''\<rparr> = sample_request"
    by (simp add: sample_request_def)
  then show ?thesis
    using sample_validate [of "''hi''"] by (simp add: visible_def byte_def)
qed

lemma sample_names: "sanitizeFilename ''a'' = ''a''" "sanitizeFilename ''.'' = ''''"
  by code_simp+

lemma sample_lookup:
  "mi_GetByIdempotencyKey (sv_repo (world_service sample_install)) None k sample_world =
     (Inl (Sentinel ErrNotFound), elapse sample_world)"
  by (simp add: world_service_def NewSendMessageService_def world_inserter_def db_run_def ctx_done_def
    sample_world_def next_of_def Messages_GetByIdempotencyKey_def Queries_GetByIdempotencyKey_def)

lemma sample_create:
  "Enqueue rt (world_service sample_install) None sample_request parts sample_world =
     create_row rt (world_service sample_install) None sample_request parts (elapse sample_world)"
proof -
  have "cm_IdempotencyKey sample_request = Some ''k1''" by (simp add: sample_request_def)
  then show ?thesis
    using sample_valid sample_lookup [of "''k1''"] by (simp add: Enqueue_def is_set_def)
qed

lemma sample_success:
  "\<exists>res w'. Enqueue (world_runtime sample_uuid_string) (world_service sample_install) None sample_request
     None sample_world = (Inr res, w') \<and> \<not> eq_Idempotent res"
  unfolding sample_create
  by (simp add: create_row_def world_runtime_def uploadAll_def world_service_def
    NewSendMessageService_def world_inserter_def db_run_def ctx_done_def Messages_Insert_Done
    insert_violation_def exactly_one_target_def new_row_def sqlc_insert_params_def insert_params_def
    sample_request_def sample_world_def next_of_def elapse_def Let_def)

section \<open>Requests\<close>



text \<open>C21. A request that succeeds either names the row that already carries its idempotency key and
  changes nothing, or appends exactly one PENDING row with the caller's fields, the configured sender and
  no attempt made, every attachment of which is in the object store under a plain file name.\<close>

theorem Enqueue_stores:
  assumes "Enqueue (world_runtime us) (world_service install) c m parts w = (Inr res, w')"
  shows "if eq_Idempotent res
    then w_tbl w' = w_tbl w \<and> w_objects w' = w_objects w \<and>
      (\<exists>r \<in> set (w_tbl w). idempotency_key r = cm_IdempotencyKey m \<and> signal_message_id r = eq_ID res)
    else (table_ok (w_tbl w) \<longrightarrow> table_ok (w_tbl w')) \<and>
    (\<exists>r. w_tbl w' = w_tbl w @ [r] \<and> signal_message_id r = eq_ID res \<and> status r = PENDING \<and>
       attempts r = 0 \<and> external_id r = cm_ExternalID m \<and> idempotency_key r = cm_IdempotencyKey m \<and>
       recipient r = cm_Recipient m \<and> group_id r = cm_GroupID m \<and> content r = cm_Content m \<and>
       sender_phone_number r = scc_SenderPhoneNumber (inst_SignalCli install) \<and>
       max_attempts r = max_attempts_of m \<and>
       (\<forall>a \<in> set (attachments r). map_of (w_objects w') (att_Bucket a, att_Filename a) \<noteq> None \<and>
          plain (filepath_Base (att_Filename a))))"
proof -
  have sender: "sv_senderPhone (world_service install) = scc_SenderPhoneNumber (inst_SignalCli install)"
    by (simp add: world_service_def NewSendMessageService_def)
  from sp.Enqueue_success [OF assms] show ?thesis
    unfolding sender att_key_def by (simp split: if_splits)
qed

theorem Enqueue_stores_witness:
  "\<exists>res w' r. Enqueue (world_runtime sample_uuid_string) (world_service sample_install) None sample_request
      None sample_world = (Inr res, w') \<and> \<not> eq_Idempotent res \<and> w_tbl w' = [r] \<and> status r = PENDING"
proof -
  let ?E = "Enqueue (world_runtime sample_uuid_string) (world_service sample_install) None sample_request
    None sample_world"
  obtain res w' where E: "?E = (Inr res, w')" "\<not> eq_Idempotent res"
    using sample_success by blast
  from Enqueue_stores [OF E(1)] E show ?thesis
    by (auto simp: sample_world_def)
qed



section \<open>One tick of the worker\<close>

definition claim_lease :: "Install \<Rightarrow> duration" where
  "claim_lease install = go_div (wc_LeaseDuration (inst_Worker install)) Microsecond * Microsecond"

lemma world_claim:
  assumes "wk_ClaimPending world_repo c l w = (x, w')"
  shows "(isl x \<and> world_view w' = world_view w) \<or>
    (\<exists>cd. claim_candidate (w_locked w) (w_clock w + w_skew w) (w_tbl w) = Some cd \<and>
       world_view w' = mark_row (signal_message_id cd)
         (claimed_row (w_clock w + w_skew w) (go_div l Microsecond * Microsecond)) (world_view w) \<and>
       (\<forall>m. x = Inr m \<longrightarrow>
          m = row_message (claimed_row (w_clock w + w_skew w) (go_div l Microsecond * Microsecond) cd)))"
proof -
  have r: "db_run c (\<lambda>d now. Messages_ClaimPending d (w_locked w) now l) w = (x, w')"
    using assms by (simp add: world_repo_def)
  note st = db_run_state(5) [OF r]
  obtain d where "Messages_ClaimPending d (w_locked w) (w_clock w + w_skew w) l (w_tbl w) = (x, w_tbl w')"
    using db_run_at [OF r] by metis
  from Messages_ClaimPending_effect [OF this] show ?thesis
  proof (elim disjE exE conjE)
    assume "isl x" "w_tbl w' = w_tbl w"
    then show ?thesis using st by (simp add: world_view_def)
  next
    fix cd
    assume cd: "claim_candidate (w_locked w) (w_clock w + w_skew w) (w_tbl w) = Some cd"
      and t: "w_tbl w' = update_where (\<lambda>r. signal_message_id r = signal_message_id cd)
        (claimed_row (w_clock w + w_skew w) (go_div l Microsecond * Microsecond)) (w_tbl w)"
      and m: "\<forall>m. x = Inr m \<longrightarrow>
        m = row_message (claimed_row (w_clock w + w_skew w) (go_div l Microsecond * Microsecond) cd)"
    from cd world_view_mark [OF t st] m show ?thesis by blast
  qed
qed

lemma world_worker_fields:
  "wk_account (world_worker install) = scc_SenderPhoneNumber (inst_SignalCli install)"
  "wk_cfg (world_worker install) = inst_Worker install"
  "wk_repo (world_worker install) = world_repo"
  by (simp_all add: world_worker_def NewWorker_def)

lemma claimed_message_id [simp]: "sm_ID (row_message (claimed_row n l r)) = signal_message_id r"
  by (simp add: row_message_def claimed_row_def)

lemma tick_cases:
  assumes "tick (world_worker_runtime oob us es) (world_worker install) c w = (b, w')"
  obtains (idle) "\<not> b" and "world_view w' = world_view w"
  | (claimed) cd n l where "cd \<in> set (w_tbl w)" and "claimable n cd"
      and "if b then attempt_outcome (scc_SenderPhoneNumber (inst_SignalCli install))
             (row_message (claimed_row n l cd))
             (mark_row (signal_message_id cd) (claimed_row n l) (world_view w)) (world_view w')
           else world_view w' = mark_row (signal_message_id cd) (claimed_row n l) (world_view w)"
      and "n = w_clock w + w_skew w" and "l = claim_lease install"
proof -
  obtain x w1 where cl: "wk_ClaimPending world_repo c (wc_LeaseDuration (inst_Worker install)) w = (x, w1)"
    and out: "case x of Inl err \<Rightarrow> \<not> b \<and> world_view w' = world_view w1
      | Inr msg \<Rightarrow> b \<and> attempt_outcome (scc_SenderPhoneNumber (inst_SignalCli install)) msg
          (world_view w1) (world_view w')"
    using wp.tick_outcome [OF assms] unfolding world_worker_fields by blast
  from world_claim [OF cl] show ?thesis
  proof (elim disjE exE conjE)
    assume "isl x" "world_view w1 = world_view w"
    with out show ?thesis by (cases x) (auto intro: idle)
  next
    fix cd
    let ?n = "w_clock w + w_skew w" and ?l = "claim_lease install"
    assume cd: "claim_candidate (w_locked w) ?n (w_tbl w) = Some cd"
    assume "world_view w1 = mark_row (signal_message_id cd) (claimed_row ?n
        (go_div (wc_LeaseDuration (inst_Worker install)) Microsecond * Microsecond)) (world_view w)"
      "\<forall>m. x = Inr m \<longrightarrow> m = row_message (claimed_row ?n
        (go_div (wc_LeaseDuration (inst_Worker install)) Microsecond * Microsecond) cd)"
    with out have "if b then attempt_outcome (scc_SenderPhoneNumber (inst_SignalCli install))
          (row_message (claimed_row ?n ?l cd))
          (mark_row (signal_message_id cd) (claimed_row ?n ?l) (world_view w)) (world_view w')
        else world_view w' = mark_row (signal_message_id cd) (claimed_row ?n ?l) (world_view w)"
      unfolding claim_lease_def by (cases x) auto
    from claimed [OF claim_candidate_Some(1,2) [OF cd] this refl refl] show ?thesis .
  qed
qed

text \<open>The table after a tick: the claimed row is leased and then, possibly, marked.\<close>

lemma tick_table:
  assumes "tick (world_worker_runtime oob us es) (world_worker install) c w = (b, w')"
  obtains (idle) "\<not> b" and "w_tbl w' = w_tbl w"
  | (claimed) cd n l f where "cd \<in> set (w_tbl w)" and "claimable n cd"
      and "w_tbl w' = update_where (\<lambda>r. signal_message_id r = signal_message_id cd) f
             (update_where (\<lambda>r. signal_message_id r = signal_message_id cd) (claimed_row n l) (w_tbl w))"
      and "f = (\<lambda>r. r) \<or> (\<exists>n res. f = sent_row n (Some res)) \<or> (\<exists>n err nxt. f = failed_row n (Some err) nxt)"
      and "n = w_clock w + w_skew w" and "l = claim_lease install"
  using assms
proof (cases rule: tick_cases)
  case idle
  then have "w_tbl w' = w_tbl w" by (simp add: world_view_def)
  with idle(1) show ?thesis by (rule that(1))
next
  case (claimed cd n l)
  let ?P = "\<lambda>r. signal_message_id r = signal_message_id cd"
  have idf: "t = update_where ?P (\<lambda>r. r) t" for t
    by (simp add: update_where_def)
  show ?thesis
  proof (cases b)
    case True
    with claimed(3) have o: "attempt_outcome (scc_SenderPhoneNumber (inst_SignalCli install))
        (row_message (claimed_row n l cd))
        (mark_row (signal_message_id cd) (claimed_row n l) (world_view w)) (world_view w')" by simp
    from attempt_outcome_tbl [OF o] obtain f where
      "w_tbl w' = update_where ?P f (update_where ?P (claimed_row n l) (w_tbl w))"
      and "f = (\<lambda>r. r) \<or> (\<exists>n res. f = sent_row n (Some res)) \<or> (\<exists>n err nxt. f = failed_row n (Some err) nxt)"
      unfolding claimed_message_id by (force simp: mark_row_def world_view_def)
    then show ?thesis using that(2) claimed(1,2,4,5) by blast
  next
    case False
    with claimed(3) have "w_tbl w' = update_where ?P (claimed_row n l) (w_tbl w)"
      by (simp add: mark_row_def world_view_def)
    then show ?thesis using that(2) [OF claimed(1,2) _ _ claimed(4,5)] idf by metis
  qed
qed

lemma row_at_other:
  assumes "j \<noteq> i" and "\<And>r. signal_message_id (f r) = signal_message_id r"
  shows "row_at (update_where (\<lambda>r. signal_message_id r = i) f t) j = row_at t j"
  using assms by (induction t) (auto simp: row_at_def)

lemma row_at_self:
  assumes "\<And>r. signal_message_id (f r) = signal_message_id r"
  shows "row_at (update_where (\<lambda>r. signal_message_id r = i) f t) i = map_option f (row_at t i)"
  using assms by (induction t) (auto simp: row_at_def)

lemmas row_writes = claimed_row_def sent_row_def failed_row_def

lemma row_write_ids [simp]:
  "signal_message_id (claimed_row n l r) = signal_message_id r"
  "signal_message_id (sent_row n res r) = signal_message_id r"
  "signal_message_id (failed_row n err nxt r) = signal_message_id r"
  by (simp_all add: row_writes)


definition sample_send_world :: world where
  "sample_send_world = sample_world\<lparr>w_tbl := [(sample_row 2 ''b'' PENDING)], w_daemon := [Accepted 9]\<rparr>"


lemmas sample_eval = sample_send_world_def sample_world_def sample_install_def sample_minio_def
  sample_row_def sample_params_def new_row_def sqlc_insert_params_def

lemma sample_send_tick:
  "\<exists>w' r'. tick (world_worker_runtime (\<lambda>_. 0) sample_uuid_string (\<lambda>_. ''err''))
      (world_worker sample_install) None sample_send_world = (True, w') \<and>
    row_at (w_tbl w') 2 = Some r' \<and> status r' = SENT"
proof -
  have v: "varchar25 (FormatInt 9) = Some (FormatInt 9)" by code_simp
  show ?thesis
    by (simp add: tick_def Let_def world_worker_def NewWorker_def world_worker_runtime_def world_repo_def
      db_run_def ctx_done_def Messages_ClaimPending_Done claim_candidate_def claimable_def sample_eval
      next_of_def elapse_def sql_ts_tsTz pg_ts_def duration_units in_int32_def go_div_def
      world_metrics_def Outbox_ObserveClaim_def Outbox_ObserveSend_def dispatch_def toRefs_def row_message_def claimed_row_def world_downloader_def
      ObjectStore_DownloadAll_def dispatch_send_def BuildSendParams_def nonempty_def world_sender_def
      markSent_def mark_attempts_def numeral_3_eq_3 Messages_MarkSent_def Queries_MarkSent_def
      ResultID_def v wrap_exec_def sent_row_def WithTimeout_def Outbox_IncTerminal_def
      Outbox_IncTerminalN_def row_at_def)
qed


text \<open>An alert is raised only for a message whose row is PERMANENT_FAILED with its attempts used
  up, once per tick, and the alert carries that message.\<close>

theorem tick_alert_permanent:
  assumes "table_ok (w_tbl w)"
    and "tick (world_worker_runtime oob us es) (world_worker install) c w = (b, w')"
    and "w_alerts w' \<noteq> w_alerts w"
  shows "\<exists>m r'. w_alerts w' = w_alerts w @ [m] \<and> row_at (w_tbl w') (sm_ID m) = Some r' \<and>
    status r' = PERMANENT_FAILED \<and> max_attempts r' \<le> attempts r' \<and> sm_Attempts m = attempts r'"
  using assms(2)
proof (cases rule: tick_cases)
  case idle
  then show ?thesis using assms(3) by (simp add: world_view_def)
next
  case (claimed cd n l)
  let ?v = "mark_row (signal_message_id cd) (claimed_row n l) (world_view w)"
  let ?m = "row_message (claimed_row n l cd)"
  have cd: "row_at (w_tbl w) (signal_message_id cd) = Some cd"
    using assms(1) claimed(1) row_at_mem by (simp add: table_ok_def)
  have al: "v_alerts ?v = w_alerts w" "v_alerts (world_view w') = w_alerts w'"
    by (simp_all add: mark_row_def world_view_def)
  have b: b using claimed(3) al assms(3) by (metis)
  with claimed(3) have o: "attempt_outcome (scc_SenderPhoneNumber (inst_SignalCli install)) ?m ?v (world_view w')"
    by simp
  from o show ?thesis
  proof (cases rule: attempt_outcome_cases)
    case (accepted paths p f)
    then show ?thesis using al assms(3) by simp
  next
    case (failed ps f)
    then obtain k err nxt where al': "w_alerts w' = w_alerts w @ [?m]" and
      mx: "sm_MaxAttempts ?m \<le> sm_Attempts ?m" and f: "f = failed_row k (Some err) nxt"
      using al assms(3) by auto
    have "row_at (w_tbl w') (signal_message_id cd) = Some (f (claimed_row n l cd))"
      using failed(3) cd f by (simp add: mark_row_def world_view_def row_at_self)
    moreover have "max_attempts cd \<le> attempts cd + 1"
      using mx by (simp add: row_message_def claimed_row_def)
    ultimately show ?thesis
      using al' f by (intro exI [of _ ?m]) (simp add: row_message_def row_writes)
  qed
qed

lemma fin_exact: "0 \<le> n \<Longrightarrow> n \<le> 2 ^ 53 \<Longrightarrow> fin (of_int n) = Fin (of_int n)"
  using float64_exact by (simp add: float64_def)

lemma sample_backoff: "Backoff oob 0 5 1000000000 300000000000 = 0"
proof -
  have "Pow2 4 = Fin 16"
    using fin_exact [of 16] by (simp add: Pow2_def pow2_def)
  moreover have "float64 1000000000 = Fin 1000000000" "float64 300000000000 = Fin 300000000000"
    using float64_exact [of 1000000000] float64_exact [of 300000000000] by simp_all
  moreover have "fin (1000000000 * 16) = Fin 16000000000" "fin 0 = Fin 0"
    using fin_exact [of 16000000000] fin_exact [of 0] by simp_all
  ultimately show ?thesis
    by (simp add: Backoff_def Duration_def toward_zero_def in_int64_def)
qed

definition sample_fail_world :: world where
  "sample_fail_world = sample_world\<lparr>w_tbl := [(sample_row 2 ''b'' PENDING)\<lparr>attempts := 4\<rparr>],
     w_daemon := [Rejected (Opaque ''no'')]\<rparr>"

lemma sample_fail_tick:
  "\<exists>w'. tick (world_worker_runtime (\<lambda>_. 0) sample_uuid_string (\<lambda>_. ''err''))
      (world_worker sample_install) None sample_fail_world = (True, w') \<and> w_alerts w' \<noteq> []"
  by (simp add: tick_def Let_def world_worker_def NewWorker_def world_worker_runtime_def world_repo_def
      db_run_def ctx_done_def Messages_ClaimPending_Done claim_candidate_def claimable_def sample_eval
      sample_fail_world_def next_of_def elapse_def sql_ts_tsTz pg_ts_def duration_units in_int32_def go_div_def
      world_metrics_def Outbox_ObserveClaim_def Outbox_ObserveSend_def dispatch_def toRefs_def row_message_def claimed_row_def world_downloader_def
      ObjectStore_DownloadAll_def dispatch_send_def BuildSendParams_def nonempty_def world_sender_def
      fail_def sample_backoff Messages_MarkFailed_def Queries_MarkFailed_def
      wrap_exec_def failed_row_def WithTimeout_def Outbox_IncTerminal_def
      Outbox_IncTerminalN_def world_notifier_def)

theorem tick_alert_permanent_witness:
  "\<exists>w' m r'. tick (world_worker_runtime (\<lambda>_. 0) sample_uuid_string (\<lambda>_. ''err''))
      (world_worker sample_install) None sample_fail_world = (True, w') \<and> w_alerts w' = [m] \<and>
      row_at (w_tbl w') (sm_ID m) = Some r' \<and> status r' = PERMANENT_FAILED"
proof -
  obtain w' where t: "tick (world_worker_runtime (\<lambda>_. 0) sample_uuid_string (\<lambda>_. ''err''))
      (world_worker sample_install) None sample_fail_world = (True, w')" and a: "w_alerts w' \<noteq> []"
    using sample_fail_tick by blast
  have ok: "table_ok (w_tbl sample_fail_world)"
    by (simp add: sample_fail_world_def sample_eval table_ok_def row_ok_def exactly_one_target_def in_int32_def)
  have "w_alerts sample_fail_world = []" by (simp add: sample_fail_world_def sample_world_def)
  with tick_alert_permanent [OF ok t] a t show ?thesis by auto
qed


definition sample_slow_row :: row where
  "sample_slow_row = (sample_row 2 ''b'' PENDING)\<lparr>attempts := 9, timeout_at := None,
     attachments := [\<lparr>att_Bucket = ''b'', att_Filename = ''k/a'', att_MimeType = ''t'', att_Size = 1\<rparr>]\<rparr>"

definition sample_slow_world :: world where
  "sample_slow_world = sample_world\<lparr>w_tbl := [sample_slow_row], w_elapsed := [0, 40000000000],
     w_downloads := [all_got\<lparr>da_mkdir := Some (Opaque ''slow disk'')\<rparr>]\<rparr>"


end
