(* ===== verification/Progress.thy ===== *)
theory Progress
  imports Delivery
begin

text \<open>
  Progress of the worker loop: how much time one tick can spend waiting, and that the inner loop of
  \<open>runSingle\<close> ends once every row that was due has been claimed. The locale \<open>worker_budget\<close> states what
  each collaborator may do to a budgeted preorder of states; its instance here is the clock.
\<close>

section \<open>A budget for one tick\<close>

locale worker_budget =
  fixes rt :: "'s worker_runtime" and w :: "'s Worker" and R :: "int \<Rightarrow> 's \<Rightarrow> 's \<Rightarrow> bool"
  assumes stay: "R 0 s s"
    and step: "R a s s' \<Longrightarrow> R b s' s'' \<Longrightarrow> R (a + b) s s''"
    and more: "R a s s' \<Longrightarrow> a \<le> b \<Longrightarrow> R b s s'"
    and drawing: "R 0 s (snd (wr_Float64 rt s))"
    and waits: "R (max 0 d) s (snd (wr_Wait rt c d s))"
    and claims: "R 0 s (snd (wk_ClaimPending (wk_repo w) c l s))"
    and marks_sent: "R 0 s (snd (wk_MarkSent (wk_repo w) c i res s))"
    and marks_failed: "R 0 s (snd (wk_MarkFailed (wk_repo w) c i err nxt s))"
    and downloads: "R 0 s (snd (dl_DownloadAll (wk_store w) c m refs s))"
    and cleans: "R 0 s (dl_CleanupLocal (wk_store w) c m s)"
    and sends: "R 0 s (snd (sn_Send (wk_signal w) c p s))"
    and times_claim: "R 0 s (mt_ObserveClaim (wk_metrics w) d s)"
    and times_send: "R 0 s (mt_ObserveSend (wk_metrics w) d ok s)"
    and counts_terminal: "R 0 s (mt_IncTerminal (wk_metrics w) st s)"
    and counts_retry: "R 0 s (mt_IncRetry (wk_metrics w) s)"
    and alerts: "wk_notifier w = Some nt \<Longrightarrow> R 0 s (fn_NotifyPermanentFailure nt c msg e s)"
begin

lemma after: "R a s s' \<Longrightarrow> R 0 s' s'' \<Longrightarrow> R a s s''"
  using step [of a s s' 0 s''] by simp

lemma fail_budget: "R 0 s (fail rt w c msg cause s)"
proof -
  obtain u s1 where d: "wr_Float64 rt s = (u, s1)" by (meson surj_pair)
  then have s1: "R 0 s s1" using drawing [of s] by simp
  define nxt where "nxt = wr_Now rt s + Backoff (wr_oob rt) u (sm_Attempts msg)
    (wc_BaseBackoff (wk_cfg w)) (wc_MaxBackoff (wk_cfg w))"
  obtain x s2 where m: "wk_MarkFailed (wk_repo w) c (sm_ID msg) (wr_Error rt cause) nxt s1 = (x, s2)"
    by (meson surj_pair)
  have s2: "R 0 s s2"
    using after [OF s1 marks_failed [of s1 c "sm_ID msg" "wr_Error rt cause" nxt]] m by simp
  let ?s3 = "mt_IncTerminal (wk_metrics w) metric_permanent_failed s2"
  have s3: "R 0 s ?s3" by (rule after [OF s2 counts_terminal])
  have alert: "R 0 s (fn_NotifyPermanentFailure nt c msg cause ?s3)" if "wk_notifier w = Some nt" for nt
    by (rule after [OF s3 alerts [OF that]])
  have retry: "R 0 s (mt_IncRetry (wk_metrics w) s2)" by (rule after [OF s2 counts_retry])
  show ?thesis
    using d m s2 s3 alert retry by (simp add: fail_def Let_def nxt_def split: option.split)
qed

lemma markSent_step:
  assumes "\<And>s. R a s (snd (markSent_loop rt w c i res n (Some err) s))" and "0 \<le> a"
    and "\<And>s err'. R a s (snd (markSent_loop rt w c i res n err' s))"
  shows "R (int (mark_attempts - n) * 50 * Millisecond + a) s (snd (markSent_loop rt w c i res (Suc n) err0 s))"
proof -
  let ?d = "int (mark_attempts - n) * 50 * Millisecond"
  have d: "0 \<le> ?d" by (simp add: duration_units)
  obtain x s1 where m: "wk_MarkSent (wk_repo w) c i res s = (x, s1)" by (meson surj_pair)
  have s1: "R 0 s s1" using marks_sent [of s c i res] m by simp
  obtain y s2 where y: "sleepCtx rt c ?d s1 = (y, s2)" by (meson surj_pair)
  have s2: "R ?d s s2"
    using step [OF s1 waits [of ?d s1 c]] y d by (simp add: sleepCtx_def)
  have s3: "R (?d + a) s (snd (markSent_loop rt w c i res n err' s2))" for err'
    using step [OF s2 assms(3)] .
  have "R (?d + a) s s1" "R (?d + a) s s2"
    using more [OF s1] more [OF s2] d assms(2) by simp_all
  then show ?thesis
    using m y s3 by (auto split: option.split bool.split)
qed

lemma markSent_budget: "R (150 * Millisecond) s (snd (markSent rt w c i res s))"
proof -
  have l0: "R 0 s (snd (markSent_loop rt w c i res 0 err s))" for s err
    by (simp add: stay)
  have l1: "R 0 s (snd (markSent_loop rt w c i res (Suc 0) err s))" for s err
    using marks_sent [of s c i res] by (auto split: prod.split option.split)
  have l2: "R (100 * Millisecond) s (snd (markSent_loop rt w c i res (Suc (Suc 0)) err s))" for s err
    using markSent_step [of 0 c i res "Suc 0", OF l1 _ l1, of s err] by (simp add: mark_attempts_def)
  show ?thesis
    using markSent_step [of "100 * Millisecond" c i res "Suc (Suc 0)", OF l2 _ l2, of s None]
    by (simp add: markSent_def mark_attempts_def numeral_3_eq_3 duration_units)
qed

lemma dispatch_budget: "R (150 * Millisecond) s (dispatch rt w c msg s)"
proof -
  let ?b = "150 * Millisecond"
  define sc where "sc = WithTimeout (wr_Now rt s) c (wc_PerAttemptTimeout (wk_cfg w))"
  obtain x s1 where d: "dl_DownloadAll (wk_store w) sc (wr_UUIDString rt (sm_ID msg))
      (toRefs (sm_Attachments msg)) s = (x, s1)" by (meson surj_pair)
  have s1: "R 0 s s1" using downloads [of s sc] d by (metis snd_conv)
  have b: "R ?b s' s''" if "R 0 s' s''" for s' s''
    using more [OF that] by (simp add: duration_units)
  have send: "R ?b s' (dispatch_send rt w sc msg paths s')" for s' paths
  proof (cases "BuildSendParams (wk_account w) msg paths")
    case (Inr p)
    obtain y s2 where y: "sn_Send (wk_signal w) sc p s' = (y, s2)" by (meson surj_pair)
    define s3 where "s3 = mt_ObserveSend (wk_metrics w) (wr_Now rt s2 - wr_Now rt s') (\<not> isl y) s2"
    have s3: "R 0 s' s3"
      using after [OF sends [of s' sc p] times_send] y by (simp add: s3_def)
    show ?thesis
    proof (cases y)
      case (Inl e)
      with y Inr s3 after [OF s3 fail_budget] show ?thesis
        by (auto simp: dispatch_send_def Let_def s3_def intro!: b)
    next
      case (Inr r)
      obtain z s4 where z: "markSent rt w sc (sm_ID msg) (ResultID r) s3 = (z, s4)" by (meson surj_pair)
      have s4: "R ?b s' s4" using step [OF s3 markSent_budget] z by (metis add_0 snd_conv)
      have "dispatch_send rt w sc msg paths s' =
          (case z of Some err \<Rightarrow> s4 | None \<Rightarrow> mt_IncTerminal (wk_metrics w) metric_sent s4)"
        using \<open>BuildSendParams (wk_account w) msg paths = Inr p\<close> y Inr z
        by (simp add: dispatch_send_def Let_def s3_def split: option.split)
      with s4 after [OF s4 counts_terminal] show ?thesis by (simp split: option.split)
    qed
  qed (auto simp: dispatch_send_def intro!: b fail_budget)
  show ?thesis
  proof (cases x)
    case (Inl e)
    then show ?thesis
      using d b [OF after [OF s1 fail_budget]] by (simp add: dispatch_def Let_def sc_def)
  next
    case (Inr paths)
    then show ?thesis
      using d after [OF step [OF s1 send] cleans] by (simp add: dispatch_def Let_def sc_def)
  qed
qed

lemma tick_budget: "R (150 * Millisecond) s (snd (tick rt w c s))"
proof -
  obtain x s1 where cl: "wk_ClaimPending (wk_repo w) c (wc_LeaseDuration (wk_cfg w)) s = (x, s1)"
    by (meson surj_pair)
  define s2 where "s2 = mt_ObserveClaim (wk_metrics w) (wr_Now rt s1 - wr_Now rt s) s1"
  have s2: "R 0 s s2" using after [OF claims [of s c] times_claim] cl by (metis s2_def snd_conv)
  have "R (150 * Millisecond) s s2" using more [OF s2] by (simp add: duration_units)
  with cl step [OF s2 dispatch_budget] show ?thesis
    by (simp add: tick_def Let_def s2_def split: sum.split)
qed

end

section \<open>The clock of the world\<close>

text \<open>The time that can still pass in calls, and the preorder: the clock runs forward, and beyond the
  scripted durations it advances by no more than the budget.\<close>

definition horizon :: "world \<Rightarrow> gotime" where
  "horizon w = w_clock w + int (sum_list (w_elapsed w))"

definition clock_budget :: "int \<Rightarrow> world \<Rightarrow> world \<Rightarrow> bool" where
  "clock_budget k w w' \<longleftrightarrow>
     w_clock w \<le> w_clock w' \<and> horizon w' \<le> horizon w + k \<and> w_skew w' = w_skew w \<and>
     w_stop w' = w_stop w \<and> w_locked w' = w_locked w \<and> (w_db w = [] \<longrightarrow> w_db w' = [])"

lemma elapse_budget:
  "w_clock w' = w_clock w \<Longrightarrow> w_elapsed w' = w_elapsed w \<Longrightarrow> w_skew w' = w_skew w \<Longrightarrow>
     w_stop w' = w_stop w \<Longrightarrow> w_locked w' = w_locked w \<Longrightarrow> w_db w' = w_db w \<or> w_db w' = tl (w_db w) \<Longrightarrow>
     clock_budget 0 w (elapse w')"
  by (cases "w_elapsed w") (auto simp: clock_budget_def horizon_def elapse_def next_of_def)

lemma db_run_budget: "clock_budget 0 w (snd (db_run c f w))"
  by (auto simp: db_run_def split_beta Let_def intro!: elapse_budget)
    (simp add: clock_budget_def horizon_def)

interpretation wb: worker_budget "world_worker_runtime oob us es" "world_worker install" clock_budget
  for oob us es install
proof
  fix w w' w'' :: world and c :: ctx and a b :: int
  show "clock_budget 0 w w" by (simp add: clock_budget_def)
  show "clock_budget a w w' \<Longrightarrow> clock_budget b w' w'' \<Longrightarrow> clock_budget (a + b) w w''"
    by (simp add: clock_budget_def)
  show "clock_budget a w w' \<Longrightarrow> a \<le> b \<Longrightarrow> clock_budget b w w'"
    by (simp add: clock_budget_def)
  show "clock_budget 0 w (snd (wr_Float64 (world_worker_runtime oob us es) w))"
    by (simp add: world_worker_runtime_def clock_budget_def horizon_def)
  show "clock_budget (max 0 d) w (snd (wr_Wait (world_worker_runtime oob us es) c d w))" for d
    by (simp add: world_worker_runtime_def clock_budget_def horizon_def wait_timer_def Let_def)
  show "clock_budget 0 w (snd (wk_ClaimPending (wk_repo (world_worker install)) c l w))" for l
    by (simp add: world_worker_fields world_repo_def db_run_budget)
  show "clock_budget 0 w (snd (wk_MarkSent (wk_repo (world_worker install)) c i res w))" for i res
    by (simp add: world_worker_fields world_repo_def db_run_budget)
  show "clock_budget 0 w (snd (wk_MarkFailed (wk_repo (world_worker install)) c i err nxt w))" for i err nxt
    by (simp add: world_worker_fields world_repo_def db_run_budget)
  show "clock_budget 0 w (snd (dl_DownloadAll (wk_store (world_worker install)) c m refs w))" for m refs
    by (simp add: world_worker_simps world_downloader_def split_beta elapse_budget)
  show "clock_budget 0 w (dl_CleanupLocal (wk_store (world_worker install)) c m w)" for m
    by (simp add: world_worker_simps world_downloader_def elapse_budget)
  show "clock_budget 0 w (snd (sn_Send (wk_signal (world_worker install)) c p w))" for p
    using elapse_budget [of "w\<lparr>w_daemon := tl (w_daemon w)\<rparr>" w]
    by (simp add: world_worker_simps world_sender_def Let_def clock_budget_def horizon_def
      split: daemon_answer.split)
  show "clock_budget 0 w (mt_ObserveClaim (wk_metrics (world_worker install)) d w)" for d
    by (simp add: world_worker_simps world_metrics_def Outbox_ObserveClaim_def clock_budget_def horizon_def)
  show "clock_budget 0 w (mt_ObserveSend (wk_metrics (world_worker install)) d ok w)" for d ok
    by (simp add: world_worker_simps world_metrics_def Outbox_ObserveSend_def clock_budget_def horizon_def Let_def)
  show "clock_budget 0 w (mt_IncTerminal (wk_metrics (world_worker install)) st w)" for st
    by (simp add: world_worker_simps world_metrics_def Outbox_IncTerminal_def Outbox_IncTerminalN_def
      clock_budget_def horizon_def)
  show "clock_budget 0 w (mt_IncRetry (wk_metrics (world_worker install)) w)"
    by (simp add: world_worker_simps world_metrics_def Outbox_IncRetry_def clock_budget_def horizon_def)
  show "clock_budget 0 w (fn_NotifyPermanentFailure nt c msg e w)"
    if "wk_notifier (world_worker install) = Some nt" for nt msg e
    using that by (auto simp: world_worker_simps world_notifier_def clock_budget_def horizon_def)
qed

section \<open>The inner loop ends\<close>

text \<open>A row that a claim before the instant \<open>h\<close> can still take.\<close>

definition ripe :: "gotime \<Rightarrow> row \<Rightarrow> bool" where
  "ripe h r \<longleftrightarrow> status r = PENDING \<or> (status r = SENDING \<and> next_attempt_at r < h)"

lemma claimable_ripe: "claimable n r \<Longrightarrow> n \<le> h \<Longrightarrow> ripe h r"
  by (auto simp: claimable_def ripe_def)

lemma claimed_unripe:
  assumes "h \<le> n + l"
    and "f = (\<lambda>r. r) \<or> (\<exists>n res. f = sent_row n (Some res)) \<or> (\<exists>n err nxt. f = failed_row n (Some err) nxt)"
  shows "\<not> ripe h (f (claimed_row n l r))"
  using assms by (auto simp: ripe_def row_writes split: if_splits)

lemma filter_update_less:
  assumes "r \<in> set t" and "P r" and "Q r" and "\<And>r. \<not> Q (f r)"
  shows "length (filter Q (update_where P f t)) < length (filter Q t)"
proof -
  have le: "length (filter Q (update_where P f t)) \<le> length (filter Q t)" for t
    using assms(4) by (induction t) auto
  show ?thesis
    using assms(1)
  proof (induction t)
    case (Cons a t)
    then show ?case using le [of t] assms(2-4) by (cases "a = r") auto
  qed simp
qed

lemma update_where_twice:
  "(\<And>r. signal_message_id (g r) = signal_message_id r) \<Longrightarrow>
     update_where (\<lambda>r. signal_message_id r = i) f (update_where (\<lambda>r. signal_message_id r = i) g t) =
     update_where (\<lambda>r. signal_message_id r = i) (\<lambda>r. f (g r)) t"
  by (induction t) auto

lemma tick_ripe:
  assumes "tick (world_worker_runtime oob us es) (world_worker install) c w = (True, w')"
    and "w_clock w + w_skew w \<le> h" and "h \<le> w_clock w + w_skew w + claim_lease install"
  shows "length (filter (ripe h) (w_tbl w')) < length (filter (ripe h) (w_tbl w))"
  using assms(1)
proof (cases rule: tick_table)
  case (claimed cd n l f)
  have "w_tbl w' = update_where (\<lambda>r. signal_message_id r = signal_message_id cd)
      (\<lambda>r. f (claimed_row n l r)) (w_tbl w)"
    unfolding claimed(3) by (rule update_where_twice) simp
  moreover have "ripe h cd" using claimable_ripe [OF claimed(2)] assms(2) claimed(5) by simp
  moreover have "\<not> ripe h (f (claimed_row n l r))" for r
    using claimed_unripe [OF _ claimed(4)] assms(3) claimed(5,6) by simp
  ultimately show ?thesis
    using filter_update_less [OF claimed(1)] by simp
qed simp

lemma drain_ends:
  assumes "length (filter (ripe h) (w_tbl w)) \<le> k"
    and "horizon w + w_skew w + 150 * Millisecond * int k \<le> h"
    and "h \<le> w_clock w + w_skew w + claim_lease install"
  shows "\<exists>r. drain (Suc k) (world_worker_runtime oob us es) (world_worker install) c w = Some r"
  using assms
proof (induction k arbitrary: w)
  case (0 w)
  obtain b w1 where t: "tick (world_worker_runtime oob us es) (world_worker install) c w = (b, w1)"
    by (meson surj_pair)
  have "w_clock w \<le> horizon w" by (simp add: horizon_def)
  then have "\<not> b" using tick_ripe [of oob us es install c w w1 h] t 0 by (cases b) auto
  with t show ?case by auto
next
  case (Suc k w)
  obtain b w1 where t: "tick (world_worker_runtime oob us es) (world_worker install) c w = (b, w1)"
    by (meson surj_pair)
  have tb: "clock_budget (150 * Millisecond) w w1"
    using wb.tick_budget [of w oob us es install c] t by simp
  show ?case
  proof (cases "b \<and> \<not> wr_Err (world_worker_runtime oob us es) c w1")
    case True
    have "w_clock w \<le> horizon w" "0 \<le> 150 * Millisecond * int (Suc k)"
      by (simp_all add: horizon_def duration_units)
    then have "length (filter (ripe h) (w_tbl w1)) < length (filter (ripe h) (w_tbl w))"
      using tick_ripe [of oob us es install c w w1 h] t True Suc.prems(2,3) by simp
    moreover have "horizon w1 + w_skew w1 + 150 * Millisecond * int k \<le> h"
      using tb Suc.prems(2) by (simp add: clock_budget_def algebra_simps)
    moreover have "h \<le> w_clock w1 + w_skew w1 + claim_lease install"
      using tb Suc.prems(3) by (simp add: clock_budget_def)
    ultimately obtain r where "drain (Suc k) (world_worker_runtime oob us es) (world_worker install) c w1 = Some r"
      using Suc.IH [of w1] Suc.prems(1) by auto
    then show ?thesis using t True by simp
  qed (use t in \<open>auto split: bool.split\<close>)
qed

lemma on_ticker_ends:
  assumes "int (sum_list (w_elapsed w)) + 150 * Millisecond * int (length (w_tbl w)) \<le> claim_lease install"
  shows "\<exists>r. on_ticker (length (w_tbl w)) (world_worker_runtime oob us es) (world_worker install) c w = Some r"
proof -
  let ?n = "length (w_tbl w)"
  define h where "h = horizon w + w_skew w + 150 * Millisecond * int ?n"
  have h: "h \<le> w_clock w + w_skew w + claim_lease install" "w_clock w + w_skew w \<le> h"
    using assms by (simp_all add: h_def horizon_def duration_units)
  obtain b w1 where t: "tick (world_worker_runtime oob us es) (world_worker install) c w = (b, w1)"
    by (meson surj_pair)
  have tb: "clock_budget (150 * Millisecond) w w1"
    using wb.tick_budget [of w oob us es install c] t by simp
  show ?thesis
  proof (cases b)
    case True
    with tick_ripe [of oob us es install c w w1 h] t h
    have "length (filter (ripe h) (w_tbl w1)) < length (filter (ripe h) (w_tbl w))" by simp
    moreover have "length (filter (ripe h) (w_tbl w)) \<le> ?n" by simp
    ultimately obtain k where k: "?n = Suc k" "length (filter (ripe h) (w_tbl w1)) \<le> k"
      by (cases ?n) auto
    have "horizon w1 + w_skew w1 + 150 * Millisecond * int k \<le> h"
      using tb by (simp add: clock_budget_def h_def k(1) algebra_simps)
    moreover have "h \<le> w_clock w1 + w_skew w1 + claim_lease install"
      using tb h(1) by (simp add: clock_budget_def)
    ultimately show ?thesis
      using drain_ends [OF k(2)] t True by (simp add: on_ticker_def k(1) del: drain.simps)
  qed (use t in \<open>auto simp: on_ticker_def\<close>)
qed




section \<open>Every due row is attempted\<close>

text \<open>The state of the inner loop with respect to one row \<open>r\<close> that was due when the ticker fired on the
  table \<open>t0\<close>: rows that can still be claimed are rows of \<open>t0\<close>, and \<open>r\<close> is untouched or has been
  attempted.\<close>

definition attempted :: "row \<Rightarrow> table \<Rightarrow> bool" where
  "attempted r t \<longleftrightarrow> (case row_at t (signal_message_id r) of None \<Rightarrow> False | Some r' \<Rightarrow> attempts r < attempts r')"

definition serving :: "Install \<Rightarrow> gotime \<Rightarrow> table \<Rightarrow> row \<Rightarrow> world \<Rightarrow> bool" where
  "serving install h t0 r w \<longleftrightarrow>
     horizon w + w_skew w + 150 * Millisecond * int (length (filter (ripe h) (w_tbl w))) \<le> h \<and>
     h \<le> w_clock w + w_skew w + claim_lease install \<and>
     w_stop w = None \<and> w_locked w = [] \<and> w_db w = [] \<and> claimable (w_clock w + w_skew w) r \<and>
     (\<forall>q \<in> set (w_tbl w). ripe h q \<longrightarrow> q \<in> set t0) \<and>
     (row_at (w_tbl w) (signal_message_id r) = Some r \<or> attempted r (w_tbl w))"

lemma claimable_later:
  "claimable n r \<Longrightarrow> n \<le> n' \<Longrightarrow> (\<forall>d. timeout_at r = Some d \<longrightarrow> n' < d) \<Longrightarrow> claimable n' r"
  by (auto simp: claimable_def split: option.splits)

lemma tick_unclaimed:
  assumes "tick (world_worker_runtime oob us es) (world_worker install) None w = (False, w')"
    and "w_stop w = None" and "w_locked w = []" and "w_db w = []"
  shows "w_tbl w' = w_tbl w \<and> (\<forall>q \<in> set (w_tbl w). in_int32 (attempts q + 1) \<longrightarrow> \<not> claimable (w_clock w + w_skew w) q
    \<or> (\<exists>cd \<in> set (w_tbl w). claimable (w_clock w + w_skew w) cd \<and> \<not> in_int32 (attempts cd + 1)))"
proof -
  let ?n = "w_clock w + w_skew w"
  obtain x w1 where cl: "wk_ClaimPending world_repo None (wc_LeaseDuration (inst_Worker install)) w = (x, w1)"
    by (meson surj_pair)
  have w': "w' = Outbox_ObserveClaim (w_clock w1 - w_clock w) w1" and x: "isl x"
    using assms(1) cl by (auto simp: tick_def Let_def world_worker_fields world_worker_runtime_def
      world_worker_def NewWorker_def world_metrics_def split: sum.splits)
  have m: "Messages_ClaimPending Done [] ?n (wc_LeaseDuration (inst_Worker install)) (w_tbl w) = (x, w_tbl w1)"
    using cl assms(2-4) by (auto simp: world_repo_def db_run_def ctx_done_def next_of_def split: prod.splits)
  show ?thesis
  proof (cases "claim_candidate [] ?n (w_tbl w)")
    case None
    with m w' show ?thesis
      using claim_candidate_None [of "[]" ?n "w_tbl w"]
      by (auto simp: Messages_ClaimPending_Done Outbox_ObserveClaim_def)
  next
    case (Some cd)
    with m x w' claim_candidate_Some(1,2) [OF Some] show ?thesis
      by (auto simp: Messages_ClaimPending_Done Outbox_ObserveClaim_def Let_def split: if_splits)
  qed
qed

lemma tick_serves:
  assumes "serving install h t0 r w"
    and "tick (world_worker_runtime oob us es) (world_worker install) None w = (b, w')"
    and "\<forall>q \<in> set t0. in_int32 (attempts q + 1)" and "\<forall>d. timeout_at r = Some d \<longrightarrow> h < d"
  shows "if b then serving install h t0 r w' else attempted r (w_tbl w')"
proof -
  let ?n = "w_clock w + w_skew w"
  have bud: "clock_budget (150 * Millisecond) w w'"
    using wb.tick_budget [of w oob us es install None] assms(2) by simp
  have hz: "w_clock v \<le> horizon v" for v by (simp add: horizon_def)
  have le: "?n \<le> h" and hl: "h \<le> ?n + claim_lease install"
    using assms(1) hz [of w] by (auto simp: serving_def duration_units)
  show ?thesis
  proof (cases b)
    case True
    with assms(2) have t: "tick (world_worker_runtime oob us es) (world_worker install) None w = (True, w')"
      by simp
    have ripe: "length (filter (ripe h) (w_tbl w')) < length (filter (ripe h) (w_tbl w))"
      by (rule tick_ripe [OF t le hl])
    then have hor: "horizon w' + w_skew w' + 150 * Millisecond * int (length (filter (ripe h) (w_tbl w'))) \<le> h"
      using bud assms(1) by (simp add: serving_def clock_budget_def duration_units)
    then have "w_clock w' + w_skew w' \<le> h" using hz [of w'] by (simp add: duration_units)
    then have cl: "claimable (w_clock w' + w_skew w') r"
      using claimable_later [of ?n r "w_clock w' + w_skew w'"] assms(1,4) bud
      by (fastforce simp: serving_def clock_budget_def)
    from t show ?thesis
    proof (cases rule: tick_table)
      case (claimed cd n l f)
      have idf: "signal_message_id (f (claimed_row n l q)) = signal_message_id q" for q
        using claimed(4) by auto
      have att: "attempts (f (claimed_row n l q)) = attempts q + 1" for q
        using claimed(4) by (auto simp: row_writes)
      have tb: "w_tbl w' = update_where (\<lambda>q. signal_message_id q = signal_message_id cd)
          (\<lambda>q. f (claimed_row n l q)) (w_tbl w)"
        unfolding claimed(3) by (rule update_where_twice) simp
      have un: "\<not> ripe h (f (claimed_row n l q))" for q
        using claimed_unripe [OF _ claimed(4)] hl claimed(5,6) by simp
      have "q \<in> set t0" if "q \<in> set (w_tbl w')" "ripe h q" for q
        using that assms(1) un unfolding tb by (auto simp: serving_def update_where_def split: if_splits)
      moreover have "row_at (w_tbl w') (signal_message_id r) = Some r \<or> attempted r (w_tbl w')"
        using assms(1) row_at_self [of "\<lambda>q. f (claimed_row n l q)" "signal_message_id cd" "w_tbl w", OF idf]
          row_at_other [of "signal_message_id r" "signal_message_id cd" "\<lambda>q. f (claimed_row n l q)" "w_tbl w", OF _ idf]
        unfolding tb by (cases "signal_message_id r = signal_message_id cd")
          (auto simp: serving_def attempted_def att split: option.splits)
      ultimately show ?thesis
        using True hor cl bud assms(1) hl by (auto simp: serving_def clock_budget_def)
    qed simp
  next
    case False
    with assms(2) have t: "tick (world_worker_runtime oob us es) (world_worker install) None w = (False, w')"
      by simp
    note u = tick_unclaimed [OF t]
    have in0: "in_int32 (attempts q + 1)" if "q \<in> set (w_tbl w)" "claimable ?n q" for q
      using assms(1,3) claimable_ripe [OF that(2) le] that(1) by (auto simp: serving_def)
    have "row_at (w_tbl w) (signal_message_id r) \<noteq> Some r"
    proof
      assume "row_at (w_tbl w) (signal_message_id r) = Some r"
      then have "r \<in> set (w_tbl w)" by (auto simp: row_at_def find_Some_iff)
      with u in0 assms(1) show False by (fastforce simp: serving_def)
    qed
    with u assms(1) False show ?thesis by (auto simp: serving_def)
  qed
qed

lemma drain_serves:
  assumes "drain k (world_worker_runtime oob us es) (world_worker install) None w = Some (b, w')"
    and "serving install h t0 r w"
    and "\<forall>q \<in> set t0. in_int32 (attempts q + 1)" and "\<forall>d. timeout_at r = Some d \<longrightarrow> h < d"
  shows "\<not> b \<and> attempted r (w_tbl w')"
  using assms(1,2)
proof (induction k arbitrary: w)
  case (Suc k)
  obtain b1 w1 where t: "tick (world_worker_runtime oob us es) (world_worker install) None w = (b1, w1)"
    by (meson surj_pair)
  note s = tick_serves [OF Suc.prems(2) t assms(3,4)]
  show ?case
  proof (cases b1)
    case True
    with s have "serving install h t0 r w1" by simp
    moreover from this have "\<not> wr_Err (world_worker_runtime oob us es) None w1"
      by (simp add: serving_def world_worker_runtime_def ctx_done_def)
    ultimately show ?thesis using Suc.IH [of w1] Suc.prems(1) t True by simp
  qed (use Suc.prems t s in simp)
qed simp



end
