(* ===== verification/Reaper.thy ===== *)
theory Reaper
  imports World
begin

text \<open>
  The timeout reaper, \<open>internal/worker/timeout_reaper.go\<close>: the pass that turns overdue rows TIMED_OUT and
  samples the backlog, and the loop around it. The contract \<open>reaper_ports\<close> says what the pass relies on;
  it is discharged for the repository and the metrics of theory \<open>World\<close>.
\<close>

section \<open>The reaper\<close>

definition timeoutReaperInterval :: duration where
  "timeoutReaperInterval = Minute"

record 's TimeoutReaperRepo =
  tr_MarkTimedOut :: "ctx \<Rightarrow> 's \<Rightarrow> (goerr + int) \<times> 's"
  tr_BacklogStats :: "ctx \<Rightarrow> 's \<Rightarrow> (goerr + int \<times> duration) \<times> 's"

text \<open>\<open>tr_stopCancel\<close> says whether the cancel function is set, \<open>tr_cancelled\<close> whether it was called, and
  \<open>tr_wg\<close> is the counter of the wait group.\<close>

record 's TimeoutReaper =
  tr_repo :: "'s TimeoutReaperRepo"
  tr_metrics :: "'s Metrics"
  tr_cfg :: TimeoutReaperConfig
  tr_stopCancel :: bool
  tr_cancelled :: bool
  tr_wg :: nat

definition NewTimeoutReaper ::
  "'s TimeoutReaperRepo \<Rightarrow> 's Metrics \<Rightarrow> Install \<Rightarrow> 's TimeoutReaper" where
  "NewTimeoutReaper r m install =
     \<lparr>tr_repo = r, tr_metrics = m, tr_cfg = cron_TimeoutReaper (inst_Cron install),
      tr_stopCancel = False, tr_cancelled = False, tr_wg = 0\<rparr>"

definition TimeoutReaper_Enabled :: "'s TimeoutReaper \<Rightarrow> bool" where
  "TimeoutReaper_Enabled t = trc_Enabled (tr_cfg t)"

definition TimeoutReaper_Start :: "'s TimeoutReaper \<Rightarrow> 's TimeoutReaper" where
  "TimeoutReaper_Start t =
     (if \<not> TimeoutReaper_Enabled t then t
      else t\<lparr>tr_stopCancel := True, tr_cancelled := False, tr_wg := Suc (tr_wg t)\<rparr>)"

text \<open>\<open>drained\<close> is the arm the \<open>select\<close> of \<open>Stop\<close> takes: the goroutine ended, or the stop context did
  first, with the error \<open>ctxErr\<close>.\<close>

definition TimeoutReaper_Stop ::
  "bool \<Rightarrow> goerr \<Rightarrow> 's TimeoutReaper \<Rightarrow> goerr option \<times> 's TimeoutReaper" where
  "TimeoutReaper_Stop drained ctxErr t =
     (if \<not> tr_stopCancel t then (None, t)
      else let t1 = t\<lparr>tr_cancelled := True\<rparr> in
           if drained then (None, t1\<lparr>tr_wg := 0\<rparr>)
           else (Some (Wrapped ''timeout reaper stop: drain timeout'' ctxErr), t1))"

definition reap :: "'s TimeoutReaper \<Rightarrow> ctx \<Rightarrow> 's \<Rightarrow> 's" where
  "reap t ctx s =
     (let s1 = (case tr_MarkTimedOut (tr_repo t) ctx s of
                  (Inl err, s1) \<Rightarrow> s1
                | (Inr n, s1) \<Rightarrow>
                    if n > 0 then mt_IncTerminalN (tr_metrics t) metric_timed_out n s1 else s1) in
      case tr_BacklogStats (tr_repo t) ctx s1 of
        (Inl err, s2) \<Rightarrow> s2
      | (Inr (depth, oldest), s2) \<Rightarrow> mt_SetBacklog (tr_metrics t) depth oldest s2)"

definition TimeoutReaper_run :: "'s TimeoutReaper \<Rightarrow> ctx \<Rightarrow> select_arm list \<Rightarrow> 's \<Rightarrow> bool \<times> 's" where
  "TimeoutReaper_run t ctx arms s = ticker_loop (reap t ctx) arms (reap t ctx s)"

section \<open>What a pass relies on\<close>

text \<open>The table after a sweep at \<open>now\<close>.\<close>

definition swept :: "gotime \<Rightarrow> table \<Rightarrow> table" where
  "swept now t = update_where (overdue now) (timed_out_row now) t"

definition overdue_count :: "gotime \<Rightarrow> table \<Rightarrow> nat" where
  "overdue_count now t = length (filter (overdue now) t)"

locale reaper_ports =
  fixes t :: "'s TimeoutReaper" and obs :: "'s \<Rightarrow> view" and clk :: "'s \<Rightarrow> gotime"
  assumes timed_out_ok: "tr_MarkTimedOut (tr_repo t) c s = (Inr n, s') \<Longrightarrow>
      obs s' = (obs s)\<lparr>v_tbl := swept (clk s) (v_tbl (obs s))\<rparr> \<and>
        n = int (overdue_count (clk s) (v_tbl (obs s)))"
    and timed_out_err: "tr_MarkTimedOut (tr_repo t) c s = (Inl e, s') \<Longrightarrow>
      obs s' = obs s \<or> obs s' = (obs s)\<lparr>v_tbl := swept (clk s) (v_tbl (obs s))\<rparr>"
    and backlog: "obs (snd (tr_BacklogStats (tr_repo t) c s)) = obs s"
    and inc_terminal_n: "0 < n \<Longrightarrow> obs (mt_IncTerminalN (tr_metrics t) st n s) =
      (obs s)\<lparr>v_terminal := v_terminal (obs s) @ replicate (nat n) st\<rparr>"
    and set_backlog: "obs (mt_SetBacklog (tr_metrics t) n d s) = obs s"
begin

lemma reap_cases:
  obtains (nothing) "obs (reap t c s) = obs s"
  | (lost) "obs (reap t c s) = (obs s)\<lparr>v_tbl := swept (clk s) (v_tbl (obs s))\<rparr>"
  | (counted) "obs (reap t c s) = (obs s)\<lparr>v_tbl := swept (clk s) (v_tbl (obs s)),
      v_terminal := v_terminal (obs s) @
        replicate (overdue_count (clk s) (v_tbl (obs s))) metric_timed_out\<rparr>"
proof -
  obtain x s1 where m: "tr_MarkTimedOut (tr_repo t) c s = (x, s1)" by (meson surj_pair)
  let ?s1 = "case x of Inl e \<Rightarrow> s1
    | Inr n \<Rightarrow> if 0 < n then mt_IncTerminalN (tr_metrics t) metric_timed_out n s1 else s1"
  obtain y s2 where b: "tr_BacklogStats (tr_repo t) c ?s1 = (y, s2)" by (meson surj_pair)
  have "reap t c s = (case y of Inl e \<Rightarrow> s2 | Inr (n, d) \<Rightarrow> mt_SetBacklog (tr_metrics t) n d s2)"
    using m b by (cases x) (simp_all add: reap_def Let_def split: sum.split)
  then have r: "obs (reap t c s) = obs ?s1"
    using backlog [of c ?s1] b by (simp add: set_backlog split: sum.split prod.split)
  show ?thesis
  proof (cases x)
    case (Inl e)
    with timed_out_err [of c s e s1] m r that(1,2) show ?thesis by auto
  next
    case (Inr n)
    with timed_out_ok [of c s n s1] m
    have "obs s1 = (obs s)\<lparr>v_tbl := swept (clk s) (v_tbl (obs s))\<rparr>"
      "n = int (overdue_count (clk s) (v_tbl (obs s)))" by auto
    then have "obs (reap t c s) = (obs s)\<lparr>v_tbl := swept (clk s) (v_tbl (obs s)), v_terminal :=
        v_terminal (obs s) @ replicate (overdue_count (clk s) (v_tbl (obs s))) metric_timed_out\<rparr>"
      using r Inr by (auto simp: inc_terminal_n)
    then show ?thesis by (rule that(3))
  qed
qed

end

section \<open>The reaper of the world\<close>

definition world_reaper_repo :: "world TimeoutReaperRepo" where
  "world_reaper_repo =
     \<lparr>tr_MarkTimedOut = (\<lambda>c. db_run c (\<lambda>d now. Messages_MarkTimedOut d now)),
      tr_BacklogStats = (\<lambda>c. db_run c (\<lambda>d now. Messages_BacklogStats d now))\<rparr>"

definition world_reaper :: "Install \<Rightarrow> world TimeoutReaper" where
  "world_reaper install = NewTimeoutReaper world_reaper_repo world_metrics install"

lemma world_reaper_metrics [simp]:
  "mt_SetBacklog (tr_metrics (world_reaper install)) = Outbox_SetBacklog"
  "mt_IncTerminalN (tr_metrics (world_reaper install)) = Outbox_IncTerminalN"
  by (simp_all add: world_reaper_def NewTimeoutReaper_def world_metrics_def)

lemmas world_reaper_simps = world_reaper_def NewTimeoutReaper_def world_reaper_repo_def

lemma Messages_MarkTimedOut_effect:
  assumes "Messages_MarkTimedOut d now t = (x, t')"
  shows "(t' = t \<or> t' = swept now t) \<and> (\<forall>n. x = Inr n \<longrightarrow> t' = swept now t \<and> n = int (overdue_count now t))"
  using assms
  by (cases d) (auto simp: Messages_MarkTimedOut_def Queries_MarkTimedOut_def wrap_result_def swept_def
    overdue_count_def)

lemma Messages_BacklogStats_table: "snd (Messages_BacklogStats d now t) = t"
  by (cases d) (simp_all add: Messages_BacklogStats_def Let_def split_beta)

definition db_now :: "world \<Rightarrow> gotime" where
  "db_now w = w_clock w + w_skew w"

lemma world_mark_timed_out:
  assumes "db_run c (\<lambda>d now. Messages_MarkTimedOut d now) w = (x, w')"
  shows "(world_view w' = world_view w \<or>
      world_view w' = (world_view w)\<lparr>v_tbl := swept (db_now w) (w_tbl w)\<rparr>) \<and>
    (\<forall>n. x = Inr n \<longrightarrow> world_view w' = (world_view w)\<lparr>v_tbl := swept (db_now w) (w_tbl w)\<rparr> \<and>
      n = int (overdue_count (db_now w) (w_tbl w)))"
proof -
  obtain d where "Messages_MarkTimedOut d (db_now w) (w_tbl w) = (x, w_tbl w')"
    using db_run_at [OF assms] unfolding db_now_def by metis
  from Messages_MarkTimedOut_effect [OF this] db_run_state(5) [OF assms] show ?thesis
    by (auto simp: world_view_def)
qed

interpretation rp: reaper_ports "world_reaper install" world_view db_now for install
proof
  fix w w' :: world and c :: ctx
  have v: "v_tbl (world_view w) = w_tbl w" by (simp add: world_view_def)
  show "tr_MarkTimedOut (tr_repo (world_reaper install)) c w = (Inr n, w') \<Longrightarrow>
      world_view w' = (world_view w)\<lparr>v_tbl := swept (db_now w) (v_tbl (world_view w))\<rparr> \<and>
        n = int (overdue_count (db_now w) (v_tbl (world_view w)))" for n
    using world_mark_timed_out [of c w "Inr n" w'] unfolding v by (auto simp: world_reaper_simps)
  show "tr_MarkTimedOut (tr_repo (world_reaper install)) c w = (Inl e, w') \<Longrightarrow>
      world_view w' = world_view w \<or>
      world_view w' = (world_view w)\<lparr>v_tbl := swept (db_now w) (v_tbl (world_view w))\<rparr>" for e
    using world_mark_timed_out [of c w "Inl e" w'] unfolding v by (auto simp: world_reaper_simps)
  show "world_view (snd (tr_BacklogStats (tr_repo (world_reaper install)) c w)) = world_view w"
  proof -
    obtain x w1 where b: "db_run c (\<lambda>d now. Messages_BacklogStats d now) w = (x, w1)" by (meson surj_pair)
    note st = db_run_state [OF b]
    obtain d now where "(x, w_tbl w1) = Messages_BacklogStats d now (w_tbl w)" using st(7) by blast
    then have "w_tbl w1 = w_tbl w" using Messages_BacklogStats_table [of d now "w_tbl w"] by (metis snd_conv)
    with st(5) b show ?thesis by (simp add: world_reaper_simps world_view_def)
  qed
  show "0 < n \<Longrightarrow> world_view (mt_IncTerminalN (tr_metrics (world_reaper install)) st n w) =
      (world_view w)\<lparr>v_terminal := v_terminal (world_view w) @ replicate (nat n) st\<rparr>" for n st
    by (simp add: world_reaper_simps world_metrics_def Outbox_IncTerminalN_def world_view_def)
  show "world_view (mt_SetBacklog (tr_metrics (world_reaper install)) n d w) = world_view w" for n d
    by (simp add: world_reaper_simps world_metrics_def Outbox_SetBacklog_def world_view_def)
qed

section \<open>Properties\<close>

lemma zip_update_where:
  "length (filter (\<lambda>(r, r'). Q r r') (zip t (update_where P f t))) =
     length (filter (\<lambda>r. Q r (if P r then f r else r)) t)"
  by (induction t) auto

lemma list_all2_update_where:
  "list_all2 (\<lambda>r r'. r' = r \<or> (P r \<and> r' = f r)) t (update_where P f t)"
  by (induction t) auto

definition turned :: "pg_status \<Rightarrow> table \<Rightarrow> table \<Rightarrow> nat" where
  "turned st t t' = length (filter (\<lambda>(r, r'). status r \<noteq> st \<and> status r' = st) (zip t t'))"

lemma turned_same: "turned st t t = 0"
  by (induction t) (auto simp: turned_def)

lemma turned_swept: "turned TIMED_OUT t (swept now t) = overdue_count now t"
proof -
  have "status r \<noteq> TIMED_OUT \<and> status (if overdue now r then timed_out_row now r else r) = TIMED_OUT \<longleftrightarrow>
      overdue now r" for r
    by (auto simp: overdue_def timed_out_row_def)
  then show ?thesis
    by (simp add: turned_def swept_def overdue_count_def zip_update_where)
qed

text \<open>A pass of the reaper, whatever the database answers, changes a row only by turning it from
  overdue to TIMED_OUT, at one instant for all rows; it counts either every row it turned or, when the
  answer was lost, none; and it sends nothing and raises no alert.\<close>

theorem reap_counts:
  "list_all2 (\<lambda>r r'. r' = r \<or> (overdue (w_clock w + w_skew w) r \<and> r' = timed_out_row (w_clock w + w_skew w) r))
       (w_tbl w) (w_tbl (reap (world_reaper install) c w)) \<and>
    w_terminal (reap (world_reaper install) c w) \<in>
      {w_terminal w, w_terminal w @ replicate (turned TIMED_OUT (w_tbl w)
         (w_tbl (reap (world_reaper install) c w))) ''timed_out''} \<and>
    w_accepted (reap (world_reaper install) c w) = w_accepted w \<and>
    w_alerts (reap (world_reaper install) c w) = w_alerts w"
proof (cases rule: rp.reap_cases [of install c w])
  case nothing
  then have "w_tbl (reap (world_reaper install) c w) = w_tbl w"
    and "w_terminal (reap (world_reaper install) c w) = w_terminal w"
    and "w_accepted (reap (world_reaper install) c w) = w_accepted w"
    and "w_alerts (reap (world_reaper install) c w) = w_alerts w"
    by (simp_all add: world_view_def)
  then show ?thesis by (simp add: list.rel_refl)
next
  case lost
  then show ?thesis
    by (simp add: world_view_def swept_def list_all2_update_where db_now_def)
next
  case counted
  have "overdue_count (db_now w) (w_tbl w) = turned TIMED_OUT (w_tbl w) (swept (db_now w) (w_tbl w))"
    by (simp add: turned_swept)
  with counted show ?thesis
    by (simp add: world_view_def swept_def list_all2_update_where metric_timed_out_def db_now_def)
qed

lemma Duration_Seconds_whole:
  assumes "0 \<le> n" and "n \<le> 2 ^ 53"
  shows "toward_zero (Duration_Seconds (n * Second)) = n"
proof -
  have "go_div (n * Second) Second = n"
    using assms(1) by (simp add: go_div_nonneg duration_units)
  moreover have "round_f64 (of_int n) = of_int n"
    using assms by (rule round_f64_exact)
  ultimately show ?thesis
    using assms(1) by (simp add: Duration_Seconds_def Let_def round_f64_def [of 0] toward_zero_def)
qed

definition oldest_age :: "gotime \<Rightarrow> table \<Rightarrow> int" where
  "oldest_age now t =
     (let rs = filter in_backlog t in
      if rs = [] then 0 else round_seconds (now - Min (set (map created_at rs))))"

lemma Messages_BacklogStats_Done:
  "in_int32 (int (length (filter in_backlog t))) \<Longrightarrow> Messages_BacklogStats Done now t =
     (Inr (int (length (filter in_backlog t)), int64 (oldest_age now t * Second)), t)"
  by (simp add: Messages_BacklogStats_def Queries_BacklogStats_def count_int4_def backlog_of_def
    wrap_result_def oldest_age_def Let_def)

text \<open>C27. While the database answers and the process runs, a pass leaves no overdue row: every row that
  was overdue is TIMED_OUT, the counter grows by their number, and the gauges show the number of rows that
  are still waiting and the age of the oldest of them in seconds.\<close>

theorem reap_exact:
  assumes "w_stop w = None" and "w_db w = []"
    and "now = w_clock w + w_skew w" and "later = now + int (next_of 0 (w_elapsed w))"
    and "w' = reap (world_reaper install) None w"
    and "t' = map (\<lambda>r. if overdue now r then timed_out_row now r else r) (w_tbl w)"
    and "in_int32 (int (length (filter in_backlog t')))"
    and "0 \<le> oldest_age later t'" and "oldest_age later t' \<le> 9223372036"
  shows "w_tbl w' = t' \<and> (\<forall>r \<in> set (w_tbl w'). \<not> overdue now r) \<and>
    w_terminal w' = w_terminal w @ replicate (length (filter (overdue now) (w_tbl w))) ''timed_out'' \<and>
    w_backlog w' = Some (int (length (filter in_backlog t')), oldest_age later t')"
proof -
  let ?n = "int (overdue_count now (w_tbl w))"
  define w1 where "w1 = elapse (w\<lparr>w_tbl := swept now (w_tbl w), w_db := []\<rparr>)"
  define w2 where "w2 = Outbox_IncTerminalN metric_timed_out ?n w1"
  have mark: "tr_MarkTimedOut (tr_repo (world_reaper install)) None w = (Inr ?n, w1)"
    using assms(1-3) by (simp add: world_reaper_simps db_run_def ctx_done_def next_of_def w1_def
      Messages_MarkTimedOut_def Queries_MarkTimedOut_def wrap_result_def swept_def overdue_count_def)
  have w2: "w_tbl w2 = swept now (w_tbl w)" "w_stop w2 = None" "w_db w2 = []"
    "w_clock w2 + w_skew w2 = later" "w_terminal w2 = w_terminal w @ replicate (nat ?n) ''timed_out''"
    using assms(1,3,4) by (auto simp: w1_def w2_def Outbox_IncTerminalN_def elapse_def metric_timed_out_def)
  have tbl: "t' = swept now (w_tbl w)" by (simp add: assms(6) swept_def update_where_def)
  let ?d = "int (length (filter in_backlog t'))"
  let ?o = "oldest_age later t'"
  have stats: "tr_BacklogStats (tr_repo (world_reaper install)) None w2 =
      (Inr (?d, int64 (?o * Second)), elapse (w2\<lparr>w_tbl := t', w_db := []\<rparr>))"
    using w2 Messages_BacklogStats_Done [OF assms(7), of later]
    by (simp add: world_reaper_simps db_run_def ctx_done_def next_of_def tbl)
  have "reap (world_reaper install) None w =
      Outbox_SetBacklog ?d (int64 (?o * Second)) (elapse (w2\<lparr>w_tbl := t', w_db := []\<rparr>))"
    using stats unfolding reap_def world_reaper_metrics mark
    by (simp add: w2_def Outbox_IncTerminalN_def split: if_splits)
  moreover have "toward_zero (Duration_Seconds (int64 (?o * Second))) = ?o"
    using assms(8,9) Duration_Seconds_whole [of ?o] by (simp add: in_int64_def duration_units)
  moreover have "\<not> overdue now r" if "r \<in> set t'" for r
    using that by (auto simp: assms(6))
  ultimately show ?thesis
    using w2(5) by (simp add: assms(5) Outbox_SetBacklog_def overdue_count_def)
qed

definition sample_late_world :: world where
  "sample_late_world = sample_world\<lparr>w_clock := 3000000000, w_tbl := [sample_row 2 ''a'' SENT,
     sample_row 3 ''b'' FAILED, (sample_row 4 ''c'' PENDING)\<lparr>timeout_at := None\<rparr>]\<rparr>"

theorem reap_exact_witness:
  "\<exists>w'. w' = reap (world_reaper sample_install) None sample_late_world \<and> w_terminal w' = [''timed_out''] \<and>
     w_backlog w' = Some (1, 3)"
proof -
  let ?t = "map (\<lambda>r. if overdue 3000000000 r then timed_out_row 3000000000 r else r) (w_tbl sample_late_world)"
  have b: "filter in_backlog ?t = [(sample_row 4 ''c'' PENDING)\<lparr>timeout_at := None\<rparr>]"
    and o: "length (filter (overdue 3000000000) (w_tbl sample_late_world)) = 1"
    by (simp_all add: sample_late_world_def sample_world_def sample_row_def new_row_def sqlc_insert_params_def
      sample_params_def sql_ts_tsTz pg_ts_def duration_units overdue_def timed_out_row_def in_backlog_def)
  have age: "oldest_age 3000000000 ?t = 3"
    unfolding oldest_age_def b
    by (simp add: round_seconds_def duration_units sample_row_def new_row_def)
  have w: "w_stop sample_late_world = None" "w_db sample_late_world = []" "w_terminal sample_late_world = []"
    "3000000000 = w_clock sample_late_world + w_skew sample_late_world"
    "3000000000 = 3000000000 + int (next_of 0 (w_elapsed sample_late_world))"
    by (simp_all add: sample_late_world_def sample_world_def next_of_def)
  note r = reap_exact [OF w(1,2,4,5) refl refl, of sample_install]
  have "w_terminal (reap (world_reaper sample_install) None sample_late_world) = [''timed_out''] \<and>
      w_backlog (reap (world_reaper sample_install) None sample_late_world) = Some (1, 3)"
    using r unfolding b o age w(3) by (simp add: in_int32_def)
  then show ?thesis by blast
qed

end
