(* ===== verification/Outbox.thy ===== *)
theory Outbox
  imports Progress Reaper
begin

text \<open>
  The outbox as a whole: any number of worker goroutines (of one process or of several replicas), the
  reaper, clients that enqueue, and operators that resend or override a status, all on one table, in any
  interleaving, with crashes and lost answers. A step is one call of the source that reaches the database
  or the daemon; its effect on the table is that of the statement it runs. The theorems at the end show
  that the worker's tick, a pass of the reaper and an enqueued request are runs of this system.
\<close>

section \<open>The system\<close>

text \<open>What a worker goroutine holds between two calls: the message it claimed and the end of its lease.
  \<open>Claimed\<close> has sent nothing yet, \<open>Handed\<close> has the daemon's acceptance and still has to record it, and
  \<open>Failing\<close> has to record a failure.\<close>

datatype phase =
    Idle
  | Claimed SignalMessage gotime
  | Handed SignalMessage gotime
  | Failing SignalMessage gotime

fun held :: "phase \<Rightarrow> (SignalMessage \<times> gotime) option" where
  "held Idle = None"
| "held (Claimed m u) = Some (m, u)"
| "held (Handed m u) = Some (m, u)"
| "held (Failing m u) = Some (m, u)"

text \<open>\<open>o_log\<close> lists the payloads the daemon accepted, each with the message it was built from.\<close>

record outbox =
  o_tbl :: table
  o_now :: gotime
  o_workers :: "phase list"
  o_log :: "(uuid \<times> SendParams) list"

datatype actor = A_Clock | A_Client | A_Worker nat | A_Reaper | A_Resend | A_Override

abbreviation on_id :: "uuid \<Rightarrow> row \<Rightarrow> bool" where
  "on_id i r \<equiv> signal_message_id r = i"

inductive ostep :: "Install \<Rightarrow> actor \<Rightarrow> outbox \<Rightarrow> outbox \<Rightarrow> bool" for install where
  advance: "0 \<le> d \<Longrightarrow> ostep install A_Clock s (s\<lparr>o_now := o_now s + d\<rparr>)"
| enqueue: "insert_violation (o_tbl s) (new_row g n p) = None \<Longrightarrow>
    ostep install A_Client s (s\<lparr>o_tbl := o_tbl s @ [new_row g n p]\<rparr>)"
| claim: "k < length (o_workers s) \<Longrightarrow> o_workers s ! k = Idle \<Longrightarrow>
    cd \<in> set (o_tbl s) \<Longrightarrow> claimable (o_now s) cd \<Longrightarrow>
    ph = Idle \<or> ph = Claimed (row_message (claimed_row (o_now s) (claim_lease install) cd))
                           (o_now s + claim_lease install) \<Longrightarrow>
    ostep install (A_Worker k) s
      (s\<lparr>o_tbl := update_where (on_id (signal_message_id cd))
                 (claimed_row (o_now s) (claim_lease install)) (o_tbl s),
         o_workers := (o_workers s)[k := ph]\<rparr>)"
| send: "k < length (o_workers s) \<Longrightarrow> o_workers s ! k = Claimed m u \<Longrightarrow>
    BuildSendParams (scc_SenderPhoneNumber (inst_SignalCli install)) m paths = Inr p \<Longrightarrow>
    ph = Handed m u \<or> ph = Failing m u \<Longrightarrow>
    ostep install (A_Worker k) s
      (s\<lparr>o_workers := (o_workers s)[k := ph], o_log := o_log s @ [(sm_ID m, p)]\<rparr>)"
| attempt_fails: "k < length (o_workers s) \<Longrightarrow> o_workers s ! k = Claimed m u \<Longrightarrow>
    ostep install (A_Worker k) s (s\<lparr>o_workers := (o_workers s)[k := Failing m u]\<rparr>)"
| mark_sent: "k < length (o_workers s) \<Longrightarrow> o_workers s ! k = Handed m u \<Longrightarrow>
    ph = Handed m u \<or> ph = Idle \<Longrightarrow>
    ostep install (A_Worker k) s
      (s\<lparr>o_tbl := update_where (on_id (sm_ID m)) (sent_row n (Some res)) (o_tbl s),
         o_workers := (o_workers s)[k := ph]\<rparr>)"
| mark_failed: "k < length (o_workers s) \<Longrightarrow> o_workers s ! k = Failing m u \<Longrightarrow>
    ostep install (A_Worker k) s
      (s\<lparr>o_tbl := update_where (on_id (sm_ID m)) (failed_row n (Some err) nxt) (o_tbl s),
         o_workers := (o_workers s)[k := Idle]\<rparr>)"
| give_up: "k < length (o_workers s) \<Longrightarrow>
    ostep install (A_Worker k) s (s\<lparr>o_workers := (o_workers s)[k := Idle]\<rparr>)"
| reap: "ostep install A_Reaper s (s\<lparr>o_tbl := swept (o_now s) (o_tbl s)\<rparr>)"
| resend: "ostep install A_Resend s
      (s\<lparr>o_tbl := update_where (\<lambda>r. on_id i r \<and> resendable r) (resent_row n) (o_tbl s)\<rparr>)"
| override: "ostep install A_Override s
      (s\<lparr>o_tbl := update_where (\<lambda>r. on_id i r \<and> deleted_at r = None) (restatus_row n st) (o_tbl s)\<rparr>)"

text \<open>Runs in which only some actors act.\<close>

inductive runs :: "Install \<Rightarrow> (actor \<Rightarrow> bool) \<Rightarrow> outbox \<Rightarrow> outbox \<Rightarrow> bool" for install acts where
  stay: "runs install acts s s"
| more: "runs install acts s s' \<Longrightarrow> acts a \<Longrightarrow> ostep install a s' s'' \<Longrightarrow> runs install acts s s''"

definition hands_off :: "actor \<Rightarrow> bool" where
  "hands_off a \<longleftrightarrow> a \<noteq> A_Resend \<and> a \<noteq> A_Override"

definition no_override :: "actor \<Rightarrow> bool" where
  "no_override a \<longleftrightarrow> a \<noteq> A_Override"

definition start :: "nat \<Rightarrow> gotime \<Rightarrow> outbox" where
  "start n now = \<lparr>o_tbl = [], o_now = now, o_workers = replicate n Idle, o_log = []\<rparr>"

lemma runs_invariant:
  assumes "runs install acts s s'" and "P s"
    and "\<And>a s s'. P s \<Longrightarrow> acts a \<Longrightarrow> ostep install a s s' \<Longrightarrow> P s'"
  shows "P s'"
  using assms(1,2) by induction (auto intro: assms(3))

section \<open>What every step does to a row\<close>

lemma row_at_append:
  "row_at (t @ [r]) i = (case row_at t i of None \<Rightarrow> if signal_message_id r = i then Some r else None | Some x \<Rightarrow> Some x)"
  by (induction t) (auto simp: row_at_def)

text \<open>Rows are only ever added, and no step changes a row's identity, payload or target.\<close>

definition same_payload :: "row \<Rightarrow> row \<Rightarrow> bool" where
  "same_payload r r' \<longleftrightarrow> signal_message_id r' = signal_message_id r \<and> content r' = content r \<and>
     recipient r' = recipient r \<and> group_id r' = group_id r \<and> max_attempts r' = max_attempts r"

lemma same_payload_trans [trans]: "same_payload a b \<Longrightarrow> same_payload b c \<Longrightarrow> same_payload a c"
  by (simp add: same_payload_def)

lemma same_payload_refl [simp]: "same_payload a a"
  by (simp add: same_payload_def)

lemma same_payload_writes [simp]:
  "same_payload r (claimed_row n l r)" "same_payload r (sent_row n res r)"
  "same_payload r (failed_row n err nxt r)" "same_payload r (timed_out_row n r)"
  "same_payload r (resent_row n r)" "same_payload r (restatus_row n st r)"
  by (simp_all add: same_payload_def row_writes timed_out_row_def resent_row_def restatus_row_def)

lemmas row_at_writes = claimed.row_at_update sent.row_at_update failed.row_at_update
  timedout.row_at_update resent.row_at_update restatus.row_at_update

lemma ostep_row:
  assumes "ostep install a s s'" and "row_at (o_tbl s) i = Some r"
  obtains r' where "row_at (o_tbl s') i = Some r'" and "same_payload r r'"
  using assms
  by cases (auto simp: row_at_append swept_def row_at_writes)

text \<open>What a step does to the messages the workers hold and to the log.\<close>

definition holds :: "outbox \<Rightarrow> SignalMessage \<Rightarrow> bool" where
  "holds s m \<longleftrightarrow> (\<exists>ph \<in> set (o_workers s). \<exists>u. held ph = Some (m, u))"

lemma holdsI: "k < length (o_workers s) \<Longrightarrow> held (o_workers s ! k) = Some (m, u) \<Longrightarrow> holds s m"
  by (auto simp: holds_def intro!: bexI [of _ "o_workers s ! k"])

lemma holds_update:
  assumes "holds (s\<lparr>o_workers := (o_workers s)[k := ph]\<rparr>) m"
  shows "holds s m \<or> (\<exists>u. held ph = Some (m, u))"
  using assms set_update_subset_insert [of "o_workers s" k ph] by (auto simp: holds_def)

lemma holds_more [simp]:
  "holds (s\<lparr>o_tbl := t\<rparr>) m = holds s m" "holds (s\<lparr>o_now := n\<rparr>) m = holds s m"
  "holds (s\<lparr>o_log := l\<rparr>) m = holds s m"
  by (simp_all add: holds_def)

lemma ostep_holds:
  assumes "ostep install a s s'" and "holds s' m"
  shows "holds s m \<or> (\<exists>cd \<in> set (o_tbl s). claimable (o_now s) cd \<and>
    m = row_message (claimed_row (o_now s) (claim_lease install) cd))"
  using assms
proof cases
  case (claim k cd ph)
  have "holds (s\<lparr>o_workers := (o_workers s)[k := ph]\<rparr>) m"
    using assms(2) claim(2) by (simp add: holds_def)
  from holds_update [OF this] claim show ?thesis by auto
next
  case (send k m0 u paths p ph)
  have "holds (s\<lparr>o_workers := (o_workers s)[k := ph]\<rparr>) m"
    using assms(2) send(2) by (simp add: holds_def)
  from holds_update [OF this] send holdsI [of k s m0 u] show ?thesis by auto
next
  case (attempt_fails k m0 u)
  with holds_update [of s k "Failing m0 u" m] assms(2) holdsI [of k s m0 u] show ?thesis by auto
next
  case (mark_sent k m0 u ph n res)
  have "holds (s\<lparr>o_workers := (o_workers s)[k := ph]\<rparr>) m"
    using assms(2) mark_sent(2) by (simp add: holds_def)
  from holds_update [OF this] mark_sent holdsI [of k s m0 u] show ?thesis by auto
next
  case (mark_failed k m0 u n err nxt)
  have "holds (s\<lparr>o_workers := (o_workers s)[k := Idle]\<rparr>) m"
    using assms(2) mark_failed(2) by (simp add: holds_def)
  from holds_update [OF this] show ?thesis by auto
next
  case (give_up k)
  with holds_update [of s k Idle m] assms(2) show ?thesis by auto
qed auto

lemma ostep_log:
  assumes "ostep install a s s'"
  obtains (same) "o_log s' = o_log s"
  | (sent) m p paths where "holds s m" and "o_log s' = o_log s @ [(sm_ID m, p)]" and "o_tbl s' = o_tbl s"
      and "BuildSendParams (scc_SenderPhoneNumber (inst_SignalCli install)) m paths = Inr p"
  using assms
proof cases
  case (send k m u paths p ph)
  then have "holds s m" using holdsI [of k s m u] by simp
  with send show ?thesis using that(2) by simp
qed (use that(1) in auto)

section \<open>Payloads\<close>

definition of_row :: "SignalMessage \<Rightarrow> row \<Rightarrow> bool" where
  "of_row m r \<longleftrightarrow> sm_Content m = content r \<and> sm_Recipient m = recipient r \<and> sm_GroupID m = group_id r"

definition known :: "outbox \<Rightarrow> SignalMessage \<Rightarrow> bool" where
  "known s m \<longleftrightarrow> (\<exists>r. row_at (o_tbl s) (sm_ID m) = Some r \<and> of_row m r)"

text \<open>A payload that carries a row: the account, the content and the target.\<close>

definition carries :: "string \<Rightarrow> SendParams \<Rightarrow> row \<Rightarrow> bool" where
  "carries account p r \<longleftrightarrow> sp_Account p = account \<and> sp_Message p = content r \<and>
     sp_Recipient p = (if nonempty (recipient r) then [the (recipient r)] else []) \<and>
     sp_GroupID p = (if nonempty (recipient r) then [] else [the (group_id r)])"

definition payloads_ok :: "string \<Rightarrow> outbox \<Rightarrow> bool" where
  "payloads_ok account s \<longleftrightarrow> distinct (map signal_message_id (o_tbl s)) \<and>
     (\<forall>m. holds s m \<longrightarrow> known s m) \<and>
     (\<forall>(i, p) \<in> set (o_log s). \<exists>r. row_at (o_tbl s) i = Some r \<and> carries account p r)"

lemma ostep_distinct:
  assumes "ostep install a s s'" and "distinct (map signal_message_id (o_tbl s))"
  shows "distinct (map signal_message_id (o_tbl s'))"
  using assms
  by cases (auto simp: insert_violation_None swept_def claimed.update_keeps_ids sent.update_keeps_ids
    failed.update_keeps_ids timedout.update_keeps_ids resent.update_keeps_ids restatus.update_keeps_ids)

lemma known_step:
  assumes "ostep install a s s'" and "known s m"
  shows "known s' m"
proof -
  obtain r where r: "row_at (o_tbl s) (sm_ID m) = Some r" "of_row m r"
    using assms(2) by (auto simp: known_def)
  from assms(1) r(1) obtain r' where "row_at (o_tbl s') (sm_ID m) = Some r'" "same_payload r r'"
    by (rule ostep_row)
  with r(2) show ?thesis by (auto simp: known_def of_row_def same_payload_def)
qed

lemma known_claimed:
  assumes "distinct (map signal_message_id (o_tbl s))" and "cd \<in> set (o_tbl s)"
  shows "known s (row_message (claimed_row n l cd))"
  using assms row_at_mem
  by (auto simp: known_def of_row_def row_message_def claimed_row_def)

lemma payloads_step:
  assumes "payloads_ok (scc_SenderPhoneNumber (inst_SignalCli install)) s" and "ostep install a s s'"
  shows "payloads_ok (scc_SenderPhoneNumber (inst_SignalCli install)) s'"
proof -
  let ?acc = "scc_SenderPhoneNumber (inst_SignalCli install)"
  have d: "distinct (map signal_message_id (o_tbl s))"
    and k: "holds s m \<Longrightarrow> known s m" for m
    using assms(1) by (auto simp: payloads_ok_def)
  have old: "\<exists>r. row_at (o_tbl s') i = Some r \<and> carries ?acc p r" if mem: "(i, p) \<in> set (o_log s)" for i p
  proof -
    obtain r where r: "row_at (o_tbl s) i = Some r" "carries ?acc p r"
      using assms(1) mem by (fastforce simp: payloads_ok_def)
    from assms(2) r(1) obtain r' where "row_at (o_tbl s') i = Some r'" "same_payload r r'"
      by (rule ostep_row)
    with r(2) show ?thesis by (auto simp: carries_def same_payload_def)
  qed
  have "\<exists>r. row_at (o_tbl s') i = Some r \<and> carries ?acc p r" if "(i, p) \<in> set (o_log s')" for i p
    using assms(2)
  proof (cases rule: ostep_log)
    case (sent m q paths)
    obtain r where r: "row_at (o_tbl s) (sm_ID m) = Some r" "of_row m r"
      using k [OF sent(1)] by (auto simp: known_def)
    then have "carries ?acc q r"
      using BuildSendParams_fields [OF sent(4)] by (auto simp: carries_def of_row_def)
    with r old that sent(2,3) show ?thesis by auto
  qed (use old that in simp)
  moreover have "known s' m" if "holds s' m" for m
    using ostep_holds [OF assms(2) that] k known_step [OF assms(2)] known_claimed [OF d] by blast
  ultimately show ?thesis
    using ostep_distinct [OF assms(2) d] by (auto simp: payloads_ok_def)
qed

lemma payloads_start: "payloads_ok account (start n now)"
  by (auto simp: payloads_ok_def start_def holds_def)

lemma payloads_runs:
  assumes "runs install acts (start n now) s"
  shows "payloads_ok (scc_SenderPhoneNumber (inst_SignalCli install)) s"
  using assms payloads_start by (rule runs_invariant) (rule payloads_step)

text \<open>C8. Whatever the interleaving of workers, crashes, the reaper, clients and operators: every payload
  the daemon has accepted is that of a stored row, with the row's content and target and the configured
  account.\<close>

theorem accepted_payloads:
  assumes "runs install (\<lambda>_. True) (start n now) s" and "(i, p) \<in> set (o_log s)"
  shows "\<exists>r. row_at (o_tbl s) i = Some r \<and> sp_Account p = scc_SenderPhoneNumber (inst_SignalCli install) \<and>
    sp_Message p = content r \<and>
    sp_Recipient p = (if nonempty (recipient r) then [the (recipient r)] else []) \<and>
    sp_GroupID p = (if nonempty (recipient r) then [] else [the (group_id r)])"
  using payloads_runs [OF assms(1)] assms(2) by (fastforce simp: payloads_ok_def carries_def)

section \<open>Sent rows\<close>

definition accepted :: "(uuid \<times> SendParams) list \<Rightarrow> uuid \<Rightarrow> bool" where
  "accepted l i \<longleftrightarrow> i \<in> fst ` set l"

lemma accepted_append [simp]: "accepted (l @ [(j, p)]) i \<longleftrightarrow> i = j \<or> accepted l i"
  by (auto simp: accepted_def)

definition sent_ok :: "outbox \<Rightarrow> bool" where
  "sent_ok s \<longleftrightarrow> (\<forall>r \<in> set (o_tbl s). status r = SENT \<longrightarrow> accepted (o_log s) (signal_message_id r)) \<and>
     (\<forall>m u. Handed m u \<in> set (o_workers s) \<longrightarrow> accepted (o_log s) (sm_ID m))"

lemma in_update: "x \<in> set (xs[k := y]) \<Longrightarrow> x = y \<or> x \<in> set xs"
  using set_update_subset_insert [of xs k y] by auto

lemma in_update_where: "r \<in> set (update_where P f t) \<Longrightarrow> \<exists>q \<in> set t. r = (if P q then f q else q)"
  by (auto simp: update_where_def)

lemma sent_step:
  assumes "sent_ok s" and "no_override a" and "ostep install a s s'"
  shows "sent_ok s'"
  using assms(3)
proof cases
  case (send k m u paths p ph)
  then show ?thesis
    using assms(1) by (auto simp: sent_ok_def dest!: in_update)
next
  case (mark_sent k m u ph n res)
  then have "Handed m u \<in> set (o_workers s)" by (metis nth_mem)
  then have "accepted (o_log s) (sm_ID m)" using assms(1) by (auto simp: sent_ok_def)
  with mark_sent assms(1) show ?thesis
    by (auto simp: sent_ok_def sent_row_def dest!: in_update in_update_where split: if_splits)
next
  case (override i n st)
  then show ?thesis using assms(2) by (simp add: no_override_def)
qed (use assms(1) in \<open>auto simp: sent_ok_def new_row_def claimed_row_def failed_row_def swept_def
    timed_out_row_def resent_row_def dest!: in_update in_update_where split: if_splits\<close>)

lemma sent_start: "sent_ok (start n now)"
  by (auto simp: sent_ok_def start_def)


section \<open>Leases\<close>

text \<open>The row of a held message, as long as the lease lasts, is one no claim can take.\<close>

definition shut :: "gotime \<Rightarrow> row \<Rightarrow> bool" where
  "shut u r \<longleftrightarrow> status r \<noteq> PENDING \<and> (status r = SENDING \<longrightarrow> u \<le> next_attempt_at r)"

definition guarded :: "outbox \<Rightarrow> SignalMessage \<Rightarrow> gotime \<Rightarrow> bool" where
  "guarded s m u \<longleftrightarrow> u < o_now s \<or>
     (case row_at (o_tbl s) (sm_ID m) of None \<Rightarrow> False | Some r \<Rightarrow> shut u r)"

lemma shut_writes [simp]:
  "shut u (sent_row n res r)" "shut u (failed_row n err nxt r)" "shut u (timed_out_row n r)"
  by (simp_all add: shut_def row_writes timed_out_row_def)

definition leases_ok :: "outbox \<Rightarrow> bool" where
  "leases_ok s \<longleftrightarrow> distinct (map signal_message_id (o_tbl s)) \<and>
     (\<forall>k < length (o_workers s). \<forall>m u. held (o_workers s ! k) = Some (m, u) \<longrightarrow> guarded s m u) \<and>
     (\<forall>j < length (o_workers s). \<forall>k < length (o_workers s). \<forall>m u m' u'. j \<noteq> k \<longrightarrow>
        held (o_workers s ! j) = Some (m, u) \<longrightarrow> held (o_workers s ! k) = Some (m', u') \<longrightarrow>
        sm_ID m = sm_ID m' \<longrightarrow> u < o_now s \<or> u' < o_now s)"

text \<open>Every step by which no operator interferes keeps the guard of a held message.\<close>

lemma guarded_step:
  assumes "guarded s m u" and "hands_off a" and "ostep install a s s'"
    and "distinct (map signal_message_id (o_tbl s))"
  shows "guarded s' m u"
  using assms(3)
proof cases
  case (claim k cd ph)
  have cd: "row_at (o_tbl s) (signal_message_id cd) = Some cd"
    using row_at_mem [OF assms(4) claim(5)] .
  show ?thesis
  proof (cases "u < o_now s \<or> sm_ID m \<noteq> signal_message_id cd")
    case True
    then consider "u < o_now s" | "row_at (o_tbl s') (sm_ID m) = row_at (o_tbl s) (sm_ID m)"
      using claim(2) row_at_other [of "sm_ID m" "signal_message_id cd"] by auto
    then show ?thesis using assms(1) claim(2) by cases (simp_all add: guarded_def)
  next
    case False
    then show ?thesis
      using assms(1) claim(6) cd by (auto simp: guarded_def shut_def claimable_def)
  qed
qed (use assms(1,2) in \<open>auto simp: guarded_def hands_off_def row_at_append swept_def row_at_writes
    split: option.splits\<close>)

text \<open>A worker that starts to hold a message does so by a claim, at the current instant.\<close>

lemma ostep_held:
  assumes "ostep install a s s'" and "k < length (o_workers s')" and "held (o_workers s' ! k) = Some (m, u)"
  obtains (before) "held (o_workers s ! k) = Some (m, u)" and "k < length (o_workers s)"
  | (claimed) cd where "a = A_Worker k" and "cd \<in> set (o_tbl s)" and "claimable (o_now s) cd"
      and "m = row_message (claimed_row (o_now s) (claim_lease install) cd)"
      and "u = o_now s + claim_lease install" and "o_now s' = o_now s"
      and "o_tbl s' = update_where (on_id (signal_message_id cd))
             (claimed_row (o_now s) (claim_lease install)) (o_tbl s)"
proof -
  have len: "k < length (o_workers s)" using assms(1,2) by cases auto
  from assms(1) show ?thesis
  proof cases
    case (claim j cd ph)
    show ?thesis
    proof (cases "k = j")
      case True
      with claim assms(3) have "held ph = Some (m, u)" by simp
      with claim True that(2) [of cd] show ?thesis by auto
    qed (use claim assms(3) len that(1) in auto)
  next
    case (send j m' u' paths p ph)
    show ?thesis by (cases "k = j") (use send assms(3) len that(1) in auto)
  next
    case (attempt_fails j m' u')
    show ?thesis by (cases "k = j") (use attempt_fails assms(3) len that(1) in auto)
  next
    case (mark_sent j m' u' ph n res)
    show ?thesis by (cases "k = j") (use mark_sent assms(3) len that(1) in auto)
  next
    case (mark_failed j m' u' n err nxt)
    show ?thesis by (cases "k = j") (use mark_failed assms(3) len that(1) in auto)
  next
    case (give_up j)
    show ?thesis by (cases "k = j") (use give_up assms(3) len that(1) in auto)
  qed (use assms(3) len that(1) in auto)
qed

lemma ostep_now: "ostep install a s s' \<Longrightarrow> o_now s \<le> o_now s'"
  by (cases rule: ostep.cases) auto

text \<open>A claim of a row means that every lease on it has run out.\<close>

lemma claim_expired:
  assumes "guarded s m u" and "claimable (o_now s) cd" and "cd \<in> set (o_tbl s)"
    and "distinct (map signal_message_id (o_tbl s))" and "sm_ID m = signal_message_id cd"
  shows "u < o_now s"
  using assms row_at_mem [OF assms(4,3)] by (auto simp: guarded_def shut_def claimable_def)

lemma leases_step:
  assumes "leases_ok s" and "hands_off a" and st: "ostep install a s s'"
  shows "leases_ok s'"
proof -
  have d: "distinct (map signal_message_id (o_tbl s))"
    and g: "held (o_workers s ! k) = Some (m, u) \<Longrightarrow> k < length (o_workers s) \<Longrightarrow> guarded s m u" for k m u
    using assms(1) by (auto simp: leases_ok_def)
  have g': "guarded s' m u" if "k < length (o_workers s')" "held (o_workers s' ! k) = Some (m, u)" for k m u
    using st that
  proof (cases rule: ostep_held)
    case before
    with guarded_step [OF g assms(2) st d] show ?thesis by blast
  next
    case (claimed cd)
    then show ?thesis
      using row_at_mem [OF d claimed(2)]
      by (auto simp: guarded_def shut_def claimed.row_at_update claimed_row_def row_message_def)
  qed
  have "u < o_now s' \<or> u' < o_now s'"
    if j: "j < length (o_workers s')" "held (o_workers s' ! j) = Some (m, u)"
      and k: "k < length (o_workers s')" "held (o_workers s' ! k) = Some (m', u')"
      and ne: "j \<noteq> k" "sm_ID m = sm_ID m'" for j k m m' u u'
    using st j
  proof (cases rule: ostep_held)
    case before: before
    show ?thesis
      using st k
    proof (cases rule: ostep_held)
      case before': before
      then have "u < o_now s \<or> u' < o_now s"
        using assms(1) before ne unfolding leases_ok_def by blast
      with ostep_now [OF st] show ?thesis by auto
    next
      case (claimed cd)
      then show ?thesis
        using claim_expired [OF g [OF before] claimed(3,2) d] ne(2) by (simp add: row_message_def claimed_row_def)
    qed
  next
    case (claimed cd)
    have "held (o_workers s ! k) = Some (m', u')" "k < length (o_workers s)"
      using st k by (cases rule: ostep_held, use claimed(1) ne(1) in auto)+
    then have "u' < o_now s"
      using claim_expired [OF g claimed(3,2) d] ne(2) claimed(4) by (simp add: row_message_def claimed_row_def)
    with ostep_now [OF st] show ?thesis by auto
  qed
  with g' ostep_distinct [OF st d] show ?thesis
    unfolding leases_ok_def by blast
qed

lemma leases_start: "leases_ok (start n now)"
  by (auto simp: leases_ok_def start_def)

text \<open>C1. As long as no operator resends or overrides, at most one worker at a time holds an unexpired
  lease on a message: of two that hold the same message, one has a lease that has run out.\<close>

theorem lease_exclusive:
  assumes "runs install hands_off (start n now) s"
    and "j < length (o_workers s)" and "held (o_workers s ! j) = Some (m, u)"
    and "k < length (o_workers s)" and "held (o_workers s ! k) = Some (m', u')"
    and "sm_ID m = sm_ID m'" and "j \<noteq> k"
  shows "u < o_now s \<or> u' < o_now s"
proof -
  have "leases_ok s"
    using assms(1) leases_start by (rule runs_invariant) (rule leases_step)
  with assms(2-7) show ?thesis unfolding leases_ok_def by blast
qed

section \<open>Sends and attempts\<close>

definition is_claim :: "uuid \<Rightarrow> phase \<Rightarrow> bool" where
  "is_claim i ph = (case ph of Claimed m u \<Rightarrow> sm_ID m = i | _ \<Rightarrow> False)"

definition claimers :: "uuid \<Rightarrow> outbox \<Rightarrow> nat" where
  "claimers i s = length (filter (is_claim i) (o_workers s))"

definition sends :: "uuid \<Rightarrow> outbox \<Rightarrow> nat" where
  "sends i s = length (filter (\<lambda>(j, p). j = i) (o_log s))"

definition tries :: "uuid \<Rightarrow> table \<Rightarrow> int" where
  "tries i t = (case row_at t i of None \<Rightarrow> 0 | Some r \<Rightarrow> attempts r)"

definition sends_ok :: "outbox \<Rightarrow> bool" where
  "sends_ok s \<longleftrightarrow> (\<forall>i. int (sends i s + claimers i s) \<le> tries i (o_tbl s))"

lemma count_update:
  "k < length ws \<Longrightarrow> length (filter P (ws[k := x])) + (if P (ws ! k) then 1 else 0) =
     length (filter P ws) + (if P x then 1 else 0)"
proof (induction ws arbitrary: k)
  case (Cons a ws)
  then show ?case by (cases k) auto
qed simp

lemma is_claim_simps [simp]:
  "\<not> is_claim i Idle" "is_claim i (Claimed m u) \<longleftrightarrow> sm_ID m = i" "\<not> is_claim i (Handed m u)"
  "\<not> is_claim i (Failing m u)"
  by (simp_all add: is_claim_def)

text \<open>No step but a resend lowers the attempts of a row, and a claim adds one.\<close>

lemma attempts_writes [simp]:
  "attempts (claimed_row n l r) = attempts r + 1" "attempts (sent_row n res r) = attempts r"
  "attempts (failed_row n err nxt r) = attempts r" "attempts (timed_out_row n r) = attempts r"
  "attempts (new_row g n p) = 0"
  by (simp_all add: row_writes timed_out_row_def new_row_def)

lemma tries_writes [simp]:
  "tries i (t @ [new_row g n p]) = tries i t"
  "tries i (update_where P (sent_row n res) t) = tries i t"
  "tries i (update_where P (failed_row n err nxt) t) = tries i t"
  "tries i (swept n t) = tries i t"
  by (auto simp: tries_def row_at_append swept_def row_at_writes split: option.split)

lemma tries_claimed:
  assumes "row_at t j = Some r"
  shows "tries i (update_where (on_id j) (claimed_row n l) t) = tries i t + (if i = j then 1 else 0)"
  using assms by (auto simp: tries_def row_at_self row_at_other split: option.split)

lemma claimers_update:
  assumes "k < length (o_workers s)" and "o_workers s' = (o_workers s)[k := ph]"
  shows "claimers i s' + (if is_claim i (o_workers s ! k) then 1 else 0) =
    claimers i s + (if is_claim i ph then 1 else 0)"
  using count_update [OF assms(1), of "is_claim i" ph] by (simp only: claimers_def assms(2))

lemma sends_step:
  assumes "sends_ok s" and "hands_off a" and "ostep install a s s'"
    and "distinct (map signal_message_id (o_tbl s))"
  shows "sends_ok s'"
proof -
  have "int (sends i s' + claimers i s') + tries i (o_tbl s) \<le>
      int (sends i s + claimers i s) + tries i (o_tbl s')" for i
    using assms(3)
  proof cases
    case (claim k cd ph)
    have "row_at (o_tbl s) (signal_message_id cd) = Some cd" using row_at_mem [OF assms(4) claim(5)] .
    moreover have "is_claim i ph \<longrightarrow> i = signal_message_id cd"
      using claim(7) by (auto simp: row_message_def claimed_row_def)
    moreover have "sends i s' = sends i s" using claim(2) by (simp add: sends_def)
    ultimately show ?thesis
      using claim(2,4) claimers_update [OF claim(3), of s' ph i] by (auto simp: tries_claimed split: if_splits)
  next
    case (send k m u paths p ph)
    have "sends i s' = sends i s + (if i = sm_ID m then 1 else 0)"
      using send(2) by (simp add: sends_def)
    then show ?thesis
      using send(2,4,6) claimers_update [OF send(3), of s' ph i] by (auto split: if_splits)
  next
    case (attempt_fails k m u)
    then show ?thesis
      using claimers_update [OF attempt_fails(3), of s' "Failing m u" i]
      by (simp add: sends_def split: if_splits)
  next
    case (mark_sent k m u ph n res)
    then show ?thesis
      using claimers_update [OF mark_sent(3), of s' ph i] by (auto simp: sends_def)
  next
    case (mark_failed k m u n err nxt)
    then show ?thesis
      using claimers_update [OF mark_failed(3), of s' Idle i] by (simp add: sends_def)
  next
    case (give_up k)
    then show ?thesis
      using claimers_update [OF give_up(3), of s' Idle i] by (simp add: sends_def split: if_splits)
  qed (use assms(2) in \<open>simp_all add: sends_def claimers_def hands_off_def\<close>)
  with assms(1) show ?thesis unfolding sends_ok_def by (smt (verit))
qed

lemma sends_start: "sends_ok (start n now)"
  by (simp add: sends_ok_def sends_def claimers_def start_def tries_def row_at_def)

text \<open>C2. As long as no operator resends or overrides, a message is handed to the daemon no more often
  than its row counts attempts, however many workers crash or lose answers.\<close>

theorem sends_bounded:
  assumes "runs install hands_off (start n now) s" and "row_at (o_tbl s) i = Some r"
  shows "int (length (filter (\<lambda>(j, p). j = i) (o_log s))) \<le> attempts r"
proof -
  have "payloads_ok (scc_SenderPhoneNumber (inst_SignalCli install)) s \<and> sends_ok s"
    using assms(1) conjI [OF payloads_start sends_start]
  proof (rule runs_invariant)
    fix a s s'
    assume "payloads_ok (scc_SenderPhoneNumber (inst_SignalCli install)) s \<and> sends_ok s" "hands_off a"
      "ostep install a s s'"
    then show "payloads_ok (scc_SenderPhoneNumber (inst_SignalCli install)) s' \<and> sends_ok s'"
      using payloads_step sends_step unfolding payloads_ok_def by meson
  qed
  then have "int (sends i s + claimers i s) \<le> attempts r"
    using assms(2) unfolding sends_ok_def tries_def by (metis option.simps(5))
  then show ?thesis by (simp add: sends_def)
qed

section \<open>Failed rows\<close>

definition parked :: "uuid \<Rightarrow> int \<Rightarrow> SendParams list \<Rightarrow> outbox \<Rightarrow> bool" where
  "parked i k ps s \<longleftrightarrow> distinct (map signal_message_id (o_tbl s)) \<and>
     (case row_at (o_tbl s) i of None \<Rightarrow> False
      | Some r \<Rightarrow> status r \<in> {FAILED, TIMED_OUT} \<and> attempts r = k) \<and>
     (\<forall>m. holds s m \<longrightarrow> sm_ID m \<noteq> i) \<and> map snd (filter (\<lambda>(j, p). j = i) (o_log s)) = ps"

lemma parked_step:
  assumes "parked i k ps s" and "hands_off a" and "ostep install a s s'"
  shows "parked i k ps s'"
proof -
  have d: "distinct (map signal_message_id (o_tbl s))" and h: "\<And>m. holds s m \<Longrightarrow> sm_ID m \<noteq> i"
    and c: "cd \<in> set (o_tbl s) \<Longrightarrow> claimable (o_now s) cd \<Longrightarrow> signal_message_id cd \<noteq> i" for cd
    using assms(1) row_at_mem [of "o_tbl s" cd] by (auto simp: parked_def claimable_def)
  have "sm_ID m \<noteq> i" if "holds s' m" for m
    using ostep_holds [OF assms(3) that] h c by (metis claimed_message_id)
  moreover have "map snd (filter (\<lambda>(j, p). j = i) (o_log s')) = ps"
    using assms(3) by (cases rule: ostep_log) (use assms(1) h in \<open>auto simp: parked_def\<close>)
  moreover have "case row_at (o_tbl s') i of None \<Rightarrow> False
      | Some r \<Rightarrow> status r \<in> {FAILED, TIMED_OUT} \<and> attempts r = k"
    using assms(3)
  proof cases
    case (claim j cd ph)
    with assms(1) c [of cd] show ?thesis by (auto simp: parked_def row_at_other)
  next
    case (mark_sent j m u ph n res)
    with assms(1) h [OF holdsI [of j s m u]] show ?thesis by (auto simp: parked_def row_at_other)
  next
    case (mark_failed j m u n err nxt)
    with assms(1) h [OF holdsI [of j s m u]] show ?thesis by (auto simp: parked_def row_at_other)
  qed (use assms(1,2) in \<open>auto simp: parked_def hands_off_def row_at_append swept_def row_at_writes
      timed_out_row_def split: option.splits\<close>)
  ultimately show ?thesis
    using ostep_distinct [OF assms(3) d] by (simp add: parked_def)
qed


section \<open>The code runs in this system\<close>

definition snap :: "table \<Rightarrow> gotime \<Rightarrow> phase list \<Rightarrow> (uuid \<times> SendParams) list \<Rightarrow> outbox" where
  "snap t n ws l = \<lparr>o_tbl = t, o_now = n, o_workers = ws, o_log = l\<rparr>"

lemma snap_advance: "0 \<le> d \<Longrightarrow> ostep install A_Clock (snap t n ws l) (snap t (n + d) ws l)"
  using ostep.advance [of d install "snap t n ws l"] by (simp add: snap_def)

lemma snap_enqueue:
  "insert_violation t (new_row g n' p) = None \<Longrightarrow>
     ostep install A_Client (snap t n ws l) (snap (t @ [new_row g n' p]) n ws l)"
  using ostep.enqueue [of "snap t n ws l" g n' p install] by (simp add: snap_def)

lemma snap_claim:
  "k < length ws \<Longrightarrow> ws ! k = Idle \<Longrightarrow> cd \<in> set t \<Longrightarrow> claimable n cd \<Longrightarrow>
     ph = Idle \<or> ph = Claimed (row_message (claimed_row n (claim_lease install) cd)) (n + claim_lease install) \<Longrightarrow>
     ostep install (A_Worker k) (snap t n ws l)
       (snap (update_where (on_id (signal_message_id cd)) (claimed_row n (claim_lease install)) t) n (ws[k := ph]) l)"
  using ostep.claim [of k "snap t n ws l" cd ph install] by (simp add: snap_def)

lemma snap_send:
  "k < length ws \<Longrightarrow> ws ! k = Claimed m u \<Longrightarrow>
     BuildSendParams (scc_SenderPhoneNumber (inst_SignalCli install)) m paths = Inr p \<Longrightarrow>
     ph = Handed m u \<or> ph = Failing m u \<Longrightarrow>
     ostep install (A_Worker k) (snap t n ws l) (snap t n (ws[k := ph]) (l @ [(sm_ID m, p)]))"
  using ostep.send [of k "snap t n ws l" m u install paths p ph] by (simp add: snap_def)

lemma snap_attempt_fails:
  "k < length ws \<Longrightarrow> ws ! k = Claimed m u \<Longrightarrow>
     ostep install (A_Worker k) (snap t n ws l) (snap t n (ws[k := Failing m u]) l)"
  using ostep.attempt_fails [of k "snap t n ws l" m u install] by (simp add: snap_def)

lemma snap_mark_sent:
  "k < length ws \<Longrightarrow> ws ! k = Handed m u \<Longrightarrow> ph = Handed m u \<or> ph = Idle \<Longrightarrow>
     ostep install (A_Worker k) (snap t n ws l)
       (snap (update_where (on_id (sm_ID m)) (sent_row n' (Some res)) t) n (ws[k := ph]) l)"
  using ostep.mark_sent [of k "snap t n ws l" m u ph install n' res] by (simp add: snap_def)

lemma snap_mark_failed:
  "k < length ws \<Longrightarrow> ws ! k = Failing m u \<Longrightarrow>
     ostep install (A_Worker k) (snap t n ws l)
       (snap (update_where (on_id (sm_ID m)) (failed_row n' (Some err) nxt) t) n (ws[k := Idle]) l)"
  using ostep.mark_failed [of k "snap t n ws l" m u install n' err nxt] by (simp add: snap_def)

lemma snap_give_up:
  "k < length ws \<Longrightarrow> ostep install (A_Worker k) (snap t n ws l) (snap t n (ws[k := Idle]) l)"
  using ostep.give_up [of k "snap t n ws l" install] by (simp add: snap_def)

lemma snap_reap: "ostep install A_Reaper (snap t n ws l) (snap (swept n t) n ws l)"
  using ostep.reap [of install "snap t n ws l"] by (simp add: snap_def)

text \<open>One attempt of worker \<open>k\<close>, from the claim on.\<close>

lemma attempt_run:
  assumes "k < length ws" and "acts (A_Worker k)"
    and "attempt_outcome (scc_SenderPhoneNumber (inst_SignalCli install)) m v v'"
    and "runs install acts s (snap (v_tbl v) n (ws[k := Claimed m u]) l)"
    and "v_accepted v = map snd l"
  shows "\<exists>l'. map snd l' = v_accepted v' \<and> runs install acts s (snap (v_tbl v') n (ws[k := Idle]) l')"
  using assms(3)
proof (cases rule: attempt_outcome_cases)
  case (accepted paths p f)
  let ?l = "l @ [(sm_ID m, p)]"
  have h: "runs install acts s (snap (v_tbl v) n (ws[k := Handed m u]) ?l)"
    using runs.more [OF assms(4,2) snap_send [of k "ws[k := Claimed m u]" m u install paths p "Handed m u"]]
      assms(1) accepted(1) by simp
  have "runs install acts s (snap (v_tbl v') n (ws[k := Idle]) ?l)"
  proof (cases "f = (\<lambda>r. r)")
    case True
    then show ?thesis
      using runs.more [OF h assms(2) snap_give_up [of k "ws[k := Handed m u]"]] assms(1) accepted(3)
      by (simp add: update_where_def)
  next
    case False
    with accepted(4) obtain n' res where "f = sent_row n' (Some res)" by blast
    then show ?thesis
      using runs.more [OF h assms(2) snap_mark_sent [of k "ws[k := Handed m u]" m u Idle]] assms(1) accepted(3)
      by simp
  qed
  then show ?thesis using accepted(2) assms(5) by (intro exI [of _ ?l]) simp
next
  case (failed ps f)
  obtain l' where l': "map snd l' = v_accepted v @ ps"
    and h: "runs install acts s (snap (v_tbl v) n (ws[k := Failing m u]) l')"
  proof (cases "ps = []")
    case True
    with that [of l] runs.more [OF assms(4,2) snap_attempt_fails [of k "ws[k := Claimed m u]" m u]] assms(1,5)
    show ?thesis by simp
  next
    case False
    with failed(1) obtain paths p where "ps = [p]"
      "BuildSendParams (scc_SenderPhoneNumber (inst_SignalCli install)) m paths = Inr p" by blast
    with that [of "l @ [(sm_ID m, p)]"] assms(1,5) runs.more [OF assms(4,2)
      snap_send [of k "ws[k := Claimed m u]" m u install paths p "Failing m u"]]
    show ?thesis by simp
  qed
  have "runs install acts s (snap (v_tbl v') n (ws[k := Idle]) l')"
  proof (cases "f = (\<lambda>r. r)")
    case True
    then show ?thesis
      using runs.more [OF h assms(2) snap_give_up [of k "ws[k := Failing m u]"]] assms(1) failed(3)
      by (simp add: update_where_def)
  next
    case False
    with failed(4) obtain n' err nxt where "f = failed_row n' (Some err) nxt" by blast
    then show ?thesis
      using runs.more [OF h assms(2) snap_mark_failed [of k "ws[k := Failing m u]" m u]] assms(1) failed(3)
      by simp
  qed
  with l' failed(2) show ?thesis by auto
qed

text \<open>C7. The worker's code stays within the system: whatever the outside answers, one tick of a worker is
  a run in which only that worker and the clock act, from the table, the clock and the daemon's log before
  to those after the tick, and it leaves the other workers alone.\<close>

theorem tick_is_run:
  assumes "tick (world_worker_runtime oob us es) (world_worker install) c w = (b, w')"
    and "k < length ws" and "ws ! k = Idle" and "map snd l = w_accepted w"
  shows "\<exists>l'. map snd l' = w_accepted w' \<and>
    runs install (\<lambda>a. a = A_Worker k \<or> a = A_Clock)
      \<lparr>o_tbl = w_tbl w, o_now = w_clock w + w_skew w, o_workers = ws, o_log = l\<rparr>
      \<lparr>o_tbl = w_tbl w', o_now = w_clock w' + w_skew w', o_workers = ws, o_log = l'\<rparr>"
proof -
  let ?acts = "\<lambda>a. a = A_Worker k \<or> a = A_Clock"
  let ?n = "w_clock w + w_skew w"
  let ?s = "snap (w_tbl w) ?n ws l"
  have same: "ws[k := Idle] = ws" using assms(3) list_update_id [of ws k] by simp
  have clock: "w_clock w \<le> w_clock w'" "w_skew w' = w_skew w"
    using wb.tick_budget [of w oob us es install c] assms(1) by (simp_all add: clock_budget_def)
  have "\<exists>l'. map snd l' = w_accepted w' \<and> runs install ?acts ?s (snap (w_tbl w') ?n ws l')"
    using assms(1)
  proof (cases rule: tick_cases)
    case idle
    then show ?thesis using assms(4) by (intro exI [of _ l]) (simp add: world_view_def runs.stay)
  next
    case (claimed cd n l0)
    let ?v = "mark_row (signal_message_id cd) (claimed_row n l0) (world_view w)"
    let ?m = "row_message (claimed_row n l0 cd)"
    have tv: "v_tbl ?v = update_where (on_id (signal_message_id cd)) (claimed_row n l0) (w_tbl w)"
      by (simp add: mark_row_def world_view_def)
    have cl: "runs install ?acts ?s (snap (v_tbl ?v) ?n (ws[k := ph]) l)"
      if "ph = Idle \<or> ph = Claimed ?m (?n + claim_lease install)" for ph
      using runs.more [OF runs.stay _ snap_claim [OF assms(2,3) claimed(1)]] claimed(2,4,5) that
      unfolding tv by simp
    show ?thesis
    proof (cases b)
      case True
      with claimed(3) have "attempt_outcome (scc_SenderPhoneNumber (inst_SignalCli install)) ?m ?v (world_view w')"
        by simp
      from attempt_run [OF assms(2) _ this cl] assms(4) same show ?thesis
        by (simp add: world_view_def mark_row_def)
    next
      case False
      with claimed(3) cl [of Idle] same assms(4) show ?thesis
        by (intro exI [of _ l]) (simp add: world_view_def mark_row_def)
    qed
  qed
  then obtain l' where l': "map snd l' = w_accepted w'"
    and r: "runs install ?acts ?s (snap (w_tbl w') ?n ws l')" by blast
  have "runs install ?acts ?s (snap (w_tbl w') (?n + (w_clock w' - w_clock w)) ws l')"
    by (rule runs.more [OF r _ snap_advance]) (use clock in auto)
  with l' clock show ?thesis
    by (intro exI [of _ l']) (simp add: snap_def algebra_simps)
qed

lemma reap_is_run:
  "runs install (\<lambda>a. a = A_Reaper)
     (snap (w_tbl w) (db_now w) ws l) (snap (w_tbl (reap (world_reaper inst) c w)) (db_now w) ws l)"
  using runs.more [OF runs.stay _ snap_reap [of install "w_tbl w" "db_now w" ws l]]
  by (cases rule: rp.reap_cases [of inst c w]) (simp_all add: world_view_def runs.stay)

section \<open>Sample runs\<close>

definition sample_new :: row where
  "sample_new = new_row 7 1000 (sqlc_insert_params (sample_params\<lparr>rip_TimeoutAt := None\<rparr>))"

definition sample_held :: SignalMessage where
  "sample_held = row_message (claimed_row 1000 60000000000 sample_new)"

definition sample_payload :: SendParams where
  "sample_payload = (case BuildSendParams ''+2'' sample_held [] of Inr p \<Rightarrow> p)"

lemmas sample_new_eval = sample_new_def new_row_def sqlc_insert_params_def sample_params_def sql_ts_tsTz

lemma sample_build: "BuildSendParams ''+2'' sample_held [] = Inr sample_payload"
  by (simp add: sample_payload_def BuildSendParams_def nonempty_def sample_held_def row_message_def
    claimed_row_def sample_new_eval)

lemma sample_lease: "claim_lease sample_install = 60000000000"
  by (simp add: claim_lease_def sample_install_def duration_units go_div_def)

lemma runs_mono: "runs install acts s s' \<Longrightarrow> (\<And>a. acts a \<Longrightarrow> acts' a) \<Longrightarrow> runs install acts' s s'"
  by (induction rule: runs.induct) (auto intro: runs.intros)

lemma sample_run_claimed:
  "runs sample_install hands_off (start 2 1000)
     (snap [claimed_row 1000 60000000000 sample_new] 1000 [Claimed sample_held 60000001000, Idle] [])"
proof -
  have 1: "runs sample_install hands_off (start 2 1000) (snap [sample_new] 1000 [Idle, Idle] [])"
    using runs.more [OF runs.stay _ snap_enqueue [of "[]" 7 1000
      "sqlc_insert_params (sample_params\<lparr>rip_TimeoutAt := None\<rparr>)" sample_install 1000 "[Idle, Idle]" "[]"], of hands_off]
    by (simp add: start_def snap_def numeral_2_eq_2 hands_off_def insert_violation_None exactly_one_target_def
      sample_new_eval)
  have "claimable 1000 sample_new" by (simp add: claimable_def sample_new_eval)
  then show ?thesis
    using runs.more [OF 1 _ snap_claim [of 0 "[Idle, Idle]" sample_new "[sample_new]" 1000
      "Claimed sample_held 60000001000" sample_install "[]"]]
    by (simp add: sample_lease sample_held_def hands_off_def)
qed

lemma sample_run_sent:
  "runs sample_install hands_off (start 2 1000)
     (snap [sent_row 1000 (Some ''9'') (claimed_row 1000 60000000000 sample_new)] 1000 [Idle, Idle]
       [(7, sample_payload)])"
proof -
  have acc: "scc_SenderPhoneNumber (inst_SignalCli sample_install) = ''+2''" by (simp add: sample_install_def)
  have i: "sm_ID sample_held = 7" "signal_message_id sample_new = 7"
    by (simp_all add: sample_held_def sample_new_def new_row_def)
  have "runs sample_install hands_off (start 2 1000)
      (snap [claimed_row 1000 60000000000 sample_new] 1000 [Handed sample_held 60000001000, Idle]
        [(7, sample_payload)])"
    using runs.more [OF sample_run_claimed _ snap_send [of 0 _ sample_held 60000001000 sample_install "[]"
      sample_payload "Handed sample_held 60000001000"]] acc sample_build i
    by (simp add: hands_off_def)
  from runs.more [OF this _ snap_mark_sent [of 0 _ sample_held 60000001000 Idle]] i show ?thesis
    by (simp add: hands_off_def)
qed

lemma sample_run_twice:
  "\<exists>s m u. runs sample_install hands_off (start 2 1000) s \<and> length (o_workers s) = 2 \<and>
     o_workers s ! 0 = Claimed sample_held 60000001000 \<and> o_workers s ! 1 = Claimed m u \<and>
     sm_ID m = sm_ID sample_held \<and> o_now s = 60000001001 \<and> o_now s \<le> u"
proof -
  let ?r = "claimed_row 1000 60000000000 sample_new"
  let ?m = "row_message (claimed_row 60000001001 60000000000 ?r)"
  have "claimable 60000001001 ?r" by (simp add: claimable_def claimed_row_def sample_new_eval)
  then have "runs sample_install hands_off (start 2 1000)
      (snap [claimed_row 60000001001 60000000000 ?r] 60000001001
        [Claimed sample_held 60000001000, Claimed ?m 120000001001] [])"
    using runs.more [OF runs.more [OF sample_run_claimed _ snap_advance [of 60000000001]] _
      snap_claim [of 1 _ ?r _ _ "Claimed ?m 120000001001" sample_install]]
    by (simp add: hands_off_def sample_lease)
  then show ?thesis
    by (intro exI [of _ "snap _ _ _ _"] exI [of _ ?m] exI [of _ 120000001001] conjI)
      (assumption, simp_all add: snap_def sample_held_def)
qed

theorem accepted_payloads_witness:
  "\<exists>s r. runs sample_install (\<lambda>_. True) (start 2 1000) s \<and> (7, sample_payload) \<in> set (o_log s) \<and>
     row_at (o_tbl s) 7 = Some r \<and> sp_Message sample_payload = content r"
proof -
  let ?s = "snap [sent_row 1000 (Some ''9'') (claimed_row 1000 60000000000 sample_new)] 1000 [Idle, Idle]
    [(7, sample_payload)]"
  have r: "runs sample_install (\<lambda>_. True) (start 2 1000) ?s"
    by (rule runs_mono [OF sample_run_sent]) simp
  have l: "(7, sample_payload) \<in> set (o_log ?s)" by (simp add: snap_def)
  from accepted_payloads [OF r l] r l show ?thesis by blast
qed


theorem lease_exclusive_witness:
  "\<exists>s m u. runs sample_install hands_off (start 2 1000) s \<and>
     held (o_workers s ! 1) = Some (m, u) \<and> (60000001000 < o_now s \<or> u < o_now s)"
proof -
  obtain s m u where r: "runs sample_install hands_off (start 2 1000) s" and w: "length (o_workers s) = 2"
    "o_workers s ! 0 = Claimed sample_held 60000001000" "o_workers s ! 1 = Claimed m u"
    "sm_ID m = sm_ID sample_held"
    using sample_run_twice by blast
  have "60000001000 < o_now s \<or> u < o_now s"
    using lease_exclusive [OF r, of 0 sample_held 60000001000 1 m u] w by simp
  with r w show ?thesis by auto
qed

theorem sends_bounded_witness:
  "\<exists>s r. runs sample_install hands_off (start 2 1000) s \<and> row_at (o_tbl s) 7 = Some r \<and>
     length (filter (\<lambda>(j, p). j = 7) (o_log s)) = 1 \<and> 1 \<le> attempts r"
proof -
  let ?r = "sent_row 1000 (Some ''9'') (claimed_row 1000 60000000000 sample_new)"
  let ?s = "snap [?r] 1000 [Idle, Idle] [(7, sample_payload)]"
  have a: "row_at (o_tbl ?s) 7 = Some ?r"
    by (simp add: snap_def row_at_def sent_row_def claimed_row_def sample_new_def new_row_def)
  have n: "length (filter (\<lambda>(j, p). j = 7) (o_log ?s)) = 1" by (simp add: snap_def)
  have "1 \<le> attempts ?r" using sends_bounded [OF sample_run_sent a] n by simp
  with sample_run_sent a n show ?thesis by blast
qed


theorem tick_is_run_witness:
  "\<exists>b w' l'. tick (world_worker_runtime (\<lambda>_. 0) sample_uuid_string (\<lambda>_. ''err''))
      (world_worker sample_install) None sample_send_world = (b, w') \<and>
    map snd l' = w_accepted w' \<and>
    runs sample_install (\<lambda>a. a = A_Worker 0 \<or> a = A_Clock)
      (snap (w_tbl sample_send_world) 5000 [Idle] [])
      (snap (w_tbl w') (w_clock w' + w_skew w') [Idle] l')"
proof -
  obtain b w' where t: "tick (world_worker_runtime (\<lambda>_. 0) sample_uuid_string (\<lambda>_. ''err''))
      (world_worker sample_install) None sample_send_world = (b, w')" by (meson surj_pair)
  have "w_clock sample_send_world + w_skew sample_send_world = 5000" "w_accepted sample_send_world = []"
    by (simp_all add: sample_send_world_def sample_world_def)
  with tick_is_run [OF t, of 0 "[Idle]" "[]"] t show ?thesis by (auto simp: snap_def)
qed

end
