(* ===== verification/Cleanup.thy ===== *)
theory Cleanup
  imports Worker
begin

text \<open>
  The sweeper of old attachment files, \<open>internal/worker/cleanup.go\<close>, on the file system of theory
  \<open>Storage\<close>. The operating system answers each call of a sweep; an answer that is not given is success.
  \<open>filepath.WalkDir\<close> visits a directory before its entries, and these in lexical order.
\<close>

section \<open>The tree below a directory\<close>

definition below :: "string \<Rightarrow> string \<Rightarrow> bool" where
  "below d p \<longleftrightarrow> root_of d = root_of p \<and> strict_prefix (parts_of d) (parts_of p)"

definition child :: "string \<Rightarrow> string \<Rightarrow> bool" where
  "child d p \<longleftrightarrow> below d p \<and> length (parts_of p) = Suc (length (parts_of d))"

definition os_Lstat :: "string \<Rightarrow> fs \<Rightarrow> node option" where
  "os_Lstat p f = (if parts_of p = [] then Some DirNode else map_of f (filepath_Clean p))"

definition walk_order :: "string \<Rightarrow> fs \<Rightarrow> string list" where
  "walk_order d f = sort_key parts_of (filter (below d) (map fst f))"

section \<open>The sweep\<close>

definition cleanupInterval :: duration where
  "cleanupInterval = Minute"

record Cleanup =
  cl_cfg :: CleanupOldFilesConfig
  cl_stopCancel :: bool
  cl_cancelled :: bool
  cl_wg :: nat

definition NewCleanup :: "Install \<Rightarrow> Cleanup" where
  "NewCleanup install =
     \<lparr>cl_cfg = cron_CleanupOldFiles (inst_Cron install), cl_stopCancel = False, cl_cancelled = False, cl_wg = 0\<rparr>"

definition Cleanup_Enabled :: "Cleanup \<Rightarrow> bool" where
  "Cleanup_Enabled c \<longleftrightarrow>
     cof_Enabled (cl_cfg c) \<and> length (cof_Directories (cl_cfg c)) > 0 \<and> cof_FileTTL (cl_cfg c) > 0"

definition Cleanup_Start :: "Cleanup \<Rightarrow> Cleanup" where
  "Cleanup_Start c =
     (if \<not> Cleanup_Enabled c then c
      else c\<lparr>cl_stopCancel := True, cl_cancelled := False, cl_wg := Suc (cl_wg c)\<rparr>)"

definition Cleanup_Stop :: "bool \<Rightarrow> goerr \<Rightarrow> Cleanup \<Rightarrow> goerr option \<times> Cleanup" where
  "Cleanup_Stop drained ctxErr c =
     (if \<not> cl_stopCancel c then (None, c)
      else let c1 = c\<lparr>cl_cancelled := True\<rparr> in
           if drained then (None, c1\<lparr>cl_wg := 0\<rparr>)
           else (Some (Wrapped ''cleanup stop: drain timeout'' ctxErr), c1))"

text \<open>The answers met on the visit of one path: whether the context has ended, and the errors of reading a
  directory, of \<open>Info\<close> and of \<open>os.Remove\<close>.\<close>

record visit =
  vi_ctx :: bool
  vi_readdir :: "goerr option"
  vi_info :: "goerr option"
  vi_remove :: "goerr option"

definition smooth :: visit where
  "smooth = \<lparr>vi_ctx = False, vi_readdir = None, vi_info = None, vi_remove = None\<rparr>"

text \<open>The callback of the walk on a path: whether it removed the file.\<close>

definition node_at :: "string \<Rightarrow> string \<Rightarrow> fs \<Rightarrow> node option" where
  "node_at dir path f = (if path = dir then os_Lstat dir f else map_of f path)"

definition sweepFile :: "visit \<Rightarrow> gotime \<Rightarrow> string \<Rightarrow> string \<Rightarrow> fs \<Rightarrow> bool \<times> fs" where
  "sweepFile v cutoff dir path f = (case node_at dir path f of
     None \<Rightarrow> (False, f)
   | Some DirNode \<Rightarrow> (False, f)
   | Some (FileNode body modTime) \<Rightarrow>
       if path = dir then (False, f)
       else if vi_info v \<noteq> None then (False, f)
       else if \<not> modTime < cutoff then (False, f)
       else case os_Remove (vi_remove v) path f of
              (Removed, f') \<Rightarrow> (True, f')
            | (_, f') \<Rightarrow> (False, f'))"

text \<open>The walk over the paths still to visit; \<open>skipped\<close> are the directories that could not be read.\<close>

fun walk :: "visit list \<Rightarrow> gotime \<Rightarrow> string \<Rightarrow> string list \<Rightarrow> string list \<Rightarrow> int \<Rightarrow> fs \<Rightarrow> int \<times> fs" where
  "walk vs cutoff dir skipped [] removed f = (removed, f)"
| "walk vs cutoff dir skipped (path # paths) removed f =
     (let v = (case vs of [] \<Rightarrow> smooth | v # _ \<Rightarrow> v) in
      if list_ex (\<lambda>d. below d path) skipped then walk vs cutoff dir skipped paths removed f
      else if vi_ctx v then (removed, f)
      else let (gone, f') = sweepFile v cutoff dir path f;
               unread = node_at dir path f = Some DirNode \<and> vi_readdir v \<noteq> None in
           walk (tl vs) cutoff dir (if unread then path # skipped else skipped) paths
             (if gone then removed + 1 else removed) f')"

fun prune_loop :: "(goerr option \<times> goerr option) list \<Rightarrow> string list \<Rightarrow> fs \<Rightarrow> fs" where
  "prune_loop as [] f = f"
| "prune_loop as (sub # subs) f =
     (let (readErr, rmErr) = (case as of [] \<Rightarrow> (None, None) | a # _ \<Rightarrow> a) in
      if readErr \<noteq> None \<or> \<not> fs_empty_dir sub f then prune_loop (tl as) subs f
      else prune_loop (tl as) subs (snd (os_Remove rmErr sub f)))"

definition pruneEmptyChildren ::
  "goerr option \<Rightarrow> (goerr option \<times> goerr option) list \<Rightarrow> string \<Rightarrow> fs \<Rightarrow> fs" where
  "pruneEmptyChildren readErr as rootDir f =
     (if readErr \<noteq> None \<or> os_Lstat rootDir f \<noteq> Some DirNode then f
      else prune_loop as
             (sort_key parts_of (filter (\<lambda>p. child rootDir p \<and> map_of f p = Some DirNode) (map fst f))) f)"

record sweep_answers =
  sa_lstat :: "goerr option"
  sa_visits :: "visit list"
  sa_readdir :: "goerr option"
  sa_subs :: "(goerr option \<times> goerr option) list"

definition all_smooth :: sweep_answers where
  "all_smooth = \<lparr>sa_lstat = None, sa_visits = [], sa_readdir = None, sa_subs = []\<rparr>"

definition sweepDir :: "sweep_answers \<Rightarrow> gotime \<Rightarrow> string \<Rightarrow> fs \<Rightarrow> int \<times> fs" where
  "sweepDir sa cutoff dir f =
     (let (removed, f1) =
            (if sa_lstat sa \<noteq> None \<or> os_Lstat dir f = None then (0, f)
             else walk (sa_visits sa) cutoff dir [] (dir # walk_order dir f) 0 f) in
      (removed, pruneEmptyChildren (sa_readdir sa) (sa_subs sa) dir f1))"

fun sweep_dirs :: "sweep_answers list \<Rightarrow> gotime \<Rightarrow> string list \<Rightarrow> int \<Rightarrow> fs \<Rightarrow> int \<times> fs" where
  "sweep_dirs sas cutoff [] removed f = (removed, f)"
| "sweep_dirs sas cutoff (dir # dirs) removed f =
     (let (k, f') = sweepDir (case sas of [] \<Rightarrow> all_smooth | sa # _ \<Rightarrow> sa) cutoff dir f in
      sweep_dirs (tl sas) cutoff dirs (removed + k) f')"

definition sweep :: "sweep_answers list \<Rightarrow> gotime \<Rightarrow> Cleanup \<Rightarrow> fs \<Rightarrow> int \<times> fs" where
  "sweep sas now c f =
     (let cutoff = now + (- cof_FileTTL (cl_cfg c)) in
      sweep_dirs sas cutoff (cof_Directories (cl_cfg c)) 0 f)"

text \<open>The loop: one sweep on boot, and one per firing of the ticker (\<open>Some\<close> instant and answers) until the
  context ends (\<open>None\<close>).\<close>

fun cleanup_loop :: "Cleanup \<Rightarrow> (gotime \<times> sweep_answers list) option list \<Rightarrow> fs \<Rightarrow> bool \<times> fs" where
  "cleanup_loop c [] f = (False, f)"
| "cleanup_loop c (None # arms) f = (True, f)"
| "cleanup_loop c (Some (now, sas) # arms) f = cleanup_loop c arms (snd (sweep sas now c f))"

definition Cleanup_run ::
  "Cleanup \<Rightarrow> gotime \<times> sweep_answers list \<Rightarrow> (gotime \<times> sweep_answers list) option list \<Rightarrow> fs \<Rightarrow> bool \<times> fs" where
  "Cleanup_run c boot arms f = cleanup_loop c arms (snd (sweep (snd boot) (fst boot) c f))"

section \<open>What a sweep removes\<close>

definition expired :: "gotime \<Rightarrow> string list \<Rightarrow> string \<Rightarrow> node \<Rightarrow> bool" where
  "expired cutoff dirs p n = (case n of
     FileNode body modTime \<Rightarrow> modTime < cutoff \<and> list_ex (\<lambda>d. below d p) dirs
   | DirNode \<Rightarrow> list_ex (\<lambda>d. child d p) dirs)"

definition only_expired :: "gotime \<Rightarrow> string list \<Rightarrow> fs \<Rightarrow> fs \<Rightarrow> bool" where
  "only_expired cutoff dirs f f' \<longleftrightarrow>
     (\<forall>p. map_of f' p = map_of f p \<or>
        (map_of f' p = None \<and> (\<exists>n. map_of f p = Some n \<and> expired cutoff dirs p n)))"

lemma only_expired_refl [simp]: "only_expired cutoff dirs f f"
  by (simp add: only_expired_def)

lemma only_expired_trans [trans]:
  assumes "only_expired cutoff dirs f g" and "only_expired cutoff dirs g h"
  shows "only_expired cutoff dirs f h"
  unfolding only_expired_def
proof
  fix p
  show "map_of h p = map_of f p \<or>
      map_of h p = None \<and> (\<exists>n. map_of f p = Some n \<and> expired cutoff dirs p n)"
    using assms [unfolded only_expired_def, THEN spec, of p] by (cases "map_of f p") auto
qed

lemma expired_mono: "expired cutoff dirs p n \<Longrightarrow> set dirs \<subseteq> set dirs' \<Longrightarrow> expired cutoff dirs' p n"
  by (cases n) (auto simp: expired_def list_ex_iff)

lemma only_expired_mono:
  "only_expired cutoff dirs f g \<Longrightarrow> set dirs \<subseteq> set dirs' \<Longrightarrow> only_expired cutoff dirs' f g"
  unfolding only_expired_def using expired_mono by blast

lemma os_Remove_cases:
  obtains "os_Remove a p f = (Removed, fs_delete p f)" | x where "os_Remove a p f = (x, f)" and "x \<noteq> Removed"
proof -
  obtain x g where o: "os_Remove a p f = (x, g)" by (meson surj_pair)
  then have "x = Removed \<and> g = fs_delete p f \<or> x \<noteq> Removed \<and> g = f"
    by (auto simp: os_Remove_def split: option.splits if_splits)
  with o that show ?thesis by blast
qed

lemma sweepFile_cases:
  assumes "sweepFile v cutoff dir path f = (gone, f')"
  obtains (kept) "\<not> gone" and "f' = f"
  | (removed) body m where "gone" and "f' = fs_delete path f" and "map_of f path = Some (FileNode body m)"
      and "m < cutoff" and "path \<noteq> dir"
proof (cases "node_at dir path f")
  case (Some n)
  show ?thesis
  proof (cases n)
    case (FileNode body m)
    show ?thesis
    proof (cases rule: os_Remove_cases [of "vi_remove v" path f])
      case 1
      with assms Some FileNode that show ?thesis
        by (auto simp: sweepFile_def node_at_def split: if_splits)
    next
      case (2 x)
      with assms Some FileNode that show ?thesis
        by (cases x) (auto simp: sweepFile_def node_at_def split: if_splits)
    qed
  qed (use assms Some that in \<open>auto simp: sweepFile_def\<close>)
qed (use assms that in \<open>auto simp: sweepFile_def\<close>)

lemma fs_delete_expired:
  "map_of f p = Some n \<Longrightarrow> expired cutoff dirs p n \<Longrightarrow> only_expired cutoff dirs f (fs_delete p f)"
  by (auto simp: only_expired_def)

definition files :: "fs \<Rightarrow> nat" where
  "files f = length (filter (\<lambda>(p, n). n \<noteq> DirNode) f)"

lemma files_delete_file:
  assumes "map_of f p = Some (FileNode b m)" and "distinct (map fst f)"
  shows "Suc (files (fs_delete p f)) = files f"
  using assms
proof (induction f)
  case (Cons a f)
  obtain q n where a: "a = (q, n)" by (cases a)
  show ?case
  proof (cases "q = p")
    case True
    then have "fs_delete p f = f"
      using Cons.prems(2) a by (force simp: fs_delete_def filter_id_conv)
    moreover have "n = FileNode b m" using Cons.prems(1) a True by simp
    ultimately show ?thesis using a True by (simp add: files_def fs_delete_def)
  next
    case False
    with Cons a show ?thesis by (auto simp: files_def fs_delete_def)
  qed
qed simp

lemma distinct_fs_delete: "distinct (map fst f) \<Longrightarrow> distinct (map fst (fs_delete p f))"
  by (simp add: fs_delete_def distinct_map_filter)

lemma files_delete_dir:
  assumes "map_of f p = Some DirNode" and "distinct (map fst f)"
  shows "files (fs_delete p f) = files f"
proof -
  have "n = DirNode" if "(p, n) \<in> set f" for n
    using that assms map_of_is_SomeI [of f p n] by simp
  then have "filter (\<lambda>(q, n). n \<noteq> DirNode) (fs_delete p f) = filter (\<lambda>(q, n). n \<noteq> DirNode) f"
    by (auto simp: fs_delete_def intro!: filter_cong)
  then show ?thesis by (simp add: files_def)
qed

text \<open>One walk: it removes only expired files, each once, and counts them.\<close>

lemma walk_ok:
  assumes "walk vs cutoff dir skipped paths k f = (k', f')"
    and "\<forall>p \<in> set paths. p = dir \<or> below dir p" and "distinct (map fst f)"
  shows "only_expired cutoff [dir] f f' \<and> distinct (map fst f') \<and> k' + int (files f') = k + int (files f)"
  using assms
proof (induction paths arbitrary: vs skipped k f)
  case (Cons path paths)
  let ?v = "case vs of [] \<Rightarrow> smooth | v # _ \<Rightarrow> v"
  show ?case
  proof (cases "list_ex (\<lambda>d. below d path) skipped \<or> vi_ctx ?v")
    case True
    with Cons show ?thesis by (auto simp: Let_def split: if_splits)
  next
    case False
    obtain gone f1 where g: "sweepFile ?v cutoff dir path f = (gone, f1)" by (meson surj_pair)
    let ?k = "if gone then k + 1 else k"
    have step: "only_expired cutoff [dir] f f1 \<and> distinct (map fst f1) \<and> ?k + int (files f1) = k + int (files f)"
      using g
    proof (cases rule: sweepFile_cases)
      case (removed body m)
      with Cons.prems(2,3) show ?thesis
        using files_delete_file [OF removed(3) Cons.prems(3)] fs_delete_expired [OF removed(3)]
        by (auto simp: expired_def distinct_fs_delete)
    qed (use Cons.prems(3) in simp)
    moreover have "only_expired cutoff [dir] f1 f' \<and> distinct (map fst f') \<and> k' + int (files f') = ?k + int (files f1)"
      using Cons.IH [OF _ _ conjunct1 [OF conjunct2 [OF step]]] Cons.prems(1,2) g False
      by (auto simp: Let_def split: if_splits)
    ultimately show ?thesis using only_expired_trans [of cutoff "[dir]" f f1 f'] by auto
  qed
qed simp

lemma prune_loop_ok:
  assumes "\<forall>p \<in> set subs. child dir p \<and> (map_of f p = Some DirNode \<or> map_of f p = None)"
    and "distinct (map fst f)"
  shows "only_expired cutoff [dir] f (prune_loop as subs f) \<and> distinct (map fst (prune_loop as subs f)) \<and>
    files (prune_loop as subs f) = files f"
  using assms
proof (induction subs arbitrary: as f)
  case (Cons sub subs)
  obtain e1 e2 where a: "(case as of [] \<Rightarrow> (None, None) | a # _ \<Rightarrow> a) = (e1, e2)" by (meson surj_pair)
  show ?case
  proof (cases "e1 \<noteq> None \<or> \<not> fs_empty_dir sub f")
    case True
    with Cons a show ?thesis by simp
  next
    case False
    let ?g = "snd (os_Remove e2 sub f)"
    have eq: "prune_loop as (sub # subs) f = prune_loop (tl as) subs ?g"
      using a False by simp
    have g: "only_expired cutoff [dir] f ?g \<and> distinct (map fst ?g) \<and> files ?g = files f \<and>
        (\<forall>p \<in> set subs. map_of ?g p = Some DirNode \<or> map_of ?g p = None)"
    proof (cases rule: os_Remove_cases [of e2 sub f])
      case 1
      then have "map_of f sub = Some DirNode"
        using Cons.prems(1) by (auto simp: os_Remove_def split: option.splits)
      with 1 Cons.prems show ?thesis
        using fs_delete_expired [of f sub DirNode cutoff "[dir]"] files_delete_dir [of f sub]
        by (auto simp: expired_def distinct_fs_delete)
    qed (use Cons.prems in auto)
    then have "only_expired cutoff [dir] ?g (prune_loop (tl as) subs ?g) \<and>
        distinct (map fst (prune_loop (tl as) subs ?g)) \<and> files (prune_loop (tl as) subs ?g) = files ?g"
      using Cons.IH [of ?g "tl as"] Cons.prems(1) by auto
    with g eq show ?thesis using only_expired_trans [of cutoff "[dir]" f ?g] by auto
  qed
qed simp

lemma sweepDir_ok:
  assumes "sweepDir sa cutoff dir f = (k, f')" and "distinct (map fst f)"
  shows "only_expired cutoff [dir] f f' \<and> distinct (map fst f') \<and> k + int (files f') = int (files f)"
proof -
  obtain k1 f1 where w: "(if sa_lstat sa \<noteq> None \<or> os_Lstat dir f = None then (0, f)
      else walk (sa_visits sa) cutoff dir [] (dir # walk_order dir f) 0 f) = (k1, f1)" by (meson surj_pair)
  have f': "k = k1" "f' = pruneEmptyChildren (sa_readdir sa) (sa_subs sa) dir f1"
    using assms(1) w by (auto simp: sweepDir_def)
  have 1: "only_expired cutoff [dir] f f1 \<and> distinct (map fst f1) \<and> k1 + int (files f1) = int (files f)"
    using w assms(2) walk_ok [of "sa_visits sa" cutoff dir "[]" "dir # walk_order dir f" 0 f k1 f1]
    by (auto simp: walk_order_def split: if_splits)
  then have "only_expired cutoff [dir] f1 f' \<and> distinct (map fst f') \<and> files f' = files f1"
    using prune_loop_ok [of _ dir f1 cutoff "sa_subs sa"]
    by (auto simp: f' pruneEmptyChildren_def)
  with 1 f'(1) show ?thesis using only_expired_trans [of cutoff "[dir]" f f1 f'] by auto
qed

lemma sweep_dirs_ok:
  assumes "sweep_dirs sas cutoff dirs k f = (k', f')" and "distinct (map fst f)"
  shows "only_expired cutoff dirs f f' \<and> distinct (map fst f') \<and> k' + int (files f') = k + int (files f)"
  using assms
proof (induction dirs arbitrary: sas k f)
  case (Cons dir dirs)
  obtain k1 f1 where s: "sweepDir (case sas of [] \<Rightarrow> all_smooth | sa # _ \<Rightarrow> sa) cutoff dir f = (k1, f1)"
    by (meson surj_pair)
  note a = sweepDir_ok [OF s Cons.prems(2)]
  have b: "only_expired cutoff dirs f1 f' \<and> distinct (map fst f') \<and> k' + int (files f') = k + k1 + int (files f1)"
    using Cons.IH [of "tl sas" "k + k1" f1] Cons.prems(1) s a by simp
  have "only_expired cutoff (dir # dirs) f f1" "only_expired cutoff (dir # dirs) f1 f'"
    using a b by (auto intro: only_expired_mono)
  with a b show ?case using only_expired_trans [of cutoff "dir # dirs" f f1 f'] by auto
qed simp

section \<open>Properties\<close>

text \<open>C13. A sweep, whatever errors it meets and wherever it is cut short, adds and alters nothing and
  removes only expired entries: files strictly below a configured directory whose modification time is
  more than the time to live ago, and directories directly below one; and the number it reports is the
  number of files it removed.\<close>

theorem sweep_removes_only_expired:
  assumes "sweep sas now c f = (k, f')" and "distinct (map fst f)"
  shows "(\<forall>p. map_of f' p = map_of f p \<or>
      (map_of f' p = None \<and>
       (case map_of f p of
          None \<Rightarrow> False
        | Some (FileNode body modTime) \<Rightarrow> modTime < now - cof_FileTTL (cl_cfg c) \<and>
            list_ex (\<lambda>d. below d p) (cof_Directories (cl_cfg c))
        | Some DirNode \<Rightarrow> list_ex (\<lambda>d. child d p) (cof_Directories (cl_cfg c))))) \<and>
    k = int (length (filter (\<lambda>(p, n). n \<noteq> DirNode) f)) - int (length (filter (\<lambda>(p, n). n \<noteq> DirNode) f'))"
proof -
  have "only_expired (now - cof_FileTTL (cl_cfg c)) (cof_Directories (cl_cfg c)) f f' \<and>
      k + int (files f') = int (files f)"
    using sweep_dirs_ok [OF assms(1) [unfolded sweep_def Let_def] assms(2)] by simp
  then show ?thesis
    unfolding only_expired_def files_def expired_def by (fastforce split: option.splits node.splits)
qed

definition sample_cleanup :: Cleanup where
  "sample_cleanup = \<lparr>cl_cfg = \<lparr>cof_Enabled = True, cof_Schedule = '''', cof_Directories = [''/tmp''],
     cof_FileTTL = 100\<rparr>, cl_stopCancel = False, cl_cancelled = False, cl_wg = 0\<rparr>"

definition sample_tree :: fs where
  "sample_tree = [(''/tmp'', DirNode), (''/tmp/m1'', DirNode), (''/tmp/m1/a'', FileNode ''x'' 5),
     (''/tmp/m2'', DirNode), (''/tmp/m2/b'', FileNode ''y'' 950)]"

theorem sweep_removes_only_expired_witness:
  "\<exists>k f'. sweep [] 1000 sample_cleanup sample_tree = (k, f') \<and>
     map_of f' ''/tmp/m2/b'' = Some (FileNode ''y'' 950)"
proof -
  obtain k f' where s: "sweep [] 1000 sample_cleanup sample_tree = (k, f')" by (meson surj_pair)
  have d: "distinct (map fst sample_tree)" by (simp add: sample_tree_def)
  have "map_of sample_tree ''/tmp/m2/b'' = Some (FileNode ''y'' 950)" by (simp add: sample_tree_def)
  with conjunct1 [OF sweep_removes_only_expired [OF s d], THEN spec, of "''/tmp/m2/b''"] s show ?thesis
    by (auto simp: sample_cleanup_def)
qed

lemma sweepFile_keeps:
  assumes "sweepFile v cutoff dir path f = (gone, f')"
  shows "set f' \<subseteq> set f" and "map_of f q = Some DirNode \<Longrightarrow> map_of f' q = Some DirNode"
    and "distinct (map fst f) \<Longrightarrow> distinct (map fst f')"
  using assms
  by (cases rule: sweepFile_cases, auto simp: fs_delete_def distinct_map_filter map_of_filter_key)+

lemma walk_keeps:
  assumes "walk vs cutoff dir skipped paths k f = (k', f')"
  shows "set f' \<subseteq> set f \<and> (map_of f q = Some DirNode \<longrightarrow> map_of f' q = Some DirNode)"
  using assms
proof (induction paths arbitrary: vs skipped k f)
  case (Cons path paths)
  let ?v = "case vs of [] \<Rightarrow> smooth | v # _ \<Rightarrow> v"
  obtain gone f1 where g: "sweepFile ?v cutoff dir path f = (gone, f1)" by (meson surj_pair)
  note k = sweepFile_keeps(1) [OF g] sweepFile_keeps(2) [OF g, of q]
  show ?case
  proof (cases "list_ex (\<lambda>d. below d path) skipped \<or> vi_ctx ?v")
    case True
    with Cons show ?thesis by (auto simp: Let_def split: if_splits)
  next
    case False
    then obtain sk n where "walk (tl vs) cutoff dir sk paths n f1 = (k', f')"
      using Cons.prems g by (auto simp: Let_def)
    from Cons.IH [OF this] k show ?thesis by blast
  qed
qed simp

lemma walk_smooth:
  assumes "walk [] cutoff dir [] paths k f = (k', f')" and "q \<in> set paths" and "q \<noteq> dir"
    and "map_of f q = Some (FileNode body m)" and "m < cutoff" and "distinct (map fst f)"
  shows "map_of f' q = None"
  using assms
proof (induction paths arbitrary: k f)
  case (Cons path paths)
  obtain gone f1 where g: "sweepFile smooth cutoff dir path f = (gone, f1)" by (meson surj_pair)
  have w: "walk [] cutoff dir [] paths (if gone then k + 1 else k) f1 = (k', f')"
    using Cons.prems(1) g by (simp add: smooth_def)
  show ?case
  proof (cases "q = path")
    case True
    then have "f1 = fs_delete path f"
      using Cons.prems(3-5) g by (simp add: sweepFile_def node_at_def smooth_def os_Remove_def)
    then have "q \<notin> fst ` set f1" using True by (auto simp: fs_delete_def)
    then have "q \<notin> fst ` set f'" using walk_keeps [OF w] by blast
    then show ?thesis by (simp add: map_of_eq_None_iff)
  next
    case False
    from g have "map_of f1 q = Some (FileNode body m)"
      by (cases rule: sweepFile_cases) (use Cons.prems(4) False in simp_all)
    with Cons.IH [OF w _ Cons.prems(3) _ Cons.prems(5) sweepFile_keeps(3) [OF g]] Cons.prems(2,6) False
    show ?thesis by simp
  qed
qed simp

lemma os_Remove_subset: "set (snd (os_Remove a p f)) \<subseteq> set f"
  by (cases rule: os_Remove_cases [of a p f]) (auto simp: fs_delete_def)

lemma prune_subset: "set (prune_loop as ps f) \<subseteq> set f"
proof (induction ps arbitrary: as f)
  case (Cons p ps)
  obtain e1 e2 where "(case as of [] \<Rightarrow> (None, None) | a # _ \<Rightarrow> a) = (e1, e2)" by (meson surj_pair)
  then show ?case
    using Cons.IH [of "tl as" f] Cons.IH [of "tl as" "snd (os_Remove e2 p f)"] os_Remove_subset [of e2 p f]
    by auto
qed simp

lemma prune_smooth:
  assumes "q \<in> set subs" and "fs_empty_dir q f" and "map_of f q = Some DirNode"
  shows "map_of (prune_loop [] subs f) q = None"
  using assms
proof (induction subs arbitrary: f)
  case (Cons p ps)
  show ?case
  proof (cases "p = q")
    case True
    with Cons.prems(2,3) have "prune_loop [] (p # ps) f = prune_loop [] ps (fs_delete q f)"
      by (simp add: os_Remove_def)
    moreover have "q \<notin> fst ` set (prune_loop [] ps (fs_delete q f))"
      using prune_subset [of "[]" ps "fs_delete q f"] by (auto simp: fs_delete_def)
    ultimately show ?thesis by (simp add: map_of_eq_None_iff)
  next
    case False
    let ?g = "if fs_empty_dir p f then snd (os_Remove None p f) else f"
    have "prune_loop [] (p # ps) f = prune_loop [] ps ?g" by simp
    moreover have "fs_empty_dir q ?g"
      using Cons.prems(2) os_Remove_subset [of None p f] by (auto simp: fs_empty_dir_def list_all_iff)
    moreover have "map_of ?g q = Some DirNode"
      using False Cons.prems(3) os_Remove_other [of q p None f] by simp
    ultimately show ?thesis using Cons.IH [of ?g] Cons.prems(1) False by auto
  qed
qed simp



end
