(* ===== verification/Attachments.thy ===== *)
theory Attachments
  imports Json Domain
begin

text \<open>
  The \<open>attachments\<close> column of \<open>internal/domain/attachments.go\<close>: the JSON form of an attachment list, the
  \<open>driver.Valuer\<close> that writes it and the \<open>sql.Scanner\<close> that reads it back.
\<close>

definition Attachment_zero :: Attachment where
  "Attachment_zero = \<lparr> att_Bucket = '''', att_Filename = '''', att_MimeType = '''', att_Size = 0 \<rparr>"

definition Attachment_json :: "Attachment \<Rightarrow> json" where
  "Attachment_json a = JObj
     ([(''bucket'', JStr (att_Bucket a)), (''filename'', JStr (att_Filename a))] @
      (if att_MimeType a = '''' then [] else [(''mimeType'', JStr (att_MimeType a))]) @
      (if att_Size a = 0 then [] else [(''size'', JInt (att_Size a))]))"

definition Attachment_fields :: "Attachment field list" where
  "Attachment_fields =
     [field_of ''bucket'' att_Bucket att_Bucket_update dec_string,
      field_of ''filename'' att_Filename att_Filename_update dec_string,
      field_of ''mimeType'' att_MimeType att_MimeType_update dec_string,
      field_of ''size'' att_Size att_Size_update dec_int]"

definition Attachments_Value :: "Attachments \<Rightarrow> goerr + any" where
  "Attachments_Value a =
     (if a = [] then Inr (ABytes ''[]'')
      else Inr (ABytes (json_print (JArr (map Attachment_json a)))))"

definition Attachments_decode :: "string \<Rightarrow> goerr + Attachments" where
  "Attachments_decode data =
     (if data = '''' then Inr []
      else case json_Unmarshal (dec_slice Attachment_zero (decode_struct Attachment_fields)) data [] of
        (Some err, _) \<Rightarrow> Inl (Wrapped ''unmarshal attachments'' err)
      | (None, out) \<Rightarrow> Inr out)"

fun Attachments_Scan :: "any \<Rightarrow> goerr + Attachments" where
  "Attachments_Scan ANil = Inr []"
| "Attachments_Scan (ABytes v) = Attachments_decode v"
| "Attachments_Scan (AString v) = Attachments_decode v"
| "Attachments_Scan _ = Inl (Opaque ''attachments: cannot scan'')"

text \<open>What the column can hold: text is UTF-8 and the size a 64-bit integer.\<close>

definition storable :: "Attachment \<Rightarrow> bool" where
  "storable a \<longleftrightarrow> utf8_valid (att_Bucket a) \<and> utf8_valid (att_Filename a) \<and> utf8_valid (att_MimeType a) \<and>
     in_int64 (att_Size a)"

lemma Attachment_decode:
  "in_int64 (att_Size a) \<Longrightarrow>
     decode_struct Attachment_fields (Attachment_json a) Attachment_zero = (True, a)"
  by (cases a) (simp add: Attachment_json_def Attachment_fields_def Attachment_zero_def field_defs)

lemma Attachments_elements:
  "list_all storable as \<Longrightarrow>
     dec_elements Attachment_zero (decode_struct Attachment_fields) (map Attachment_json as) [] = (True, as)"
  by (induction as) (auto simp: Attachment_decode storable_def)

lemma Attachment_printable: "storable a \<Longrightarrow> printable (Attachment_json a)"
  by (auto simp: Attachment_json_def storable_def intro!: utf8_valid_ascii)

text \<open>C24. Writing an attachment list to the JSONB column and scanning the bytes back gives the same list:
  the field names, the omitted empty fields, the escaping of every string and the number literals all
  agree between \<open>Value\<close> and \<open>Scan\<close>.\<close>

theorem Attachments_roundtrip:
  assumes "list_all storable as"
  shows "\<exists>data. Attachments_Value as = Inr data \<and> Attachments_Scan data = Inr as"
proof -
  let ?j = "JArr (map Attachment_json as)"
  have p: "printable ?j"
    using assms by (auto simp: list_all_iff Attachment_printable)
  have "json_depth (Attachment_json a) \<le> 1" for a
    by (simp add: Attachment_json_def JInt_def)
  then have "json_depth ?j \<le> 2"
    by simp
  then have "json_depth ?j \<le> maxNestingDepth"
    unfolding maxNestingDepth_def by linarith
  with p have "json_parse (json_print ?j) = Some ?j"
    by (rule json_roundtrip)
  moreover have "json_print ?j \<noteq> ''''"
    by (simp add: json_print_def)
  ultimately have "Attachments_decode (json_print ?j) = Inr as"
    using Attachments_elements [OF assms]
    by (simp add: Attachments_decode_def json_Unmarshal_def dec_slice_def)
  moreover have "json_print (JArr []) = ''[]''"
    by (simp add: json_print_def)
  ultimately show ?thesis
    by (auto simp: Attachments_Value_def)
qed

theorem Attachments_roundtrip_witness:
  "\<exists>data. Attachments_Value [\<lparr> att_Bucket = ''b'', att_Filename = ''x'', att_MimeType = '''', att_Size = 7 \<rparr>] = Inr data \<and>
     Attachments_Scan data = Inr [\<lparr> att_Bucket = ''b'', att_Filename = ''x'', att_MimeType = '''', att_Size = 7 \<rparr>]"
  by (rule Attachments_roundtrip) (simp add: storable_def in_int64_def utf8_valid_ascii)

end
