(* ===== verification/Tcp.thy ===== *)
theory Tcp
  imports MessageBuilder Config
begin

text \<open>
  The persistent JSON-RPC client of \<open>internal/signal/tcp_client.go\<close>. The first part has the wire types
  and their JSON, the second the client's shared state and its critical sections as functions on it, the
  third the goroutines: any number of \<open>Send\<close> callers, the dial and read loop, \<open>Close\<close> and the consumer of
  \<open>Events()\<close>. A goroutine is a program counter; \<open>tcp_step\<close> gives the effect of one action, a critical
  section, a channel operation, a system call or an arm of a \<open>select\<close>, or \<open>None\<close> when the action is not
  enabled. What the daemon, the network, the timers and the callers' contexts do is in the actions.
  Channels and connections are addresses into the state, so that sharing is explicit.
\<close>

section \<open>Wire types\<close>

record Event =
  ev_Method :: string
  ev_Params :: "json option"

record rpcRequest =
  rq_JSONRPC :: string
  rq_Method :: string
  rq_Params :: "json option"
  rq_ID :: string

record rpcError =
  re_Code :: int
  re_Message :: string
  re_Data :: "json option"

record rpcFrame =
  fr_JSONRPC :: string
  fr_ID :: "string option"
  fr_Method :: string
  fr_Params :: "json option"
  fr_Result :: "json option"
  fr_Error :: "rpcError option"

record rpcResponse =
  rp_result :: "json option"
  rp_err :: "rpcError option"
  rp_disconnect :: bool

definition rpcError_Error :: "rpcError \<Rightarrow> string" where
  "rpcError_Error e = re_Message e"

definition rpcRequest_json :: "rpcRequest \<Rightarrow> json" where
  "rpcRequest_json r = JObj
     ([(''jsonrpc'', JStr (rq_JSONRPC r)), (''method'', JStr (rq_Method r))] @
      (case rq_Params r of None \<Rightarrow> [] | Some p \<Rightarrow> [(''params'', p)]) @
      (if rq_ID r = '''' then [] else [(''id'', JStr (rq_ID r))]))"

definition rpcError_fields :: "rpcError field list" where
  "rpcError_fields =
     [field_of ''code'' re_Code re_Code_update dec_int,
      field_of ''message'' re_Message re_Message_update dec_string,
      field_of ''data'' re_Data re_Data_update dec_raw]"

definition rpcError_zero :: rpcError where
  "rpcError_zero = \<lparr> re_Code = 0, re_Message = '''', re_Data = None \<rparr>"

definition rpcFrame_fields :: "rpcFrame field list" where
  "rpcFrame_fields =
     [field_of ''jsonrpc'' fr_JSONRPC fr_JSONRPC_update dec_string,
      field_of ''id'' fr_ID fr_ID_update (dec_ptr '''' dec_string),
      field_of ''method'' fr_Method fr_Method_update dec_string,
      field_of ''params'' fr_Params fr_Params_update dec_raw,
      field_of ''result'' fr_Result fr_Result_update dec_raw,
      field_of ''error'' fr_Error fr_Error_update (dec_ptr rpcError_zero (decode_struct rpcError_fields))]"

definition rpcFrame_zero :: rpcFrame where
  "rpcFrame_zero = \<lparr> fr_JSONRPC = '''', fr_ID = None, fr_Method = '''', fr_Params = None,
     fr_Result = None, fr_Error = None \<rparr>"

definition SendResult_fields :: "SendResult field list" where
  "SendResult_fields = [field_of ''timestamp'' sr_Timestamp sr_Timestamp_update dec_int]"

section \<open>Answers\<close>

definition newline :: char where
  "newline = CHR 0x0A"

text \<open>The trailing line break, carriage returns and blanks of a line.\<close>

definition trim_frame :: "string \<Rightarrow> string" where
  "trim_frame line = rev (dropWhile (\<lambda>c. c \<in> {newline, CHR 0x0D, CHR 0x20}) (rev line))"

text \<open>What a line means to the reader: nothing (blank or malformed), a response, or a notification.\<close>

datatype incoming = Nothing | Response string rpcResponse | Notification Event

definition classify :: "string \<Rightarrow> incoming" where
  "classify raw =
     (let line = trim_frame raw in
      if line = '''' then Nothing
      else case json_Unmarshal (decode_struct rpcFrame_fields) line rpcFrame_zero of
        (Some err, _) \<Rightarrow> Nothing
      | (None, frame) \<Rightarrow>
          (case fr_ID frame of
             Some i \<Rightarrow>
               if i \<noteq> '''' then
                 Response i \<lparr> rp_result = fr_Result frame, rp_err = fr_Error frame, rp_disconnect = False \<rparr>
               else if fr_Method frame = '''' then Nothing
               else Notification \<lparr> ev_Method = fr_Method frame, ev_Params = fr_Params frame \<rparr>
           | None \<Rightarrow>
               if fr_Method frame = '''' then Nothing
               else Notification \<lparr> ev_Method = fr_Method frame, ev_Params = fr_Params frame \<rparr>))"

text \<open>The last arm of \<open>sendAwait\<close>'s \<open>select\<close>: the timestamp is read on a best-effort basis.\<close>

definition send_outcome :: "rpcResponse \<Rightarrow> goerr + SendResult" where
  "send_outcome resp =
     (if rp_disconnect resp then Inl (Sentinel ErrDisconnected)
      else case rp_err resp of
        Some e \<Rightarrow> Inl (Opaque ''signal-cli error'')
      | None \<Rightarrow>
          (let out = \<lparr> sr_Timestamp = 0, sr_Raw = rp_result resp \<rparr> in
           case rp_result resp of
             None \<Rightarrow> Inr out
           | Some j \<Rightarrow> Inr (snd (decode_struct SendResult_fields j out))))"

definition request_line :: "rpcRequest \<Rightarrow> string" where
  "request_line req = json_print (rpcRequest_json req) @ [newline]"

section \<open>Reconnect delays\<close>

definition baseBackoff :: duration where
  "baseBackoff = 500 * Millisecond"

definition maxBackoff :: duration where
  "maxBackoff = 30 * Second"

definition nextBackoff :: "duration \<Rightarrow> duration \<Rightarrow> duration" where
  "nextBackoff cur mx = (let nxt = int64 (cur * 2) in if nxt > mx then mx else nxt)"

section \<open>The shared state\<close>

text \<open>
  \<open>tc_chan\<close> is the buffer of a response channel (capacity one), \<open>tc_shut\<close> the closed signal channels,
  \<open>tc_open\<close> the connections still open on this side, \<open>tc_wire\<close> what was written to which connection,
  \<open>tc_received\<close> the lines read, \<open>tc_used\<close> the request ids drawn so far, \<open>tc_next\<close> the next address.
  \<open>tc_panic\<close> records a close of a closed channel.
\<close>

record TCPClient =
  tc_cfg :: SignalCliTCP
  tc_runDone :: bool
  tc_conn :: "nat option"
  tc_connGen :: "64 word"
  tc_pending :: "(string \<times> nat) list"
  tc_closed :: bool
  tc_dialOnce :: nat
  tc_writeMu :: "nat option"
  tc_events :: "Event list"
  tc_chan :: "nat \<Rightarrow> rpcResponse list"
  tc_shut :: "nat \<Rightarrow> bool"
  tc_open :: "nat \<Rightarrow> bool"
  tc_wire :: "(nat \<times> string) list"
  tc_received :: "string list"
  tc_dropped :: "string list"
  tc_used :: "string list"
  tc_next :: nat
  tc_panic :: bool

definition eventsCap :: nat where
  "eventsCap = 64"

definition NewTCPClient :: "Install \<Rightarrow> TCPClient" where
  "NewTCPClient install = \<lparr>
     tc_cfg = scc_TCP (inst_SignalCli install), tc_runDone = False, tc_conn = None, tc_connGen = 0,
     tc_pending = [], tc_closed = False, tc_dialOnce = 0, tc_writeMu = None, tc_events = [],
     tc_chan = (\<lambda>_. []), tc_shut = (\<lambda>_. False), tc_open = (\<lambda>_. False), tc_wire = [],
     tc_received = [], tc_dropped = [], tc_used = [], tc_next = 1, tc_panic = False \<rparr>"

text \<open>Deleting a key of the pending map.\<close>

definition without :: "'k \<Rightarrow> ('k \<times> 'v) list \<Rightarrow> ('k \<times> 'v) list" where
  "without k ps = filter (\<lambda>p. fst p \<noteq> k) ps"

text \<open>Closing a signal channel.\<close>

definition close_once :: "nat \<Rightarrow> TCPClient \<Rightarrow> TCPClient" where
  "close_once ch c =
     (if tc_shut c ch then c\<lparr> tc_panic := True \<rparr> else c\<lparr> tc_shut := (tc_shut c)(ch := True) \<rparr>)"

text \<open>The critical section of \<open>waitConnected\<close>: the signal to wait for, or shutdown.\<close>

definition waitConnected :: "TCPClient \<Rightarrow> goerr + nat" where
  "waitConnected c = (if tc_closed c then Inl (Sentinel ErrShutdown) else Inr (tc_dialOnce c))"

text \<open>The registration in \<open>sendAwait\<close>, on a fresh buffered channel.\<close>

definition register :: "string \<Rightarrow> TCPClient \<Rightarrow> nat \<times> TCPClient" where
  "register i c =
     (let ch = tc_next c in
      (ch, c\<lparr> tc_pending := (i, ch) # without i (tc_pending c), tc_chan := (tc_chan c)(ch := []),
              tc_used := i # tc_used c, tc_next := Suc ch \<rparr>))"

definition unregister :: "string \<Rightarrow> TCPClient \<Rightarrow> TCPClient" where
  "unregister i c = c\<lparr> tc_pending := without i (tc_pending c) \<rparr>"

text \<open>The frame \<open>sendAwait\<close> (an id) or \<open>fireAndForget\<close> (none) writes.\<close>

definition send_request :: "SendParams \<Rightarrow> string option \<Rightarrow> rpcRequest" where
  "send_request p i = \<lparr> rq_JSONRPC = ''2.0'', rq_Method = ''send'',
     rq_Params = Some (SendParams_json p), rq_ID = (case i of None \<Rightarrow> '''' | Some i \<Rightarrow> i) \<rparr>"

definition conn_write :: "nat \<Rightarrow> string \<Rightarrow> TCPClient \<Rightarrow> TCPClient" where
  "conn_write k body c = c\<lparr> tc_wire := tc_wire c @ [(k, body)] \<rparr>"

definition conn_up :: "nat \<Rightarrow> TCPClient \<Rightarrow> TCPClient" where
  "conn_up k c =
     close_once (tc_dialOnce c) (c\<lparr> tc_conn := Some k, tc_connGen := tc_connGen c + 1 \<rparr>)"

text \<open>\<open>failPending\<close>: a buffered channel that already holds an answer is left as it is.\<close>

definition failPending :: "TCPClient \<Rightarrow> TCPClient" where
  "failPending c = c\<lparr>
     tc_chan := (\<lambda>ch. if ch \<in> set (map snd (tc_pending c)) \<and> tc_chan c ch = []
       then [\<lparr> rp_result = None, rp_err = None, rp_disconnect = True \<rparr>] else tc_chan c ch),
     tc_pending := [] \<rparr>"

definition markShutdown :: "TCPClient \<Rightarrow> TCPClient" where
  "markShutdown c =
     (let c1 = c\<lparr> tc_closed := True \<rparr> in
      if tc_shut c1 (tc_dialOnce c1) then c1 else close_once (tc_dialOnce c1) c1)"

definition rearm :: "TCPClient \<Rightarrow> TCPClient" where
  "rearm c = c\<lparr> tc_dialOnce := tc_next c, tc_next := Suc (tc_next c) \<rparr>"

text \<open>\<open>dispatchFrame\<close> up to the channel send of a matched response, which is left to the caller: the
  channel and the response to send there.\<close>

definition dispatchFrame :: "string \<Rightarrow> TCPClient \<Rightarrow> (nat \<times> rpcResponse) option \<times> TCPClient" where
  "dispatchFrame line c0 =
     (let c = c0\<lparr> tc_received := tc_received c0 @ [line] \<rparr> in
      case classify line of
        Nothing \<Rightarrow> (None, c)
      | Response i resp \<Rightarrow>
          (case map_of (tc_pending c) i of
             None \<Rightarrow> (None, c)
           | Some ch \<Rightarrow> (Some (ch, resp), c\<lparr> tc_pending := without i (tc_pending c) \<rparr>))
      | Notification e \<Rightarrow>
          if length (tc_events c) < eventsCap then (None, c\<lparr> tc_events := tc_events c @ [e] \<rparr>)
          else (None, c\<lparr> tc_dropped := tc_dropped c @ [ev_Method e] \<rparr>))"

section \<open>The callers of Send\<close>

text \<open>Where a call of \<open>Send(ctx, p)\<close> is: about to enter \<open>waitConnected\<close>, waiting there for a signal
  channel, past it, about to take \<open>writeMu\<close> (with the registered id and channel, or neither in
  fire-and-forget mode), holding it with the connection loaded, in the final \<open>select\<close>, running the deferred
  delete, returned.\<close>

datatype sender =
    S_start SendParams
  | S_wait SendParams nat
  | S_ready SendParams
  | S_load SendParams "(string \<times> nat) option"
  | S_write SendParams "(string \<times> nat) option" nat
  | S_waiting SendParams string nat
  | S_return SendParams "(string \<times> nat) option" "goerr + SendResult"
  | S_done SendParams "string option" "goerr + SendResult"

datatype send_action =
    Enter | Dialed | CtxDone | RunDone | Draw string | Lock | Written | WriteFails nat goerr
  | TimerFires | Receive | Finish

definition send_timeout :: goerr where
  "send_timeout = Opaque ''signal-cli send timeout''"

definition SendResult_zero :: SendResult where
  "SendResult_zero = \<lparr> sr_Timestamp = 0, sr_Raw = None \<rparr>"

text \<open>\<open>Send\<close> chooses \<open>fireAndForget\<close> or \<open>sendAwait\<close>; both start with \<open>waitConnected\<close>.\<close>

definition send_wait :: "send_action \<Rightarrow> bool \<Rightarrow> sender \<Rightarrow> TCPClient \<Rightarrow> (sender \<times> TCPClient) option" where
  "send_wait a gone s c =
     (case s of
        S_start p \<Rightarrow>
          if a = Enter
          then Some (case waitConnected c of Inl e \<Rightarrow> S_done p None (Inl e) | Inr once \<Rightarrow> S_wait p once, c)
          else None
      | S_wait p once \<Rightarrow>
          if a = Dialed \<and> tc_shut c once
          then Some (if tcp_IgnoreResults (tc_cfg c) then S_load p None else S_ready p, c)
          else if a = CtxDone \<and> gone
          then Some (S_done p None (Inl (Wrapped ''signal-cli waiting for dial'' (Sentinel CtxErr))), c)
          else if a = RunDone \<and> tc_runDone c then Some (S_done p None (Inl (Sentinel ErrShutdown)), c)
          else None
      | _ \<Rightarrow> None)"

text \<open>\<open>sendAwait\<close> from drawing the id to the entry of \<open>writeFrame\<close>; a drawn id is new.\<close>

definition send_register :: "send_action \<Rightarrow> sender \<Rightarrow> TCPClient \<Rightarrow> (sender \<times> TCPClient) option" where
  "send_register a s c =
     (case s of
        S_ready p \<Rightarrow>
          (case a of
             Draw i \<Rightarrow>
               if i = '''' \<or> i \<in> set (tc_used c) then None
               else if tc_closed c then Some (S_done p None (Inl (Sentinel ErrShutdown)), c)
               else let (ch, c') = register i c in Some (S_load p (Some (i, ch)), c')
           | _ \<Rightarrow> None)
      | _ \<Rightarrow> None)"

text \<open>\<open>writeFrame\<close>: the lock and the load of the connection, then the write, which may fail after some
  bytes; a connection closed on this side only fails.\<close>

definition writeFrame :: "send_action \<Rightarrow> nat \<Rightarrow> sender \<Rightarrow> TCPClient \<Rightarrow> (sender \<times> TCPClient) option" where
  "writeFrame a me s c =
     (case s of
        S_load p r \<Rightarrow>
          if a \<noteq> Lock \<or> tc_writeMu c \<noteq> None then None
          else (case tc_conn c of
                  None \<Rightarrow> Some (S_return p r (Inl (Sentinel ErrDisconnected)), c)
                | Some k \<Rightarrow> Some (S_write p r k, c\<lparr> tc_writeMu := Some me \<rparr>))
      | S_write p r k \<Rightarrow>
          (let body = request_line (send_request p (map_option fst r)); c' = c\<lparr> tc_writeMu := None \<rparr> in
           case a of
             Written \<Rightarrow>
               if tc_open c k
               then Some (case r of
                            None \<Rightarrow> S_done p None (Inr SendResult_zero)
                          | Some (i, ch) \<Rightarrow> S_waiting p i ch,
                          conn_write k body c')
               else None
           | WriteFails n e \<Rightarrow>
               Some (S_return p r (Inl (Wrapped ''tcp write'' e)), conn_write k (take n (butlast body)) c')
           | _ \<Rightarrow> None)
      | _ \<Rightarrow> None)"

text \<open>\<open>sendAwait\<close>'s \<open>select\<close> and its deferred delete.\<close>

definition send_select :: "send_action \<Rightarrow> bool \<Rightarrow> sender \<Rightarrow> TCPClient \<Rightarrow> (sender \<times> TCPClient) option" where
  "send_select a gone s c =
     (case s of
        S_waiting p i ch \<Rightarrow>
          (let ret = S_return p (Some (i, ch)) in
           if a = CtxDone \<and> gone then Some (ret (Inl (Wrapped ''signal-cli send ctx'' (Sentinel CtxErr))), c)
           else if a = RunDone \<and> tc_runDone c then Some (ret (Inl (Sentinel ErrShutdown)), c)
           else if a = TimerFires then Some (ret (Inl send_timeout), c)
           else if a = Receive then
             (case tc_chan c ch of
                [] \<Rightarrow> None
              | r # rs \<Rightarrow> Some (ret (send_outcome r), c\<lparr> tc_chan := (tc_chan c)(ch := rs) \<rparr>))
           else None)
      | S_return p r res \<Rightarrow>
          if a = Finish
          then Some (S_done p (map_option fst r) res, case r of None \<Rightarrow> c | Some (i, ch) \<Rightarrow> unregister i c)
          else None
      | _ \<Rightarrow> None)"

definition send_step :: "send_action \<Rightarrow> nat \<Rightarrow> bool \<Rightarrow> sender \<Rightarrow> TCPClient \<Rightarrow> (sender \<times> TCPClient) option" where
  "send_step a me gone s c =
     (case s of
        S_start p \<Rightarrow> send_wait a gone s c
      | S_wait p once \<Rightarrow> send_wait a gone s c
      | S_ready p \<Rightarrow> send_register a s c
      | S_load p r \<Rightarrow> writeFrame a me s c
      | S_write p r k \<Rightarrow> writeFrame a me s c
      | S_waiting p i ch \<Rightarrow> send_select a gone s c
      | S_return p r res \<Rightarrow> send_select a gone s c
      | S_done p i res \<Rightarrow> None)"

section \<open>The dial loop, Close and the consumer\<close>

datatype dialer =
    D_top | D_dialing | D_sleep | D_got nat | D_read nat | D_deliver nat nat rpcResponse
  | D_dead nat | D_failed nat | D_hungup nat | D_dropped bool | D_rearm | D_mark | D_marked | D_exit

datatype dial_action = Go | DialOk | DialFails | Slept | Line string | ReadEnds

text \<open>\<open>readLoop\<close>: a line, the channel send of a matched response, the end of the stream.\<close>

definition readLoop :: "dial_action \<Rightarrow> dialer \<Rightarrow> TCPClient \<Rightarrow> (dialer \<times> TCPClient) option" where
  "readLoop a d c =
     (case d of
        D_read k \<Rightarrow>
          (case a of
             Line l \<Rightarrow>
               (case dispatchFrame l c of
                  (None, c') \<Rightarrow> Some (D_read k, c')
                | (Some (ch, r), c') \<Rightarrow> Some (D_deliver k ch r, c'))
           | ReadEnds \<Rightarrow> Some (D_dead k, c)
           | _ \<Rightarrow> None)
      | D_deliver k ch r \<Rightarrow>
          if a = Go \<and> length (tc_chan c ch) < 1
          then Some (D_read k, c\<lparr> tc_chan := (tc_chan c)(ch := tc_chan c ch @ [r]) \<rparr>)
          else None
      | _ \<Rightarrow> None)"

text \<open>\<open>dialLoop\<close>, its backoff first: the dial, the sleep of \<open>sleepCtx\<close> after a failed one, the handling of a
  new connection, and what follows the end of \<open>readLoop\<close>.\<close>

definition dial_next :: "dialer \<Rightarrow> TCPClient \<Rightarrow> (dialer \<times> TCPClient) option" where
  "dial_next d c =
     (case d of
        D_top \<Rightarrow> Some (if tc_runDone c then D_mark else D_dialing, c)
      | D_sleep \<Rightarrow> if tc_runDone c then Some (D_mark, c) else None
      | D_got k \<Rightarrow> Some (D_read k, conn_up k c)
      | D_dead k \<Rightarrow> Some (D_failed k, failPending c)
      | D_failed k \<Rightarrow> Some (D_hungup k, c\<lparr> tc_open := (tc_open c)(k := False) \<rparr>)
      | D_hungup k \<Rightarrow> Some (D_dropped (tc_closed c), c\<lparr> tc_conn := None \<rparr>)
      | D_dropped closed \<Rightarrow> Some (if closed \<or> tc_runDone c then D_mark else D_rearm, c)
      | D_rearm \<Rightarrow> Some (D_top, rearm c)
      | D_mark \<Rightarrow> Some (D_marked, failPending c)
      | D_marked \<Rightarrow> Some (D_exit, markShutdown c)
      | _ \<Rightarrow> readLoop Go d c)"

definition dialLoop ::
  "dial_action \<Rightarrow> duration \<Rightarrow> dialer \<Rightarrow> TCPClient \<Rightarrow> (duration \<times> dialer \<times> TCPClient) option" where
  "dialLoop a b d c =
     (case a of
        Go \<Rightarrow> map_option (Pair (case d of D_got k \<Rightarrow> baseBackoff | _ \<Rightarrow> b)) (dial_next d c)
      | DialOk \<Rightarrow>
          if d = D_dialing
          then Some (b, D_got (tc_next c),
                     c\<lparr> tc_open := (tc_open c)(tc_next c := True), tc_next := Suc (tc_next c) \<rparr>)
          else None
      | DialFails \<Rightarrow> if d = D_dialing then Some (b, D_sleep, c) else None
      | Slept \<Rightarrow> if d = D_sleep then Some (nextBackoff b maxBackoff, D_top, c) else None
      | _ \<Rightarrow> map_option (Pair b) (readLoop a d c))"

datatype closer = C_idle | C_marked "nat option" | C_cancelled "nat option" | C_waiting | C_done "goerr option"

definition Close :: "bool \<Rightarrow> closer \<Rightarrow> dialer \<Rightarrow> TCPClient \<Rightarrow> (closer \<times> TCPClient) option" where
  "Close expired s d c =
     (case s of
        C_idle \<Rightarrow> Some (C_marked (tc_conn c), c\<lparr> tc_closed := True \<rparr>)
      | C_marked conn \<Rightarrow> Some (C_cancelled conn, c\<lparr> tc_runDone := True \<rparr>)
      | C_cancelled conn \<Rightarrow>
          Some (C_waiting, case conn of None \<Rightarrow> c | Some k \<Rightarrow> c\<lparr> tc_open := (tc_open c)(k := False) \<rparr>)
      | C_waiting \<Rightarrow>
          if expired then Some (C_done (Some (Wrapped ''tcp client close: drain timeout'' (Sentinel CtxErr))), c)
          else if d = D_exit then Some (C_done None, c)
          else None
      | C_done e \<Rightarrow> None)"

section \<open>The system\<close>

record tcp_system =
  ts_client :: TCPClient
  ts_senders :: "nat \<Rightarrow> sender"
  ts_gone :: "nat \<Rightarrow> bool"
  ts_dialer :: dialer
  ts_backoff :: duration
  ts_closer :: closer
  ts_consumed :: "Event list"

datatype tcp_action =
    Sender nat send_action | Dialer dial_action | Closer bool | Consume | Cancel nat

fun tcp_step :: "tcp_action \<Rightarrow> tcp_system \<Rightarrow> tcp_system option" where
  "tcp_step (Sender n a) s =
     map_option (\<lambda>(x, c). s\<lparr> ts_client := c, ts_senders := (ts_senders s)(n := x) \<rparr>)
       (send_step a n (ts_gone s n) (ts_senders s n) (ts_client s))"
| "tcp_step (Dialer a) s =
     map_option (\<lambda>(b, d, c). s\<lparr> ts_client := c, ts_dialer := d, ts_backoff := b \<rparr>)
       (dialLoop a (ts_backoff s) (ts_dialer s) (ts_client s))"
| "tcp_step (Closer e) s =
     map_option (\<lambda>(x, c). s\<lparr> ts_client := c, ts_closer := x \<rparr>)
       (Close e (ts_closer s) (ts_dialer s) (ts_client s))"
| "tcp_step Consume s =
     (case tc_events (ts_client s) of
        [] \<Rightarrow> None
      | e # es \<Rightarrow> Some (s\<lparr> ts_client := (ts_client s)\<lparr> tc_events := es \<rparr>, ts_consumed := ts_consumed s @ [e] \<rparr>))"
| "tcp_step (Cancel n) s = Some (s\<lparr> ts_gone := (ts_gone s)(n := True) \<rparr>)"

text \<open>The state right after \<open>Start\<close>: caller \<open>n\<close> is about to send \<open>ps n\<close>.\<close>

definition Start :: "(nat \<Rightarrow> SendParams) \<Rightarrow> TCPClient \<Rightarrow> tcp_system" where
  "Start ps c = \<lparr> ts_client = c, ts_senders = (\<lambda>n. S_start (ps n)), ts_gone = (\<lambda>_. False),
     ts_dialer = D_top, ts_backoff = baseBackoff, ts_closer = C_idle, ts_consumed = [] \<rparr>"

fun tcp_run :: "tcp_action list \<Rightarrow> tcp_system \<Rightarrow> tcp_system option" where
  "tcp_run [] s = Some s"
| "tcp_run (a # as) s = (case tcp_step a s of None \<Rightarrow> None | Some s' \<Rightarrow> tcp_run as s')"

end
