(* ===== verification/TcpWire.thy ===== *)
theory TcpWire
  imports Tcp
begin

text \<open>
  The JSON-RPC stream in both directions: the requests the client writes are recovered line by line by
  whoever splits the stream at line breaks, a reply line is classified as the response it encodes, a
  notification line as the event; and the reconnect delay in closed form.
\<close>

section \<open>Requests\<close>

lemma newline_not_inline: "inline s \<Longrightarrow> newline \<notin> set s"
  by (auto simp: inline_def list_all_iff newline_def)

lemma split_lines:
  assumes "\<And>s. s \<in> set ls \<Longrightarrow> newline \<notin> set s"
  shows "split_on newline (concat (map (\<lambda>s. s @ [newline]) ls)) = ls @ ['''']"
  using assms
proof (induction ls)
  case (Cons s ls)
  have "split_on newline (s @ newline # t) = s # split_on newline t" if "newline \<notin> set s" for s t
    using that by (induction s) auto
  then show ?case
    using Cons by simp
qed simp

definition request_ok :: "rpcRequest \<Rightarrow> bool" where
  "request_ok r \<longleftrightarrow> printable (rpcRequest_json r) \<and> json_depth (rpcRequest_json r) \<le> maxNestingDepth"

text \<open>Splitting the bytes written to a connection at line breaks gives back exactly the frames written,
  in order, and each parses to the document of its request: no frame contains a raw line break.\<close>

theorem request_stream_roundtrip:
  assumes "list_all request_ok rs"
  shows "\<exists>ls. split_on newline (concat (map request_line rs)) = ls @ [''''] \<and>
    map json_parse ls = map (Some \<circ> rpcRequest_json) rs"
proof -
  let ?ls = "map (json_print \<circ> rpcRequest_json) rs"
  have "newline \<notin> set s" if "s \<in> set ?ls" for s
    using that assms by (auto simp: list_all_iff request_ok_def intro!: newline_not_inline inline_print)
  then have "split_on newline (concat (map (\<lambda>s. s @ [newline]) ?ls)) = ?ls @ ['''']"
    by (rule split_lines)
  moreover have "map (\<lambda>s. s @ [newline]) ?ls = map request_line rs"
    by (simp add: request_line_def)
  moreover have "map json_parse ?ls = map (Some \<circ> rpcRequest_json) rs"
    using assms by (auto simp: list_all_iff request_ok_def json_roundtrip)
  ultimately show ?thesis
    by metis
qed

theorem request_stream_roundtrip_witness:
  "\<exists>ls. split_on newline (concat (map request_line [\<lparr> rq_JSONRPC = ''2.0'', rq_Method = ''send'',
       rq_Params = Some JNull, rq_ID = ''a'' \<rparr>])) = ls @ [''''] \<and>
    map json_parse ls = map (Some \<circ> rpcRequest_json) [\<lparr> rq_JSONRPC = ''2.0'', rq_Method = ''send'',
       rq_Params = Some JNull, rq_ID = ''a'' \<rparr>]"
  by (rule request_stream_roundtrip)
    (simp add: request_ok_def rpcRequest_json_def utf8_valid_ascii maxNestingDepth_def)

section \<open>Replies and notifications\<close>

lemma trim_frame_line: "s \<noteq> [] \<Longrightarrow> last s \<notin> {newline, CHR 0x0D, CHR 0x20} \<Longrightarrow> trim_frame (s @ [newline]) = s"
  by (cases s rule: rev_cases) (auto simp: trim_frame_def)

lemma json_print_JObj: "\<exists>x. json_print (JObj ms) = x @ [CHR 0x7D]"
  by (simp add: json_print_def)

lemma trim_frame_obj: "trim_frame (json_print (JObj ms) @ [newline]) = json_print (JObj ms)"
  using json_print_JObj [of ms] trim_frame_line [of "json_print (JObj ms)"] by (auto simp: newline_def)

lemma classify_document:
  assumes "printable (JObj ms)" "json_depth (JObj ms) \<le> maxNestingDepth"
    and "decode_members rpcFrame_fields ms rpcFrame_zero = (True, frame)"
  shows "classify (json_print (JObj ms) @ [newline]) =
    (if fr_ID frame \<noteq> None \<and> fr_ID frame \<noteq> Some '''' then
       Response (the (fr_ID frame)) \<lparr> rp_result = fr_Result frame, rp_err = fr_Error frame, rp_disconnect = False \<rparr>
     else if fr_Method frame = '''' then Nothing
     else Notification \<lparr> ev_Method = fr_Method frame, ev_Params = fr_Params frame \<rparr>)"
proof -
  have "json_print (JObj ms) \<noteq> ''''"
    using json_print_JObj [of ms] by auto
  then show ?thesis
    using assms json_roundtrip [OF assms(1,2)]
    by (simp add: classify_def trim_frame_obj json_Unmarshal_def split: option.splits)
qed

definition reply_line :: "string \<Rightarrow> json \<Rightarrow> string" where
  "reply_line i j = json_print (JObj [(''jsonrpc'', JStr ''2.0''), (''result'', j), (''id'', JStr i)]) @ [newline]"

lemma classify_reply:
  assumes "utf8_valid i" "i \<noteq> ''''" "printable j" "json_depth j < maxNestingDepth"
  shows "classify (reply_line i j) = Response i \<lparr> rp_result = Some j, rp_err = None, rp_disconnect = False \<rparr>"
  unfolding reply_line_def
  by (subst classify_document)
    (use assms in \<open>auto simp: utf8_valid_ascii rpcFrame_fields_def rpcFrame_zero_def field_defs dec_raw_def\<close>)

lemma send_outcome_reply:
  "in_int64 ts \<Longrightarrow>
     send_outcome \<lparr> rp_result = Some (JObj [(''timestamp'', JInt ts)]), rp_err = None, rp_disconnect = False \<rparr> =
       Inr \<lparr> sr_Timestamp = ts, sr_Raw = Some (JObj [(''timestamp'', JInt ts)]) \<rparr>"
  by (simp add: send_outcome_def SendResult_fields_def field_defs)

section \<open>Reconnect delays\<close>

text \<open>After \<open>n\<close> failed dials in a row the client sleeps half a second times two to the \<open>n\<close>, at most thirty
  seconds.\<close>

theorem reconnect_delay:
  "((\<lambda>b. nextBackoff b maxBackoff) ^^ n) baseBackoff = min (baseBackoff * 2 ^ n) maxBackoff"
proof (induction n)
  case 0
  then show ?case
    by (simp add: baseBackoff_def maxBackoff_def duration_units)
next
  case (Suc n)
  have b: "0 < baseBackoff" "baseBackoff * 2 ^ n > 0" "maxBackoff = 30000000000"
    by (simp_all add: baseBackoff_def maxBackoff_def duration_units)
  have "0 < min (baseBackoff * 2 ^ n) maxBackoff" "min (baseBackoff * 2 ^ n) maxBackoff \<le> 30000000000"
    using b by (simp_all add: min_def)
  then have "in_int64 (min (baseBackoff * 2 ^ n) maxBackoff * 2)"
    by (simp add: in_int64_def)
  then have "nextBackoff (min (baseBackoff * 2 ^ n) maxBackoff) maxBackoff = min (baseBackoff * 2 ^ Suc n) maxBackoff"
    using b by (simp add: nextBackoff_def Let_def min_def)
  then show ?case
    by (simp add: Suc)
qed

end
