(* ===== verification/TcpSafety.thy ===== *)
theory TcpSafety
  imports TcpWire World
begin

text \<open>
  What holds of the client's goroutines in every interleaving: a response reaches the caller that drew its
  id and no other, the reader never blocks on a response channel, no signal channel is closed twice, the
  event buffer keeps order and counts what it drops, and after shutdown every caller can return.
\<close>

section \<open>Reachable states\<close>

inductive tcp_reach :: "Install \<Rightarrow> (nat \<Rightarrow> SendParams) \<Rightarrow> tcp_system \<Rightarrow> bool" for install ps where
  started: "tcp_reach install ps (Start ps (NewTCPClient install))"
| step: "tcp_reach install ps s \<Longrightarrow> tcp_step a s = Some s' \<Longrightarrow> tcp_reach install ps s'"

lemma tcp_run_reach:
  "tcp_run as s = Some s' \<Longrightarrow> tcp_reach install ps s \<Longrightarrow> tcp_reach install ps s'"
  by (induction as s rule: tcp_run.induct) (auto split: option.splits intro: tcp_reach.step)

section \<open>The callers' transitions\<close>

lemmas send_defs = send_step_def send_wait_def send_register_def writeFrame_def send_select_def
lemmas dial_defs = dialLoop_def dial_next_def readLoop_def

lemma send_step_cases:
  assumes "send_step a me gone s c = Some (x, c')"
  obtains
    (turned_away) p e where "s = S_start p" "x = S_done p None (Inl e)" "c' = c"
  | (entered) p where "s = S_start p" "x = S_wait p (tc_dialOnce c)" "c' = c"
  | (dialed) p once where "s = S_wait p once" "tc_shut c once" "x = S_load p None \<or> x = S_ready p" "c' = c"
  | (gave_up) p once e where "s = S_wait p once" "x = S_done p None (Inl e)" "c' = c"
  | (refused) p e where "s = S_ready p" "x = S_done p None (Inl e)" "c' = c"
  | (registered) p i where "s = S_ready p" "i \<notin> set (tc_used c)" "x = S_load p (Some (i, tc_next c))"
      "c' = snd (register i c)"
  | (no_conn) p r e where "s = S_load p r" "x = S_return p r (Inl e)" "c' = c"
  | (locked) p r k where "s = S_load p r" "x = S_write p r k" "tc_writeMu c = None"
      "c' = c\<lparr> tc_writeMu := Some me \<rparr>"
  | (forgot) p k where "s = S_write p None k" "x = S_done p None (Inr SendResult_zero)"
      "c' = conn_write k (request_line (send_request p None)) (c\<lparr> tc_writeMu := None \<rparr>)"
  | (written) p i ch k where "s = S_write p (Some (i, ch)) k" "x = S_waiting p i ch"
      "c' = conn_write k (request_line (send_request p (Some i))) (c\<lparr> tc_writeMu := None \<rparr>)"
  | (unwritten) p r k e body where "s = S_write p r k" "x = S_return p r (Inl e)"
      "c' = conn_write k body (c\<lparr> tc_writeMu := None \<rparr>)"
  | (stopped) p i ch e where "s = S_waiting p i ch" "x = S_return p (Some (i, ch)) (Inl e)" "c' = c"
  | (received) p i ch r rs where "s = S_waiting p i ch" "tc_chan c ch = r # rs"
      "x = S_return p (Some (i, ch)) (send_outcome r)" "c' = c\<lparr> tc_chan := (tc_chan c)(ch := rs) \<rparr>"
  | (finished) p r res where "s = S_return p r res" "x = S_done p (map_option fst r) res"
      "c' = (case r of None \<Rightarrow> c | Some (i, ch) \<Rightarrow> unregister i c)"
proof (cases s)
  case (S_start p)
  then have "c' = c \<and> ((\<exists>e. x = S_done p None (Inl e)) \<or> x = S_wait p (tc_dialOnce c))"
    using assms by (cases a) (auto simp: send_defs waitConnected_def split: if_splits)
  then show ?thesis
    using turned_away entered S_start by blast
next
  case (S_wait p once)
  then have "c' = c \<and> (tc_shut c once \<and> (x = S_load p None \<or> x = S_ready p) \<or> (\<exists>e. x = S_done p None (Inl e)))"
    using assms by (cases a) (auto simp: send_defs split: if_splits)
  then show ?thesis
    using dialed gave_up S_wait by blast
next
  case (S_ready p)
  then have "c' = c \<and> (\<exists>e. x = S_done p None (Inl e)) \<or>
      (\<exists>i. i \<notin> set (tc_used c) \<and> x = S_load p (Some (i, tc_next c)) \<and> c' = snd (register i c))"
    using assms by (cases a) (auto simp: send_defs register_def Let_def split: if_splits)
  then show ?thesis
    using refused registered S_ready by blast
next
  case (S_load p r)
  then have "c' = c \<and> (\<exists>e. x = S_return p r (Inl e)) \<or>
      tc_writeMu c = None \<and> c' = c\<lparr> tc_writeMu := Some me \<rparr> \<and> (\<exists>k. x = S_write p r k)"
    using assms by (cases a) (auto simp: send_defs split: if_splits option.splits)
  then show ?thesis
    using no_conn locked S_load by blast
next
  case (S_write p r k)
  consider "a = Written" | n e where "a = WriteFails n e"
    using assms S_write by (cases a) (auto simp: send_defs Let_def)
  then show ?thesis
  proof cases
    case 1
    then show ?thesis
      using assms S_write forgot written
      by (cases r) (auto simp: send_defs Let_def split: if_splits prod.splits)
  next
    case 2
    then show ?thesis
      using assms S_write unwritten by (auto simp: send_defs Let_def)
  qed
next
  case (S_waiting p i ch)
  then have "c' = c \<and> (\<exists>e. x = S_return p (Some (i, ch)) (Inl e)) \<or>
      (\<exists>r rs. tc_chan c ch = r # rs \<and> x = S_return p (Some (i, ch)) (send_outcome r) \<and>
        c' = c\<lparr> tc_chan := (tc_chan c)(ch := rs) \<rparr>)"
    using assms by (cases a) (auto simp: send_defs Let_def split: if_splits list.splits)
  then show ?thesis
    using stopped received S_waiting by blast
next
  case (S_return p r res)
  then have "x = S_done p (map_option fst r) res \<and> c' = (case r of None \<Rightarrow> c | Some (i, ch) \<Rightarrow> unregister i c)"
    using assms by (cases a) (auto simp: send_defs)
  then show ?thesis
    using finished S_return by blast
qed (use assms in \<open>simp add: send_defs\<close>)

section \<open>The invariant\<close>

fun params_of :: "sender \<Rightarrow> SendParams" where
  "params_of (S_start p) = p"
| "params_of (S_wait p once) = p"
| "params_of (S_ready p) = p"
| "params_of (S_load p r) = p"
| "params_of (S_write p r k) = p"
| "params_of (S_waiting p i ch) = p"
| "params_of (S_return p r res) = p"
| "params_of (S_done p i res) = p"

fun owns :: "sender \<Rightarrow> (string \<times> nat) option" where
  "owns (S_load p r) = r"
| "owns (S_write p r k) = r"
| "owns (S_waiting p i ch) = Some (i, ch)"
| "owns (S_return p r res) = r"
| "owns _ = None"

fun drawn :: "sender \<Rightarrow> string option" where
  "drawn (S_done p i res) = i"
| "drawn s = map_option fst (owns s)"

definition answered :: "TCPClient \<Rightarrow> string \<Rightarrow> rpcResponse \<Rightarrow> bool" where
  "answered c i r \<longleftrightarrow> (\<exists>line \<in> set (tc_received c). classify line = Response i r)"

definition sent_on_wire :: "TCPClient \<Rightarrow> SendParams \<Rightarrow> string option \<Rightarrow> bool" where
  "sent_on_wire c p i \<longleftrightarrow> request_line (send_request p i) \<in> set (map snd (tc_wire c))"

definition justified :: "TCPClient \<Rightarrow> SendParams \<Rightarrow> string option \<Rightarrow> SendResult \<Rightarrow> bool" where
  "justified c p i res \<longleftrightarrow> sent_on_wire c p i \<and>
     (case i of
        None \<Rightarrow> res = SendResult_zero
      | Some i \<Rightarrow> \<exists>r. answered c i r \<and> send_outcome r = Inr res)"

definition pending_ok :: "TCPClient \<Rightarrow> bool" where
  "pending_ok c \<longleftrightarrow> distinct (map fst (tc_pending c)) \<and> distinct (map snd (tc_pending c)) \<and>
     (\<forall>i ch. (i, ch) \<in> set (tc_pending c) \<longrightarrow> tc_chan c ch = [] \<and> ch < tc_next c \<and> i \<in> set (tc_used c))"

definition owner_ok :: "TCPClient \<Rightarrow> sender \<Rightarrow> bool" where
  "owner_ok c s \<longleftrightarrow> (case owns s of
     None \<Rightarrow> True
   | Some (i, ch) \<Rightarrow> ch < tc_next c \<and>
       (\<forall>r \<in> set (tc_chan c ch). rp_disconnect r \<or> answered c i r) \<and>
       (\<forall>j. (j, ch) \<in> set (tc_pending c) \<longrightarrow> j = i))"

fun phase_ok :: "TCPClient \<Rightarrow> sender \<Rightarrow> bool" where
  "phase_ok c (S_wait p once) = (once = tc_dialOnce c \<or> tc_shut c once)"
| "phase_ok c (S_waiting p i ch) = sent_on_wire c p (Some i)"
| "phase_ok c (S_return p r (Inr res)) = justified c p (map_option fst r) res"
| "phase_ok c (S_done p i (Inr res)) = justified c p i res"
| "phase_ok c _ = True"

definition sender_ok :: "(nat \<Rightarrow> SendParams) \<Rightarrow> TCPClient \<Rightarrow> nat \<Rightarrow> sender \<Rightarrow> bool" where
  "sender_ok ps c n s \<longleftrightarrow> params_of s = ps n \<and> owner_ok c s \<and> phase_ok c s \<and>
     (case drawn s of None \<Rightarrow> True | Some i \<Rightarrow> i \<in> set (tc_used c))"

text \<open>Where the dial loop is, relative to the current signal channel.\<close>

fun armed :: "dialer \<Rightarrow> bool option" where
  "armed D_top = Some True"
| "armed D_dialing = Some True"
| "armed D_sleep = Some True"
| "armed (D_got k) = Some True"
| "armed D_mark = None"
| "armed D_marked = None"
| "armed d = Some False"

definition armed_ok :: "bool option \<Rightarrow> bool \<Rightarrow> bool" where
  "armed_ok x shut \<longleftrightarrow> (case x of None \<Rightarrow> True | Some b \<Rightarrow> shut = (\<not> b))"

lemma armed_ok_simps [simp]: "armed_ok None shut" "armed_ok (Some b) shut \<longleftrightarrow> (shut = (\<not> b))"
  by (simp_all add: armed_ok_def)

definition signal_ok :: "TCPClient \<Rightarrow> dialer \<Rightarrow> bool" where
  "signal_ok c d \<longleftrightarrow> \<not> tc_panic c \<and> tc_dialOnce c < tc_next c \<and> (\<forall>ch \<ge> tc_next c. \<not> tc_shut c ch) \<and>
     armed_ok (armed d) (tc_shut c (tc_dialOnce c)) \<and>
     (d = D_exit \<longrightarrow> tc_closed c)"

definition deliver_ok :: "TCPClient \<Rightarrow> (nat \<Rightarrow> sender) \<Rightarrow> dialer \<Rightarrow> bool" where
  "deliver_ok c ss d \<longleftrightarrow> (case d of
     D_deliver k ch r \<Rightarrow> tc_chan c ch = [] \<and> ch < tc_next c \<and> ch \<notin> set (map snd (tc_pending c)) \<and>
       (\<forall>n i. owns (ss n) = Some (i, ch) \<longrightarrow> answered c i r)
   | _ \<Rightarrow> True)"

definition tcp_inv :: "(nat \<Rightarrow> SendParams) \<Rightarrow> tcp_system \<Rightarrow> bool" where
  "tcp_inv ps s \<longleftrightarrow> pending_ok (ts_client s) \<and> (\<forall>n. sender_ok ps (ts_client s) n (ts_senders s n)) \<and>
     (\<forall>n m i. drawn (ts_senders s n) = Some i \<longrightarrow> drawn (ts_senders s m) = Some i \<longrightarrow> n = m) \<and>
     signal_ok (ts_client s) (ts_dialer s) \<and> deliver_ok (ts_client s) (ts_senders s) (ts_dialer s)"

section \<open>Preservation\<close>

text \<open>How the client may change under a caller that does not move.\<close>

definition extends :: "TCPClient \<Rightarrow> TCPClient \<Rightarrow> bool" where
  "extends c c' \<longleftrightarrow> tc_next c \<le> tc_next c' \<and> set (tc_used c) \<subseteq> set (tc_used c') \<and>
     set (tc_received c) \<subseteq> set (tc_received c') \<and> set (tc_wire c) \<subseteq> set (tc_wire c') \<and>
     (\<forall>ch. tc_shut c ch \<longrightarrow> tc_shut c' ch) \<and>
     (tc_dialOnce c' = tc_dialOnce c \<or> tc_shut c (tc_dialOnce c)) \<and>
     (\<forall>i ch. (i, ch) \<in> set (tc_pending c') \<longrightarrow> (i, ch) \<in> set (tc_pending c) \<or> tc_next c \<le> ch)"

lemma answered_mono: "answered c i r \<Longrightarrow> set (tc_received c) \<subseteq> set (tc_received c') \<Longrightarrow> answered c' i r"
  by (auto simp: answered_def)

lemma justified_mono:
  "justified c p i res \<Longrightarrow> set (tc_received c) \<subseteq> set (tc_received c') \<Longrightarrow> set (tc_wire c) \<subseteq> set (tc_wire c') \<Longrightarrow>
     justified c' p i res"
  by (auto simp: justified_def sent_on_wire_def answered_def split: option.splits)

lemma phase_ok_mono:
  assumes "phase_ok c s" "extends c c'"
  shows "phase_ok c' s"
  using assms justified_mono [of c _ _ _ c']
  by (cases "(c, s)" rule: phase_ok.cases) (auto simp: extends_def sent_on_wire_def)

lemma sender_ok_mono:
  assumes ok: "sender_ok ps c n s" and ext: "extends c c'"
    and chan: "\<And>i ch r. owns s = Some (i, ch) \<Longrightarrow> r \<in> set (tc_chan c' ch) \<Longrightarrow>
      r \<in> set (tc_chan c ch) \<or> rp_disconnect r \<or> answered c' i r"
  shows "sender_ok ps c' n s"
proof -
  have "owner_ok c' s"
  proof (cases "owns s")
    case (Some o')
    obtain i ch where o': "o' = (i, ch)"
      by (cases o')
    have own: "ch < tc_next c" "\<forall>r \<in> set (tc_chan c ch). rp_disconnect r \<or> answered c i r"
        "\<forall>j. (j, ch) \<in> set (tc_pending c) \<longrightarrow> j = i"
      using ok by (auto simp: sender_ok_def owner_ok_def Some o')
    have "j = i" if "(j, ch) \<in> set (tc_pending c')" for j
      using that ext own by (fastforce simp: extends_def)
    moreover have "rp_disconnect r \<or> answered c' i r" if "r \<in> set (tc_chan c' ch)" for r
      using chan [of i ch r] that own(2) answered_mono [of c i r c'] ext Some o' by (auto simp: extends_def)
    ultimately show ?thesis
      using own(1) ext by (simp add: owner_ok_def Some o' extends_def)
  qed (simp add: owner_ok_def)
  then show ?thesis
    using ok phase_ok_mono [of c s c'] ext
    by (auto simp: sender_ok_def extends_def split: option.splits)
qed

lemma extends_refl [simp]: "extends c c"
  by (simp add: extends_def)

text \<open>The effect of each critical section on the pending map.\<close>

lemma without_set [simp]: "p \<in> set (without k ps) \<longleftrightarrow> p \<in> set ps \<and> fst p \<noteq> k"
  by (auto simp: without_def)

lemma without_distinct: "distinct (map f ps) \<Longrightarrow> distinct (map f (without k ps))"
  by (simp add: without_def distinct_map_filter)

lemma pendingD:
  "pending_ok c \<Longrightarrow> (i, ch) \<in> set (tc_pending c) \<Longrightarrow> tc_chan c ch = [] \<and> ch < tc_next c \<and> i \<in> set (tc_used c)"
  by (simp add: pending_ok_def)

lemma pending_ok_mono:
  assumes "pending_ok c" "tc_pending c' = tc_pending c" "tc_next c \<le> tc_next c'" "tc_used c' = tc_used c"
    and "\<And>ch. ch \<in> set (map snd (tc_pending c)) \<Longrightarrow> tc_chan c' ch = tc_chan c ch"
  shows "pending_ok c'"
proof -
  have "tc_chan c' ch = [] \<and> ch < tc_next c' \<and> i \<in> set (tc_used c')" if "(i, ch) \<in> set (tc_pending c)" for i ch
    using pendingD [OF assms(1) that] assms(3,4) assms(5) [of ch] that by force
  then show ?thesis
    using assms(1,2) by (simp add: pending_ok_def)
qed

lemma pending_ok_without: "pending_ok c \<Longrightarrow> pending_ok (c\<lparr> tc_pending := without i (tc_pending c) \<rparr>)"
  by (auto simp: pending_ok_def without_distinct)

lemma register_ok:
  assumes "pending_ok c" "i \<notin> set (tc_used c)"
  shows "pending_ok (snd (register i c))" "extends c (snd (register i c))"
proof -
  have "tc_next c \<notin> set (map snd (without i (tc_pending c)))" "i \<notin> set (map fst (without i (tc_pending c)))"
    using pendingD [OF assms(1)] by fastforce+
  moreover have "distinct (map fst (without i (tc_pending c)))" "distinct (map snd (without i (tc_pending c)))"
    using assms(1) by (simp_all add: pending_ok_def without_distinct)
  ultimately show "pending_ok (snd (register i c))"
    using pendingD [OF assms(1)] by (auto simp: pending_ok_def register_def Let_def less_SucI)
  show "extends c (snd (register i c))"
    by (auto simp: extends_def register_def Let_def)
qed

lemma extends_simps:
  "extends c (unregister i c)" "extends c (conn_write k body (c\<lparr> tc_writeMu := m \<rparr>))"
  "extends c (c\<lparr> tc_writeMu := m \<rparr>)" "extends c (c\<lparr> tc_chan := f \<rparr>)" "extends c (failPending c)"
  "extends c (c\<lparr> tc_conn := conn \<rparr>)" "extends c (c\<lparr> tc_open := op \<rparr>)" "extends c (c\<lparr> tc_closed := b \<rparr>)"
  "extends c (c\<lparr> tc_runDone := b \<rparr>)" "extends c (c\<lparr> tc_open := op, tc_next := Suc (tc_next c) \<rparr>)"
  "extends c (conn_up k c)" "extends c (markShutdown c)" "extends c (snd (dispatchFrame l c))"
  "tc_shut c (tc_dialOnce c) \<Longrightarrow> extends c (rearm c)" "extends c (c\<lparr> tc_events := es \<rparr>)"
  by (auto simp: extends_def unregister_def conn_write_def failPending_def conn_up_def close_once_def
      markShutdown_def Let_def dispatchFrame_def rearm_def split: incoming.splits option.splits)

text \<open>What a caller's step leaves of the client.\<close>

definition caller_frame :: "TCPClient \<Rightarrow> TCPClient \<Rightarrow> bool" where
  "caller_frame c c' \<longleftrightarrow> extends c c' \<and> (\<forall>ch < tc_next c. set (tc_chan c' ch) \<subseteq> set (tc_chan c ch)) \<and>
     tc_shut c' = tc_shut c \<and> tc_dialOnce c' = tc_dialOnce c \<and> tc_panic c' = tc_panic c \<and>
     tc_closed c' = tc_closed c"

lemma send_step_frame:
  assumes "send_step a me gone s c = Some (x, c')" "pending_ok c"
  shows "pending_ok c' \<and> caller_frame c c'"
  using assms(1)
proof (cases rule: send_step_cases)
  case (registered p i)
  then show ?thesis
    using register_ok [OF assms(2)] by (auto simp: caller_frame_def register_def Let_def)
next
  case (received p i ch r rs)
  then show ?thesis
    using assms(2) extends_simps(4) by (auto simp: caller_frame_def pending_ok_def)
next
  case (finished p r res)
  then show ?thesis
    using assms(2) pending_ok_without [OF assms(2)] extends_simps(1) [of c]
    by (cases r) (auto simp: caller_frame_def unregister_def)
qed (use assms(2) extends_simps in \<open>auto simp: caller_frame_def pending_ok_def conn_write_def\<close>)

lemma send_step_owner:
  assumes "send_step a me gone s c = Some (x, c')"
  shows "owns x = owns s \<or> owns x = None \<or> (\<exists>i. i \<notin> set (tc_used c) \<and> owns x = Some (i, tc_next c))"
    and "drawn x = drawn s \<or> (\<exists>i. i \<notin> set (tc_used c) \<and> drawn x = Some i)"
  using assms by (cases rule: send_step_cases; auto)+

lemma send_outcome_answered:
  assumes "send_outcome r = Inr res" "rp_disconnect r \<or> answered c i r"
  shows "\<exists>r. answered c i r \<and> send_outcome r = Inr res"
proof -
  have "\<not> rp_disconnect r"
    using assms(1) by (auto simp: send_outcome_def)
  with assms show ?thesis
    by blast
qed

lemma send_step_phase:
  assumes "send_step a me gone s c = Some (x, c')" "sender_ok ps c n s"
  shows "params_of x = ps n \<and> phase_ok c' x"
  using assms(1)
proof (cases rule: send_step_cases)
  case (received p i ch r rs)
  have w: "sent_on_wire c' p (Some i)"
    using assms(2) received by (auto simp: sender_ok_def sent_on_wire_def)
  have "rp_disconnect r \<or> answered c' i r"
    using assms(2) received by (auto simp: sender_ok_def owner_ok_def answered_def)
  then show ?thesis
    using assms(2) received w send_outcome_answered [of r _ c' i]
    by (cases "send_outcome r") (auto simp: sender_ok_def justified_def)
next
  case (finished p r res)
  have "justified c' p (map_option fst r) v" if "res = Inr v" for v
  proof (rule justified_mono)
    show "justified c p (map_option fst r) v"
      using assms(2) finished that by (auto simp: sender_ok_def)
  qed (use finished in \<open>auto simp: unregister_def split: option.splits\<close>)
  then show ?thesis
    using assms(2) finished by (cases res) (auto simp: sender_ok_def)
qed (use assms(2) in \<open>auto simp: sender_ok_def conn_write_def sent_on_wire_def justified_def\<close>)

lemma send_step_owner_ok:
  assumes "send_step a me gone s c = Some (x, c')" "sender_ok ps c n s" "pending_ok c"
  shows "owner_ok c' x"
proof -
  have frame: "caller_frame c c'"
    using send_step_frame [OF assms(1,3)] by blast
  have old: "sender_ok ps c' n s"
    using assms(2)
  proof (rule sender_ok_mono)
    show "extends c c'"
      using frame by (simp add: caller_frame_def)
    fix i ch r
    assume o: "owns s = Some (i, ch)" and r: "r \<in> set (tc_chan c' ch)"
    have "ch < tc_next c"
      using assms(2) o by (simp add: sender_ok_def owner_ok_def)
    then show "r \<in> set (tc_chan c ch) \<or> rp_disconnect r \<or> answered c' i r"
      using r frame by (auto simp: caller_frame_def)
  qed
  show ?thesis
    using assms(1)
  proof (cases rule: send_step_cases)
    case (registered p i)
    have "\<not> (j, tc_next c) \<in> set (tc_pending c)" for j
      using assms(3) by (auto simp: pending_ok_def)
    then show ?thesis
      using registered by (auto simp: owner_ok_def register_def Let_def)
  qed (use old in \<open>auto simp: sender_ok_def owner_ok_def\<close>)
qed

lemma send_step_ok:
  assumes "send_step a me gone s c = Some (x, c')" "sender_ok ps c n s" "pending_ok c"
  shows "sender_ok ps c' n x"
proof -
  have "case drawn x of None \<Rightarrow> True | Some i \<Rightarrow> i \<in> set (tc_used c')"
    using assms(1)
    by (cases rule: send_step_cases)
      (use assms(2) in \<open>auto simp: sender_ok_def register_def Let_def conn_write_def unregister_def split: option.splits\<close>)
  then show ?thesis
    using send_step_phase [OF assms(1,2)] send_step_owner_ok [OF assms] by (simp add: sender_ok_def)
qed

lemma sender_step_inv:
  assumes inv: "tcp_inv ps s" and st: "tcp_step (Sender n a) s = Some s'"
  shows "tcp_inv ps s'"
proof -
  let ?c = "ts_client s" and ?ss = "ts_senders s" and ?d = "ts_dialer s"
  obtain x c' where x: "send_step a n (ts_gone s n) (?ss n) ?c = Some (x, c')"
    and s': "s' = s\<lparr> ts_client := c', ts_senders := ?ss(n := x) \<rparr>"
    using st by auto
  have proj: "ts_client s' = c'" "ts_senders s' = ?ss(n := x)" "ts_dialer s' = ?d"
    by (simp_all add: s')
  have pend: "pending_ok ?c" and oks: "sender_ok ps ?c m (?ss m)" and sig: "signal_ok ?c ?d"
    and del: "deliver_ok ?c ?ss ?d"
    and uniq: "drawn (?ss l) = Some i \<Longrightarrow> drawn (?ss m) = Some i \<Longrightarrow> l = m" for l m i
    using inv unfolding tcp_inv_def by blast+
  have pend': "pending_ok c'" and frame: "caller_frame ?c c'"
    using send_step_frame [OF x pend] by blast+
  have ext: "extends ?c c'"
    using frame by (simp add: caller_frame_def)
  have low: "ch < tc_next ?c" if "owns (?ss m) = Some (i, ch)" for m i ch
    using oks [of m] that by (simp add: sender_ok_def owner_ok_def)
  have others: "sender_ok ps c' m (?ss m)" for m
    using oks ext
  proof (rule sender_ok_mono)
    fix i ch r
    assume o: "owns (?ss m) = Some (i, ch)" and r: "r \<in> set (tc_chan c' ch)"
    show "r \<in> set (tc_chan ?c ch) \<or> rp_disconnect r \<or> answered c' i r"
      using low [OF o] r frame by (auto simp: caller_frame_def)
  qed
  have used: "i \<in> set (tc_used ?c)" if "drawn (?ss m) = Some i" for m i
    using oks [of m] that by (simp add: sender_ok_def)
  have uniq': "l = m" if l: "drawn ((?ss(n := x)) l) = Some i" and m: "drawn ((?ss(n := x)) m) = Some i" for l m i
  proof -
    have "drawn (?ss l) = Some i \<or> i \<notin> set (tc_used ?c) \<and> l = n"
      using send_step_owner(2) [OF x] l by (auto split: if_splits)
    moreover have "drawn (?ss m) = Some i \<or> i \<notin> set (tc_used ?c) \<and> m = n"
      using send_step_owner(2) [OF x] m by (auto split: if_splits)
    ultimately show ?thesis
      using uniq used by blast
  qed
  have sig': "signal_ok c' ?d"
  proof -
    have eqs: "tc_shut c' = tc_shut ?c" "tc_dialOnce c' = tc_dialOnce ?c" "tc_panic c' = tc_panic ?c"
        "tc_closed c' = tc_closed ?c" and "tc_next ?c \<le> tc_next c'"
      using frame by (simp_all add: caller_frame_def extends_def)
    then show ?thesis
      using sig unfolding signal_ok_def eqs by auto
  qed
  have del': "deliver_ok c' (?ss(n := x)) ?d"
  proof (cases ?d)
    case (D_deliver k ch r)
    then have d: "tc_chan ?c ch = []" "ch < tc_next ?c" "ch \<notin> set (map snd (tc_pending ?c))"
        "owns (?ss m) = Some (i, ch) \<Longrightarrow> answered ?c i r" for m i
      using del by (auto simp: deliver_ok_def)
    have "tc_chan c' ch = []"
    proof -
      have "set (tc_chan c' ch) \<subseteq> set (tc_chan ?c ch)"
        using d(2) frame by (simp add: caller_frame_def)
      then show ?thesis
        using d(1) by simp
    qed
    moreover have "ch \<notin> set (map snd (tc_pending c'))"
    proof
      assume "ch \<in> set (map snd (tc_pending c'))"
      then obtain i where "(i, ch) \<in> set (tc_pending c')"
        by auto
      then have "(i, ch) \<in> set (tc_pending ?c) \<or> tc_next ?c \<le> ch"
        using ext unfolding extends_def by blast
      with d(2,3) show False
        by force
    qed
    moreover have "answered c' i r" if o: "owns ((?ss(n := x)) m) = Some (i, ch)" for m i
    proof -
      have "owns x \<noteq> Some (i, ch) \<or> owns (?ss n) = Some (i, ch)"
        using send_step_owner(1) [OF x] d(2) by auto
      then have "owns (?ss m) = Some (i, ch)"
        using o by (cases "m = n") simp_all
      then have "answered ?c i r"
        by (rule d(4))
      then show ?thesis
        by (rule answered_mono) (use ext in \<open>simp add: extends_def\<close>)
    qed
    ultimately show ?thesis
      using d(2) ext by (simp add: deliver_ok_def D_deliver extends_def)
  qed (simp_all add: deliver_ok_def)
  show ?thesis
    unfolding tcp_inv_def proj
  proof (intro conjI allI impI)
    show "sender_ok ps c' m ((?ss(n := x)) m)" for m
      using others send_step_ok [OF x oks pend] by simp
  qed (fact pend', erule (1) uniq', fact sig', fact del')
qed

section \<open>The dial loop's transitions\<close>

lemma dialLoop_cases:
  assumes "dialLoop a b d c = Some (b', d', c')"
  obtains
    (quiet) "c' = c" "armed d' = armed d \<or> armed d' = None" "d' \<noteq> D_exit" "\<And>k ch r. d' \<noteq> D_deliver k ch r"
  | (dialed) "d = D_dialing" "d' = D_got (tc_next c)"
      "c' = c\<lparr> tc_open := (tc_open c)(tc_next c := True), tc_next := Suc (tc_next c) \<rparr>"
  | (connect) k where "d = D_got k" "d' = D_read k" "c' = conn_up k c"
  | (failed) "armed d = armed d'" "c' = failPending c" "d' \<noteq> D_exit" "\<And>k ch r. d' \<noteq> D_deliver k ch r"
  | (hung_up) op conn where "armed d = armed d'" "c' = c\<lparr> tc_open := op, tc_conn := conn \<rparr>" "d' \<noteq> D_exit"
      "\<And>k ch r. d' \<noteq> D_deliver k ch r"
  | (rearmed) "d = D_rearm" "d' = D_top" "c' = rearm c"
  | (exited) "d = D_marked" "d' = D_exit" "c' = markShutdown c"
  | (line) k l where "d = D_read k" "d' = D_read k" "dispatchFrame l c = (None, c')"
  | (matched) k l ch r where "d = D_read k" "d' = D_deliver k ch r" "dispatchFrame l c = (Some (ch, r), c')"
  | (delivered) k ch r where "d = D_deliver k ch r" "d' = D_read k"
      "c' = c\<lparr> tc_chan := (tc_chan c)(ch := tc_chan c ch @ [r]) \<rparr>"
proof (cases d)
  case (D_read k)
  consider l where "a = Line l" | "a = ReadEnds"
    using assms D_read by (cases a) (auto simp: dial_defs)
  then show ?thesis
  proof cases
    case 1
    obtain m c1 where m: "dispatchFrame l c = (m, c1)"
      by (meson surj_pair)
    show ?thesis
    proof (cases m)
      case None
      then have "d' = D_read k" "c' = c1"
        using assms D_read 1 m by (auto simp: dial_defs)
      then show ?thesis
        using line D_read m None by blast
    next
      case (Some x)
      obtain ch r where x: "x = (ch, r)"
        by (meson surj_pair)
      then have "d' = D_deliver k ch r" "c' = c1"
        using assms D_read 1 m Some by (auto simp: dial_defs)
      then show ?thesis
        using matched D_read m Some x by blast
    qed
  next
    case 2
    then show ?thesis
      using assms D_read by (intro quiet) (auto simp: dial_defs)
  qed
next
  case D_top
  then have "c' = c \<and> (d' = D_mark \<or> d' = D_dialing)"
    using assms by (cases a) (auto simp: dial_defs split: if_splits)
  then show ?thesis
    using D_top by (intro quiet) auto
next
  case D_dialing
  then have "c' = c \<and> d' = D_sleep \<or> d' = D_got (tc_next c) \<and>
      c' = c\<lparr> tc_open := (tc_open c)(tc_next c := True), tc_next := Suc (tc_next c) \<rparr>"
    using assms by (cases a) (auto simp: dial_defs)
  then show ?thesis
  proof
    assume "c' = c \<and> d' = D_sleep"
    then show ?thesis
      using D_dialing by (intro quiet) auto
  qed (use dialed D_dialing in blast)
next
  case D_sleep
  then have "c' = c \<and> (d' = D_mark \<or> d' = D_top)"
    using assms by (cases a) (auto simp: dial_defs split: if_splits)
  then show ?thesis
    using D_sleep by (intro quiet) auto
next
  case (D_got k)
  then have "d' = D_read k" "c' = conn_up k c"
    using assms by (cases a; auto simp: dial_defs)+
  then show ?thesis
    using connect D_got by blast
next
  case (D_deliver k ch r)
  then have "d' = D_read k" "c' = c\<lparr> tc_chan := (tc_chan c)(ch := tc_chan c ch @ [r]) \<rparr>"
    using assms by (cases a; auto simp: dial_defs split: if_splits)+
  then show ?thesis
    using delivered D_deliver by blast
next
  case (D_dead k)
  then have "d' = D_failed k" "c' = failPending c"
    using assms by (cases a; auto simp: dial_defs)+
  then show ?thesis
    using D_dead by (intro failed) auto
next
  case (D_failed k)
  then have "d' = D_hungup k" "c' = c\<lparr> tc_open := (tc_open c)(k := False), tc_conn := tc_conn c \<rparr>"
    using assms by (cases a; auto simp: dial_defs)+
  then show ?thesis
    using D_failed by (intro hung_up [of "tc_conn c" "(tc_open c)(k := False)"]) auto
next
  case (D_hungup k)
  then have "d' = D_dropped (tc_closed c)" "c' = c\<lparr> tc_open := tc_open c, tc_conn := None \<rparr>"
    using assms by (cases a; auto simp: dial_defs)+
  then show ?thesis
    using D_hungup by (intro hung_up [of None "tc_open c"]) auto
next
  case (D_dropped x)
  then have "c' = c \<and> (d' = D_mark \<or> d' = D_rearm)"
    using assms by (cases a) (auto simp: dial_defs split: if_splits)
  then show ?thesis
    using D_dropped by (intro quiet) auto
next
  case D_rearm
  then have "d' = D_top" "c' = rearm c"
    using assms by (cases a; auto simp: dial_defs)+
  then show ?thesis
    using rearmed D_rearm by blast
next
  case D_mark
  then have "d' = D_marked" "c' = failPending c"
    using assms by (cases a; auto simp: dial_defs)+
  then show ?thesis
    using D_mark by (intro failed) auto
next
  case D_marked
  then have "d' = D_exit" "c' = markShutdown c"
    using assms by (cases a; auto simp: dial_defs)+
  then show ?thesis
    using exited D_marked by blast
next
  case D_exit
  then have False
    using assms by (cases a) (auto simp: dial_defs)
  then show ?thesis ..
qed

lemma dispatch_none:
  assumes "dispatchFrame l c = (None, c')"
  shows "tc_pending c' = tc_pending c" "tc_chan c' = tc_chan c" "tc_next c' = tc_next c"
    "tc_used c' = tc_used c" "tc_shut c' = tc_shut c" "tc_dialOnce c' = tc_dialOnce c"
    "tc_panic c' = tc_panic c" "tc_closed c' = tc_closed c"
  using assms
  by (auto simp: dispatchFrame_def Let_def split: incoming.splits option.splits if_splits)

lemma dispatch_some:
  assumes "dispatchFrame l c = (Some (ch, r), c')"
  obtains i where "classify l = Response i r" "map_of (tc_pending c) i = Some ch"
    "c' = c\<lparr> tc_received := tc_received c @ [l], tc_pending := without i (tc_pending c) \<rparr>"
proof (cases "classify l")
  case (Response i r')
  have "\<exists>ch. map_of (tc_pending c) i = Some ch"
    using assms Response by (auto simp: dispatchFrame_def Let_def split: option.splits)
  then show ?thesis
    using assms Response by (intro that [of i]) (auto simp: dispatchFrame_def Let_def)
qed (use assms in \<open>auto simp: dispatchFrame_def Let_def split: if_splits\<close>)

lemma pending_ok_empty: "tc_pending c = [] \<Longrightarrow> pending_ok c"
  by (simp add: pending_ok_def)

lemma dial_pending:
  assumes "dialLoop a b d c = Some (b', d', c')" "pending_ok c" "deliver_ok c ss d"
  shows "pending_ok c'"
  using assms(1)
proof (cases rule: dialLoop_cases)
  case (line k l)
  show ?thesis
    using assms(2) by (rule pending_ok_mono) (simp_all add: dispatch_none [OF line(3)])
next
  case (matched k l ch r)
  obtain i where "c' = c\<lparr> tc_received := tc_received c @ [l], tc_pending := without i (tc_pending c) \<rparr>"
    using dispatch_some [OF matched(3)] .
  then show ?thesis
    by (intro pending_ok_mono [OF pending_ok_without [OF assms(2), of i]]) simp_all
next
  case (delivered k ch r)
  have "ch \<notin> set (map snd (tc_pending c))"
    using assms(3) delivered by (simp add: deliver_ok_def)
  then show ?thesis
    using delivered by (intro pending_ok_mono [OF assms(2)]) auto
next
  case failed
  then show ?thesis
    by (intro pending_ok_empty) (simp add: failPending_def)
qed (use assms(2) in \<open>simp_all add: pending_ok_def conn_up_def close_once_def rearm_def
      markShutdown_def Let_def less_SucI\<close>)

lemma dial_extends:
  assumes "dialLoop a b d c = Some (b', d', c')" "signal_ok c d"
  shows "extends c c'"
  using assms(1)
proof (cases rule: dialLoop_cases)
  case (line k l)
  then show ?thesis
    using extends_simps(13) [of c l] by simp
next
  case (matched k l ch r)
  then show ?thesis
    using extends_simps(13) [of c l] by simp
next
  case (hung_up op conn)
  then show ?thesis
    by (simp add: extends_def)
next
  case rearmed
  then show ?thesis
    using assms(2) extends_simps(14) by (simp add: signal_ok_def)
qed (simp_all add: extends_simps)

lemma dial_chan:
  assumes "dialLoop a b d c = Some (b', d', c')" "deliver_ok c ss d"
    and "owns (ss n) = Some (i, ch)" "r \<in> set (tc_chan c' ch)"
  shows "r \<in> set (tc_chan c ch) \<or> rp_disconnect r \<or> answered c' i r"
  using assms(1)
proof (cases rule: dialLoop_cases)
  case (line k l)
  then show ?thesis
    using assms(4) dispatch_none [OF line(3)] by simp
next
  case (matched k l ch' r')
  obtain j where "c' = c\<lparr> tc_received := tc_received c @ [l], tc_pending := without j (tc_pending c) \<rparr>"
    using dispatch_some [OF matched(3)] .
  then show ?thesis
    using assms(4) by simp
next
  case (delivered k ch' r')
  have "answered c i r'" if "ch' = ch"
    using assms(2,3) delivered that by (simp add: deliver_ok_def)
  then have "answered c' i r'" if "ch' = ch"
    using that delivered by (simp add: answered_def)
  then show ?thesis
    using assms(4) delivered by (cases "ch' = ch") auto
next
  case failed
  then show ?thesis
    using assms(4) by (auto simp: failPending_def split: if_splits)
qed (use assms(4) in \<open>auto simp: conn_up_def close_once_def rearm_def markShutdown_def Let_def split: if_splits\<close>)

lemma dial_signal:
  assumes "dialLoop a b d c = Some (b', d', c')" "signal_ok c d"
  shows "signal_ok c' d'"
  using assms(1)
proof (cases rule: dialLoop_cases)
  case quiet
  then show ?thesis
    using assms(2) by (auto simp: signal_ok_def)
next
  case failed
  then show ?thesis
    using assms(2) by (auto simp: signal_ok_def failPending_def)
next
  case (line k l)
  then show ?thesis
    using assms(2) dispatch_none [OF line(3)] by (simp add: signal_ok_def)
next
  case (matched k l ch r)
  obtain j where "c' = c\<lparr> tc_received := tc_received c @ [l], tc_pending := without j (tc_pending c) \<rparr>"
    using dispatch_some [OF matched(3)] .
  then show ?thesis
    using matched(1,2) assms(2) by (simp add: signal_ok_def)
next
  case exited
  then show ?thesis
    using assms(2) by (auto simp: signal_ok_def markShutdown_def close_once_def Let_def)
qed (use assms(2) in \<open>auto simp: signal_ok_def conn_up_def close_once_def rearm_def\<close>)

lemma dial_deliver:
  assumes "dialLoop a b d c = Some (b', d', c')" "pending_ok c"
    and owners: "\<And>n. owner_ok c (ss n)"
  shows "deliver_ok c' ss d'"
  using assms(1)
proof (cases rule: dialLoop_cases)
  case (matched k l ch r)
  obtain i where i: "classify l = Response i r" "map_of (tc_pending c) i = Some ch"
    "c' = c\<lparr> tc_received := tc_received c @ [l], tc_pending := without i (tc_pending c) \<rparr>"
    using dispatch_some [OF matched(3)] .
  have p: "(i, ch) \<in> set (tc_pending c)"
    using i(2) by (rule map_of_SomeD)
  have "distinct (map snd (tc_pending c))"
    using assms(2) by (simp add: pending_ok_def)
  then have "j = i" if "(j, ch) \<in> set (tc_pending c)" for j
    using distinct_map_filter_conv [of snd "tc_pending c" "(j, ch)" "(i, ch)"] that p by simp
  then have gone: "ch \<notin> set (map snd (tc_pending c'))"
    by (auto simp: i(3))
  have "tc_chan c ch = []" "ch < tc_next c"
    using pendingD [OF assms(2) p] by simp_all
  moreover have "answered c' j r" if "owns (ss n) = Some (j, ch)" for n j
  proof -
    have "j = i"
      using owners [of n] that p by (auto simp: owner_ok_def)
    then show ?thesis
      using i(1) by (auto simp: answered_def i(3))
  qed
  ultimately show ?thesis
    using gone by (simp add: matched(2) deliver_ok_def) (simp add: i(3))
qed (auto simp: deliver_ok_def split: dialer.splits)

lemma dialer_step_inv:
  assumes inv: "tcp_inv ps s" and st: "tcp_step (Dialer a) s = Some s'"
  shows "tcp_inv ps s'"
proof -
  let ?c = "ts_client s" and ?ss = "ts_senders s" and ?d = "ts_dialer s"
  obtain b' d' c' where d: "dialLoop a (ts_backoff s) ?d ?c = Some (b', d', c')"
    and s': "s' = s\<lparr> ts_client := c', ts_dialer := d', ts_backoff := b' \<rparr>"
    using st by auto
  have proj: "ts_client s' = c'" "ts_senders s' = ?ss" "ts_dialer s' = d'"
    by (simp_all add: s')
  have pend: "pending_ok ?c" and oks: "sender_ok ps ?c m (?ss m)" and sig: "signal_ok ?c ?d"
    and del: "deliver_ok ?c ?ss ?d"
    and uniq: "drawn (?ss l) = Some i \<Longrightarrow> drawn (?ss m) = Some i \<Longrightarrow> l = m" for l m i
    using inv unfolding tcp_inv_def by blast+
  have "sender_ok ps c' m (?ss m)" for m
    using oks dial_extends [OF d sig]
    by (rule sender_ok_mono) (rule dial_chan [OF d del])
  moreover have "deliver_ok c' ?ss d'"
    by (rule dial_deliver [OF d pend]) (use oks in \<open>simp add: sender_ok_def\<close>)
  ultimately show ?thesis
    unfolding tcp_inv_def proj
    using dial_pending [OF d pend del] dial_signal [OF d sig] uniq by blast
qed

text \<open>The other steps touch none of what the invariant speaks of.\<close>

lemma tcp_inv_other:
  assumes inv: "tcp_inv ps s" and ss: "ts_senders s' = ts_senders s" "ts_dialer s' = ts_dialer s"
    and c: "ts_client s' = ts_client s\<lparr> tc_closed := cl, tc_runDone := rd, tc_open := op, tc_events := es \<rparr>"
    and cl: "tc_closed (ts_client s) \<Longrightarrow> cl"
  shows "tcp_inv ps s'"
proof -
  let ?c = "ts_client s" and ?c' = "ts_client s'"
  have pend: "pending_ok ?c" and oks: "sender_ok ps ?c m (ts_senders s m)"
    and sig: "signal_ok ?c (ts_dialer s)" and del: "deliver_ok ?c (ts_senders s) (ts_dialer s)"
    and uniq: "drawn (ts_senders s l) = Some i \<Longrightarrow> drawn (ts_senders s m) = Some i \<Longrightarrow> l = m" for l m i
    using inv unfolding tcp_inv_def by blast+
  have ext: "extends ?c ?c'"
    unfolding c by (simp add: extends_def)
  have "sender_ok ps ?c' m (ts_senders s m)" for m
    using oks ext
  proof (rule sender_ok_mono)
    fix i ch r
    assume "r \<in> set (tc_chan ?c' ch)"
    then have "r \<in> set (tc_chan ?c ch)"
      by (simp add: c)
    then show "r \<in> set (tc_chan ?c ch) \<or> rp_disconnect r \<or> answered ?c' i r" ..
  qed
  moreover have "pending_ok ?c'"
    using pend by (rule pending_ok_mono) (simp_all add: c)
  moreover have "signal_ok ?c' (ts_dialer s)"
    using sig cl by (auto simp: signal_ok_def c)
  moreover have "deliver_ok ?c' (ts_senders s) (ts_dialer s)"
    using del by (auto simp: deliver_ok_def c answered_def split: dialer.splits)
  ultimately show ?thesis
    unfolding tcp_inv_def ss using uniq by blast
qed

lemma closer_step_inv:
  assumes "tcp_inv ps s" "tcp_step (Closer e) s = Some s'"
  shows "tcp_inv ps s'"
proof -
  let ?c = "ts_client s"
  have "ts_senders s' = ts_senders s" "ts_dialer s' = ts_dialer s"
    using assms(2) by auto
  moreover have "\<exists>cl rd op. (tc_closed ?c \<longrightarrow> cl) \<and>
      ts_client s' = ?c\<lparr> tc_closed := cl, tc_runDone := rd, tc_open := op, tc_events := tc_events ?c \<rparr>"
  proof (cases "ts_closer s")
    case C_idle
    then have "ts_client s' = ?c\<lparr> tc_closed := True, tc_runDone := tc_runDone ?c, tc_open := tc_open ?c,
        tc_events := tc_events ?c \<rparr>"
      using assms(2) by (auto simp: Close_def)
    then show ?thesis
      by blast
  next
    case (C_marked conn)
    then have "ts_client s' = ?c\<lparr> tc_closed := tc_closed ?c, tc_runDone := True, tc_open := tc_open ?c,
        tc_events := tc_events ?c \<rparr>"
      using assms(2) by (auto simp: Close_def)
    then show ?thesis
      by blast
  next
    case (C_cancelled conn)
    then have "ts_client s' = ?c\<lparr> tc_closed := tc_closed ?c, tc_runDone := tc_runDone ?c,
        tc_open := (case conn of None \<Rightarrow> tc_open ?c | Some k \<Rightarrow> (tc_open ?c)(k := False)),
        tc_events := tc_events ?c \<rparr>"
      using assms(2) by (auto simp: Close_def split: option.splits)
    then show ?thesis
      by blast
  next
    case C_waiting
    then have "ts_client s' = ?c\<lparr> tc_closed := tc_closed ?c, tc_runDone := tc_runDone ?c, tc_open := tc_open ?c,
        tc_events := tc_events ?c \<rparr>"
      using assms(2) by (auto simp: Close_def split: if_splits)
    then show ?thesis
      by blast
  qed (use assms(2) in \<open>simp add: Close_def\<close>)
  ultimately show ?thesis
    using tcp_inv_other [OF assms(1)] by blast
qed

lemma tcp_step_inv:
  assumes "tcp_inv ps s" "tcp_step a s = Some s'"
  shows "tcp_inv ps s'"
proof (cases a)
  case (Sender n x)
  then show ?thesis
    using sender_step_inv assms by blast
next
  case (Dialer x)
  then show ?thesis
    using dialer_step_inv assms by blast
next
  case (Closer x)
  then show ?thesis
    using closer_step_inv assms by blast
next
  case Consume
  let ?c = "ts_client s"
  obtain e es where "tc_events ?c = e # es"
    using assms(2) Consume by (cases "tc_events ?c") auto
  then have "ts_client s' = ?c\<lparr> tc_closed := tc_closed ?c, tc_runDone := tc_runDone ?c, tc_open := tc_open ?c,
      tc_events := es \<rparr>" "ts_senders s' = ts_senders s" "ts_dialer s' = ts_dialer s"
    using assms(2) Consume by auto
  then show ?thesis
    using tcp_inv_other [OF assms(1)] by blast
next
  case (Cancel n)
  then show ?thesis
    using assms unfolding tcp_inv_def by auto
qed

lemma tcp_init_inv: "tcp_inv ps (Start ps (NewTCPClient install))"
  by (simp add: tcp_inv_def Start_def NewTCPClient_def pending_ok_def sender_ok_def owner_ok_def signal_ok_def
      deliver_ok_def)

lemma tcp_reach_inv: "tcp_reach install ps s \<Longrightarrow> tcp_inv ps s"
  by (induction rule: tcp_reach.induct) (auto intro: tcp_init_inv tcp_step_inv)

section \<open>Routing and the reader\<close>

text \<open>C5. In every interleaving of callers, reader, reconnects and shutdown, a \<open>Send\<close> that returned a result
  wrote its own request, and the result is the outcome of a response line that carries the id drawn for this
  call and for no other; in fire-and-forget mode the result is empty.\<close>

theorem Send_result_is_own:
  assumes "tcp_reach install ps s" "ts_senders s n = S_done p i (Inr res)"
  shows "p = ps n \<and> request_line (send_request p i) \<in> set (map snd (tc_wire (ts_client s))) \<and>
    (case i of
       None \<Rightarrow> res = SendResult_zero
     | Some x \<Rightarrow>
         (\<exists>line \<in> set (tc_received (ts_client s)). \<exists>r. classify line = Response x r \<and> send_outcome r = Inr res) \<and>
         (\<forall>m. drawn (ts_senders s m) = Some x \<longrightarrow> m = n))"
proof -
  have inv: "tcp_inv ps s"
    using assms(1) by (rule tcp_reach_inv)
  then have ok: "sender_ok ps (ts_client s) n (S_done p i (Inr res))"
    unfolding tcp_inv_def using assms(2) by metis
  then have j: "justified (ts_client s) p i res" and p: "p = ps n"
    unfolding sender_ok_def by auto
  have uniq: "\<forall>m. drawn (ts_senders s m) = Some x \<longrightarrow> m = n" if "i = Some x" for x
    using inv that assms(2) unfolding tcp_inv_def by (metis drawn.simps(1))
  show ?thesis
    using j p uniq by (auto simp: justified_def sent_on_wire_def answered_def split: option.splits)
qed

text \<open>C9. The reader never blocks when it hands a response to its caller, since a registered channel is
  empty and is registered once, and no signal channel is ever closed a second time, which would panic.\<close>

theorem tcp_reader_never_blocks:
  assumes "tcp_reach install ps s"
  shows "\<not> tc_panic (ts_client s) \<and>
    (case ts_dialer s of D_deliver k ch r \<Rightarrow> tcp_step (Dialer Go) s \<noteq> None | _ \<Rightarrow> True)"
  using tcp_reach_inv [OF assms]
  by (auto simp: tcp_inv_def signal_ok_def deliver_ok_def dial_defs split: dialer.splits)

section \<open>Shutdown\<close>

text \<open>The write lock is held by a caller that is about to write.\<close>

definition writing :: "sender \<Rightarrow> bool" where
  "writing x \<longleftrightarrow> (case x of S_write p r k \<Rightarrow> True | _ \<Rightarrow> False)"

definition lock_ok :: "tcp_system \<Rightarrow> bool" where
  "lock_ok s \<longleftrightarrow> (\<forall>n. writing (ts_senders s n) \<longleftrightarrow> tc_writeMu (ts_client s) = Some n)"

lemma dial_lock: "dialLoop a b d c = Some (b', d', c') \<Longrightarrow> tc_writeMu c' = tc_writeMu c"
  by (auto simp: dial_defs conn_up_def close_once_def failPending_def rearm_def markShutdown_def
      dispatchFrame_def Let_def
      split: dial_action.splits dialer.splits if_splits option.splits incoming.splits prod.splits)

lemma lock_step:
  assumes "lock_ok s" "tcp_step a s = Some s'"
  shows "lock_ok s'"
proof (cases a)
  case (Sender n x)
  obtain y c' where y: "send_step x n (ts_gone s n) (ts_senders s n) (ts_client s) = Some (y, c')"
    and s': "s' = s\<lparr> ts_client := c', ts_senders := (ts_senders s)(n := y) \<rparr>"
    using assms(2) Sender by auto
  have "(writing y \<longleftrightarrow> tc_writeMu c' = Some n) \<and> (\<forall>m. m \<noteq> n \<longrightarrow>
      (tc_writeMu c' = Some m \<longleftrightarrow> tc_writeMu (ts_client s) = Some m))"
    if w: "writing (ts_senders s n) \<longleftrightarrow> tc_writeMu (ts_client s) = Some n"
    using y
    by (cases rule: send_step_cases)
      (use w in \<open>auto simp: writing_def register_def Let_def conn_write_def unregister_def split: option.splits\<close>)
  then show ?thesis
    using assms(1) by (auto simp: lock_ok_def s')
next
  case (Dialer x)
  then show ?thesis
    using assms by (auto simp: lock_ok_def dest!: dial_lock)
next
  case (Closer e)
  then have "tc_writeMu (ts_client s') = tc_writeMu (ts_client s)" "ts_senders s' = ts_senders s"
    using assms(2) by (auto simp: Close_def split: closer.splits option.splits if_splits)
  then show ?thesis
    using assms(1) by (simp add: lock_ok_def)
next
  case Consume
  then show ?thesis
    using assms by (auto simp: lock_ok_def split: list.splits)
qed (use assms in \<open>auto simp: lock_ok_def\<close>)

lemma tcp_reach_lock: "tcp_reach install ps s \<Longrightarrow> lock_ok s"
proof (induction rule: tcp_reach.induct)
  case started
  show ?case
    by (simp add: lock_ok_def Start_def NewTCPClient_def writing_def)
qed (rule lock_step)

fun rank :: "sender \<Rightarrow> nat" where
  "rank (S_start p) = 7"
| "rank (S_wait p once) = 6"
| "rank (S_ready p) = 5"
| "rank (S_load p r) = 4"
| "rank (S_write p r k) = 3"
| "rank (S_waiting p i ch) = 2"
| "rank (S_return p r res) = 1"
| "rank (S_done p i res) = 0"

lemma send_step_rank: "send_step a me gone s c = Some (x, c') \<Longrightarrow> rank x < rank s"
  by (erule send_step_cases) auto

lemma fresh_id: "\<exists>i. i \<noteq> '''' \<and> i \<notin> set (used :: string list)"
proof -
  have "infinite (UNIV :: string set)"
    by (simp add: infinite_UNIV_listI)
  then obtain i where "i \<notin> insert '''' (set used)"
    using ex_new_if_finite [of "insert '''' (set used)"] by auto
  then show ?thesis
    by auto
qed

lemma send_enabled:
  assumes "tc_runDone c" "tc_closed c" "\<And>p r. s = S_load p r \<Longrightarrow> tc_writeMu c = None" "0 < rank s"
  obtains a x c' where "a \<noteq> TimerFires" "send_step a me gone s c = Some (x, c')"
proof (cases s)
  case (S_start p)
  then show ?thesis
    using that [of Enter] by (simp add: send_defs)
next
  case (S_wait p once)
  then show ?thesis
    using that [of RunDone] assms(1) by (simp add: send_defs)
next
  case (S_ready p)
  obtain i where "i \<noteq> ''''" "i \<notin> set (tc_used c)"
    using fresh_id by blast
  then show ?thesis
    using that [of "Draw i"] S_ready assms(2) by (simp add: send_defs)
next
  case (S_load p' r')
  have "\<exists>x c'. send_step Lock me gone s c = Some (x, c')"
    using S_load assms(3) by (cases "tc_conn c") (auto simp: send_defs)
  then show ?thesis
    using that [of Lock] by blast
next
  case (S_write p r k)
  then show ?thesis
    using that [of "WriteFails 0 (Opaque [])"] by (simp add: send_defs Let_def)
next
  case (S_waiting p i ch)
  then show ?thesis
    using that [of RunDone] assms(1) by (simp add: send_defs Let_def)
next
  case (S_return p r res)
  then show ?thesis
    using that [of Finish] by (simp add: send_defs)
qed (use assms in simp)


section \<open>The event buffer\<close>

definition noted :: "string \<Rightarrow> Event list" where
  "noted line = (case classify line of Notification e \<Rightarrow> [e] | _ \<Rightarrow> [])"

abbreviation notices :: "string list \<Rightarrow> Event list" where
  "notices ls \<equiv> concat (map noted ls)"

definition events_ok :: "tcp_system \<Rightarrow> bool" where
  "events_ok s \<longleftrightarrow> length (tc_events (ts_client s)) \<le> eventsCap \<and>
     subseq (ts_consumed s @ tc_events (ts_client s)) (notices (tc_received (ts_client s))) \<and>
     length (ts_consumed s @ tc_events (ts_client s)) + length (tc_dropped (ts_client s)) =
       length (notices (tc_received (ts_client s)))"

lemma send_step_events:
  "send_step a me gone s c = Some (x, c') \<Longrightarrow>
     tc_events c' = tc_events c \<and> tc_received c' = tc_received c \<and> tc_dropped c' = tc_dropped c"
  by (erule send_step_cases)
    (auto simp: register_def Let_def conn_write_def unregister_def split: option.splits)

lemma dispatch_events:
  assumes "dispatchFrame l c = (m, c')" "length (tc_events c) \<le> eventsCap"
    and "subseq (done @ tc_events c) (notices (tc_received c))"
    and "length (done @ tc_events c) + length (tc_dropped c) = length (notices (tc_received c))"
  shows "length (tc_events c') \<le> eventsCap \<and> subseq (done @ tc_events c') (notices (tc_received c')) \<and>
    length (done @ tc_events c') + length (tc_dropped c') = length (notices (tc_received c'))"
proof (cases "classify l")
  case Nothing
  then show ?thesis
    using assms by (auto simp: dispatchFrame_def Let_def noted_def)
next
  case (Response i r)
  then show ?thesis
    using assms by (auto simp: dispatchFrame_def Let_def noted_def split: option.splits)
next
  case (Notification e)
  have "subseq (done @ tc_events c @ [e]) (notices (tc_received c) @ [e])"
    using list_emb_append_mono [OF assms(3), of "[e]" "[e]"] by simp
  moreover have "subseq (done @ tc_events c) (notices (tc_received c) @ [e])"
    using list_emb_append_mono [OF assms(3), of "[]" "[e]"] by simp
  ultimately show ?thesis
    using assms Notification by (auto simp: dispatchFrame_def Let_def noted_def split: if_splits)
qed

lemma dial_events:
  assumes "dialLoop a b d c = Some (b', d', c')"
  obtains "tc_events c' = tc_events c" "tc_received c' = tc_received c" "tc_dropped c' = tc_dropped c"
  | l m where "dispatchFrame l c = (m, c')"
  using assms
  by (cases rule: dialLoop_cases)
    (auto simp: conn_up_def close_once_def failPending_def rearm_def markShutdown_def Let_def)

lemma events_step:
  assumes "events_ok s" "tcp_step a s = Some s'"
  shows "events_ok s'"
proof (cases a)
  case (Sender n x)
  then show ?thesis
    using assms by (auto simp: events_ok_def dest!: send_step_events)
next
  case (Dialer x)
  obtain b' d' c' where d: "dialLoop x (ts_backoff s) (ts_dialer s) (ts_client s) = Some (b', d', c')"
    and s': "s' = s\<lparr> ts_client := c', ts_dialer := d', ts_backoff := b' \<rparr>"
    using assms(2) Dialer by auto
  from d show ?thesis
  proof (cases rule: dial_events)
    case 1
    then show ?thesis
      using assms(1) by (simp add: events_ok_def s')
  next
    case (2 l m)
    then show ?thesis
      using dispatch_events [OF 2, of "ts_consumed s"] assms(1) by (simp add: events_ok_def s')
  qed
next
  case (Closer e)
  then have "tc_events (ts_client s') = tc_events (ts_client s)" "tc_received (ts_client s') = tc_received (ts_client s)"
      "tc_dropped (ts_client s') = tc_dropped (ts_client s)" "ts_consumed s' = ts_consumed s"
    using assms(2) by (auto simp: Close_def split: closer.splits option.splits if_splits)
  then show ?thesis
    using assms(1) by (simp add: events_ok_def)
next
  case Consume
  then show ?thesis
    using assms by (auto simp: events_ok_def split: list.splits)
qed (use assms in \<open>auto simp: events_ok_def\<close>)

lemma tcp_reach_events: "tcp_reach install ps s \<Longrightarrow> events_ok s"
proof (induction rule: tcp_reach.induct)
  case started
  show ?case
    by (simp add: events_ok_def Start_def NewTCPClient_def)
qed (rule events_step)

text \<open>The event buffer never exceeds its capacity, the consumer sees the notifications in the order in
  which the daemon sent them, and every notification is either consumed, still buffered or counted as
  dropped.\<close>

theorem events_in_order:
  assumes "tcp_reach install ps s"
  shows "length (tc_events (ts_client s)) \<le> eventsCap \<and>
    subseq (ts_consumed s @ tc_events (ts_client s)) (notices (tc_received (ts_client s))) \<and>
    length (ts_consumed s) + length (tc_events (ts_client s)) + length (tc_dropped (ts_client s)) =
      length (notices (tc_received (ts_client s)))"
  using tcp_reach_events [OF assms] by (simp add: events_ok_def)

section \<open>A waiter that outlives its connection\<close>

definition sample_tcp_params :: SendParams where
  "sample_tcp_params = \<lparr> sp_Account = ''+1'', sp_Message = ''hi'', sp_Attachments = [], sp_Recipient = [''+2''],
     sp_GroupID = [], sp_QuoteTimestamp = 0, sp_QuoteAuthor = '''' \<rparr>"

definition dial_up :: "tcp_action list" where
  "dial_up = [Dialer Go, Dialer DialOk, Dialer Go]"

definition hang_up :: "tcp_action list" where
  "hang_up = [Dialer Go, Dialer Go, Dialer Go, Dialer Go]"

text \<open>The caller passes \<open>waitConnected\<close> on the first connection, the reader sees its end and fails the pending
  calls, the caller registers and writes before the socket is closed, and the client reconnects.\<close>

definition late_waiter :: "tcp_action list" where
  "late_waiter = dial_up @
     [Sender 0 Enter, Sender 0 Dialed, Dialer ReadEnds, Dialer Go, Sender 0 (Draw ''a''), Sender 0 Lock,
      Sender 0 Written] @ hang_up @ dial_up"

lemmas tcp_eval = dial_defs send_defs conn_up_def close_once_def waitConnected_def register_def rearm_def
  failPending_def conn_write_def Let_def

text \<open>C38. The comment on \<open>failPending\<close> has every pending call released when its connection dies. A call that
  registers between \<open>failPending\<close> and the close of the socket is not: the client reconnects, the call is
  still pending on the new connection, its channel empty, while its request was only ever written to the
  closed one, and nothing but its timeout, its context or shutdown will end it.\<close>

theorem late_waiter_survives_reconnect:
  assumes "\<not> tcp_IgnoreResults (scc_TCP (inst_SignalCli install))"
  shows "\<exists>s old new ch. tcp_reach install ps s \<and> ts_senders s 0 = S_waiting (ps 0) ''a'' ch \<and>
    ts_dialer s = D_read new \<and> tc_conn (ts_client s) = Some new \<and> tc_pending (ts_client s) = [(''a'', ch)] \<and>
    tc_chan (ts_client s) ch = [] \<and> \<not> tc_open (ts_client s) old \<and>
    tc_wire (ts_client s) = [(old, request_line (send_request (ps 0) (Some ''a'')))]"
proof -
  have "\<exists>s. tcp_run late_waiter (Start ps (NewTCPClient install)) = Some s \<and>
    ts_senders s 0 = S_waiting (ps 0) ''a'' 2 \<and>
    ts_dialer s = D_read 4 \<and> tc_conn (ts_client s) = Some 4 \<and> tc_pending (ts_client s) = [(''a'', 2)] \<and>
    tc_chan (ts_client s) 2 = [] \<and> \<not> tc_open (ts_client s) 1 \<and>
    tc_wire (ts_client s) = [(1, request_line (send_request (ps 0) (Some ''a'')))]"
    using assms
    by (simp add: late_waiter_def dial_up_def hang_up_def Start_def NewTCPClient_def tcp_eval without_def)
  then show ?thesis
    using tcp_run_reach [OF _ tcp_reach.started] by blast
qed

theorem late_waiter_survives_reconnect_witness:
  "\<exists>s old new ch. tcp_reach sample_install (\<lambda>_. sample_tcp_params) s \<and>
    ts_senders s 0 = S_waiting sample_tcp_params ''a'' ch \<and>
    ts_dialer s = D_read new \<and> tc_conn (ts_client s) = Some new \<and> tc_pending (ts_client s) = [(''a'', ch)] \<and>
    tc_chan (ts_client s) ch = [] \<and> \<not> tc_open (ts_client s) old \<and>
    tc_wire (ts_client s) = [(old, request_line (send_request sample_tcp_params (Some ''a'')))]"
  by (rule late_waiter_survives_reconnect) (simp add: sample_install_def)

section \<open>Sample runs\<close>

definition sample_reply :: string where
  "sample_reply = reply_line ''a'' (JObj [(''timestamp'', JInt 7)])"

lemma sample_reply_class:
  "classify sample_reply = Response ''a''
     \<lparr> rp_result = Some (JObj [(''timestamp'', JInt 7)]), rp_err = None, rp_disconnect = False \<rparr>"
  unfolding sample_reply_def
  by (rule classify_reply) (simp_all add: utf8_valid_ascii maxNestingDepth_def JInt_def [of 7, symmetric],
      simp add: JInt_def json_depth.simps)

definition call :: "tcp_action list" where
  "call = dial_up @ [Sender 0 Enter, Sender 0 Dialed, Sender 0 (Draw ''a''), Sender 0 Lock, Sender 0 Written,
     Dialer (Line sample_reply)]"

abbreviation sample_start :: tcp_system where
  "sample_start \<equiv> Start (\<lambda>_. sample_tcp_params) (NewTCPClient sample_install)"

lemma sample_call:
  obtains s s' where "tcp_reach sample_install (\<lambda>_. sample_tcp_params) s"
    "ts_dialer s = D_deliver 1 2 \<lparr> rp_result = Some (JObj [(''timestamp'', JInt 7)]), rp_err = None,
       rp_disconnect = False \<rparr>"
    "tcp_reach sample_install (\<lambda>_. sample_tcp_params) s'"
    "ts_senders s' 0 = S_done sample_tcp_params (Some ''a'')
       (Inr \<lparr> sr_Timestamp = 7, sr_Raw = Some (JObj [(''timestamp'', JInt 7)]) \<rparr>)"
proof -
  have o: "send_outcome \<lparr> rp_result = Some (JObj [(''timestamp'', JInt 7)]), rp_err = None, rp_disconnect = False \<rparr> =
      Inr \<lparr> sr_Timestamp = 7, sr_Raw = Some (JObj [(''timestamp'', JInt 7)]) \<rparr>"
    by (rule send_outcome_reply) (simp add: in_int64_def)
  have i: "\<not> tcp_IgnoreResults (scc_TCP (inst_SignalCli sample_install))"
    by (simp add: sample_install_def)
  have "\<exists>s. tcp_run call sample_start = Some s \<and> ts_dialer s = D_deliver 1 2
      \<lparr> rp_result = Some (JObj [(''timestamp'', JInt 7)]), rp_err = None, rp_disconnect = False \<rparr>"
    using i by (simp add: call_def dial_up_def Start_def NewTCPClient_def tcp_eval dispatchFrame_def
        sample_reply_class)
  moreover have "\<exists>s. tcp_run (call @ [Dialer Go, Sender 0 Receive, Sender 0 Finish]) sample_start = Some s \<and>
      ts_senders s 0 = S_done sample_tcp_params (Some ''a'')
        (Inr \<lparr> sr_Timestamp = 7, sr_Raw = Some (JObj [(''timestamp'', JInt 7)]) \<rparr>)"
    using i by (simp add: call_def dial_up_def Start_def NewTCPClient_def tcp_eval dispatchFrame_def
        sample_reply_class o)
  ultimately obtain s s' where "tcp_run call sample_start = Some s" "ts_dialer s = D_deliver 1 2
      \<lparr> rp_result = Some (JObj [(''timestamp'', JInt 7)]), rp_err = None, rp_disconnect = False \<rparr>"
    "tcp_run (call @ [Dialer Go, Sender 0 Receive, Sender 0 Finish]) sample_start = Some s'"
    "ts_senders s' 0 = S_done sample_tcp_params (Some ''a'')
        (Inr \<lparr> sr_Timestamp = 7, sr_Raw = Some (JObj [(''timestamp'', JInt 7)]) \<rparr>)"
    by blast
  then show ?thesis
    by (intro that [of s s']) (assumption | rule tcp_run_reach [OF _ tcp_reach.started])+
qed

theorem Send_result_is_own_witness:
  "\<exists>s :: tcp_system. ts_senders s 0 = S_done sample_tcp_params (Some ''a'')
       (Inr \<lparr> sr_Timestamp = 7, sr_Raw = Some (JObj [(''timestamp'', JInt 7)]) \<rparr>) \<and>
     request_line (send_request sample_tcp_params (Some ''a'')) \<in> set (map snd (tc_wire (ts_client s)))"
proof -
  obtain s where s: "tcp_reach sample_install (\<lambda>_. sample_tcp_params) s"
    "ts_senders s 0 = S_done sample_tcp_params (Some ''a'')
       (Inr \<lparr> sr_Timestamp = 7, sr_Raw = Some (JObj [(''timestamp'', JInt 7)]) \<rparr>)"
    using sample_call .
  show ?thesis
    using Send_result_is_own [OF s] s(2) by (intro exI [of _ s]) simp
qed

theorem tcp_reader_never_blocks_witness:
  "\<exists>s k ch r. ts_dialer s = D_deliver k ch r \<and> tcp_step (Dialer Go) s \<noteq> None"
proof -
  obtain s where s: "tcp_reach sample_install (\<lambda>_. sample_tcp_params) s"
    "ts_dialer s = D_deliver 1 2 \<lparr> rp_result = Some (JObj [(''timestamp'', JInt 7)]), rp_err = None,
       rp_disconnect = False \<rparr>"
    using sample_call .
  have "tcp_step (Dialer Go) s \<noteq> None"
    using tcp_reader_never_blocks [OF s(1)] s(2) by (simp del: tcp_step.simps)
  with s(2) show ?thesis
    by blast
qed


theorem events_in_order_witness:
  "length (tc_events (ts_client sample_start)) \<le> eventsCap \<and>
    subseq (ts_consumed sample_start @ tc_events (ts_client sample_start)) (notices (tc_received (ts_client sample_start))) \<and>
    length (ts_consumed sample_start) + length (tc_events (ts_client sample_start)) +
      length (tc_dropped (ts_client sample_start)) = length (notices (tc_received (ts_client sample_start)))"
  using events_in_order [OF tcp_reach.started] .

end
