(* ===== verification/Inbound.thy ===== *)
theory Inbound
  imports Repo TcpSafety
begin

text \<open>
  Inbound listening: the table \<open>signalium.inbound_signal_messages\<close> with its one statement
  (\<open>internal/repo/sqlc/inbound_signal_messages.sql.go\<close>), its repository (\<open>internal/repo/inbound.go\<close>) and the
  listener of \<open>internal/service/inbound_listener.go\<close>, which decodes the envelopes of the client's
  notifications and stores the ones the configuration keeps. A JSON column holds a document.

  The lemmas show that the table only grows by rows of captured envelopes, one for each pair of source and
  timestamp, and that with an answering database it ends up with exactly the first delivery of each.
\<close>

section \<open>The table\<close>

record inbound_row =
  ib_id :: uuid
  ib_source :: string
  ib_source_uuid :: "string option"
  ib_source_timestamp :: int
  ib_group_id :: "string option"
  ib_content :: "string option"
  ib_attachments :: json
  ib_raw :: json
  ib_received_at :: gotime
  ib_deleted_at :: "gotime option"

type_synonym inbound_table = "inbound_row list"

record InsertInboundParams =
  ip_Source :: string
  ip_SourceUUID :: "string option"
  ip_SourceTimestamp :: int
  ip_GroupID :: "string option"
  ip_Content :: "string option"
  ip_Attachments :: json
  ip_Raw :: json

text \<open>Neither a \<open>TEXT\<close> nor a \<open>JSONB\<close> value can hold the zero character.\<close>

definition no_nul :: "string \<Rightarrow> bool" where
  "no_nul s \<longleftrightarrow> CHR 0x00 \<notin> set s"

fun jsonb_ok :: "json \<Rightarrow> bool" where
  "jsonb_ok (JStr s) = no_nul s"
| "jsonb_ok (JArr js) = list_all jsonb_ok js"
| "jsonb_ok (JObj ms) = list_all (\<lambda>(k, v). no_nul k \<and> jsonb_ok v) ms"
| "jsonb_ok _ = True"

definition inbound_storable :: "InsertInboundParams \<Rightarrow> bool" where
  "inbound_storable p \<longleftrightarrow> no_nul (ip_Source p) \<and> pred_option no_nul (ip_SourceUUID p) \<and>
     pred_option no_nul (ip_GroupID p) \<and> pred_option no_nul (ip_Content p) \<and>
     jsonb_ok (ip_Attachments p) \<and> jsonb_ok (ip_Raw p)"

definition inbound_row_of :: "uuid \<Rightarrow> gotime \<Rightarrow> InsertInboundParams \<Rightarrow> inbound_row" where
  "inbound_row_of i now p = \<lparr> ib_id = i, ib_source = ip_Source p, ib_source_uuid = ip_SourceUUID p,
     ib_source_timestamp = ip_SourceTimestamp p, ib_group_id = ip_GroupID p, ib_content = ip_Content p,
     ib_attachments = ip_Attachments p, ib_raw = ip_Raw p, ib_received_at = now, ib_deleted_at = None \<rparr>"

definition inbound_key :: "inbound_row \<Rightarrow> string \<times> int" where
  "inbound_key r = (ib_source r, ib_source_timestamp r)"

definition param_key :: "InsertInboundParams \<Rightarrow> string \<times> int" where
  "param_key p = (ip_Source p, ip_SourceTimestamp p)"

definition Queries_InsertInbound ::
  "uuid \<Rightarrow> gotime \<Rightarrow> InsertInboundParams \<Rightarrow> inbound_table \<Rightarrow> (goerr + int) \<times> inbound_table" where
  "Queries_InsertInbound gid now p t =
     (if \<not> inbound_storable p then (Inl (sql_error ''invalid byte sequence''), t)
      else if param_key p \<in> set (map inbound_key t) then (Inr 0, t)
      else if gid \<in> set (map ib_id t) then (Inl (sql_error ''inbound_signal_messages_pkey''), t)
      else (Inr 1, t @ [inbound_row_of gid now p]))"

section \<open>The repository\<close>

definition Inbound_Insert ::
  "db_answer \<Rightarrow> uuid \<Rightarrow> gotime \<Rightarrow> InsertInboundParams \<Rightarrow> inbound_table \<Rightarrow> (goerr + bool) \<times> inbound_table" where
  "Inbound_Insert d gid now p t =
     (let (x, t') = db_call d (Queries_InsertInbound gid now p) t in
      (case x of
         Inl e \<Rightarrow> Inl (Wrapped ''insert inbound message'' e)
       | Inr n \<Rightarrow> Inr (n > 0), t'))"

section \<open>Envelopes\<close>

record envGroupInfo =
  eg_GroupID :: string

record envAttachment =
  ea_ID :: string
  ea_ContentType :: string
  ea_Size :: int
  ea_Filename :: string

record envData =
  ed_Message :: "string option"
  ed_Attachments :: "envAttachment list"
  ed_GroupInfo :: "envGroupInfo option"

record envEdit =
  ee_DataMessage :: "envData option"

record envSyncSent =
  es_Message :: "string option"
  es_Attachments :: "envAttachment list"
  es_GroupInfo :: "envGroupInfo option"

record envSync =
  ey_SentMessage :: "envSyncSent option"

type_synonym envReceipt = unit
type_synonym envTyping = unit
type_synonym envCall = unit

record inboundEnvelope =
  en_Source :: string
  en_SourceUUID :: "string option"
  en_Timestamp :: int
  en_Data :: "envData option"
  en_Edit :: "envEdit option"
  en_Receipt :: "envReceipt option"
  en_Sync :: "envSync option"
  en_Typing :: "envTyping option"
  en_Call :: "envCall option"

definition dec_group :: "envGroupInfo option dec" where
  "dec_group = dec_ptr \<lparr> eg_GroupID = '''' \<rparr>
     (decode_struct [field_of ''groupId'' eg_GroupID eg_GroupID_update dec_string])"

definition dec_attachments :: "envAttachment list dec" where
  "dec_attachments = dec_slice \<lparr> ea_ID = '''', ea_ContentType = '''', ea_Size = 0, ea_Filename = '''' \<rparr>
     (decode_struct
        [field_of ''id'' ea_ID ea_ID_update dec_string,
         field_of ''contentType'' ea_ContentType ea_ContentType_update dec_string,
         field_of ''size'' ea_Size ea_Size_update dec_int,
         field_of ''filename'' ea_Filename ea_Filename_update dec_string])"

definition dec_data :: "envData option dec" where
  "dec_data = dec_ptr \<lparr> ed_Message = None, ed_Attachments = [], ed_GroupInfo = None \<rparr>
     (decode_struct
        [field_of ''message'' ed_Message ed_Message_update (dec_ptr '''' dec_string),
         field_of ''attachments'' ed_Attachments ed_Attachments_update dec_attachments,
         field_of ''groupInfo'' ed_GroupInfo ed_GroupInfo_update dec_group])"

definition dec_edit :: "envEdit option dec" where
  "dec_edit = dec_ptr \<lparr> ee_DataMessage = None \<rparr>
     (decode_struct [field_of ''dataMessage'' ee_DataMessage ee_DataMessage_update dec_data])"

definition dec_sync_sent :: "envSyncSent option dec" where
  "dec_sync_sent = dec_ptr \<lparr> es_Message = None, es_Attachments = [], es_GroupInfo = None \<rparr>
     (decode_struct
        [field_of ''message'' es_Message es_Message_update (dec_ptr '''' dec_string),
         field_of ''attachments'' es_Attachments es_Attachments_update dec_attachments,
         field_of ''groupInfo'' es_GroupInfo es_GroupInfo_update dec_group])"

definition dec_sync :: "envSync option dec" where
  "dec_sync = dec_ptr \<lparr> ey_SentMessage = None \<rparr>
     (decode_struct [field_of ''sentMessage'' ey_SentMessage ey_SentMessage_update dec_sync_sent])"

definition dec_marker :: "unit option dec" where
  "dec_marker = dec_ptr () (decode_struct [])"

definition inboundEnvelope_zero :: inboundEnvelope where
  "inboundEnvelope_zero = \<lparr> en_Source = '''', en_SourceUUID = None, en_Timestamp = 0, en_Data = None,
     en_Edit = None, en_Receipt = None, en_Sync = None, en_Typing = None, en_Call = None \<rparr>"

definition inboundEnvelope_fields :: "inboundEnvelope field list" where
  "inboundEnvelope_fields =
     [field_of ''source'' en_Source en_Source_update dec_string,
      field_of ''sourceUuid'' en_SourceUUID en_SourceUUID_update (dec_ptr '''' dec_string),
      field_of ''timestamp'' en_Timestamp en_Timestamp_update dec_int,
      field_of ''dataMessage'' en_Data en_Data_update dec_data,
      field_of ''editMessage'' en_Edit en_Edit_update dec_edit,
      field_of ''receiptMessage'' en_Receipt en_Receipt_update dec_marker,
      field_of ''syncMessage'' en_Sync en_Sync_update dec_sync,
      field_of ''typingMessage'' en_Typing en_Typing_update dec_marker,
      field_of ''callMessage'' en_Call en_Call_update dec_marker]"

record envelopeWrapper =
  ew_Envelope :: "json option"

text \<open>Decoding a \<open>json.RawMessage\<close>: no bytes at all are a syntax error.\<close>

definition unmarshal_raw :: "'a dec \<Rightarrow> json option \<Rightarrow> 'a \<Rightarrow> 'a option" where
  "unmarshal_raw d raw zero = (case raw of
     None \<Rightarrow> None
   | Some j \<Rightarrow> let (ok, v) = d j zero in if ok then Some v else None)"

definition parseEnvelope :: "json option \<Rightarrow> (inboundEnvelope \<times> json) option" where
  "parseEnvelope params =
     (case unmarshal_raw (decode_struct [field_of ''envelope'' ew_Envelope ew_Envelope_update dec_raw])
             params \<lparr> ew_Envelope = None \<rparr> of
        None \<Rightarrow> None
      | Some wrap \<Rightarrow>
          (case ew_Envelope wrap of
             None \<Rightarrow> None
           | Some raw \<Rightarrow>
               map_option (\<lambda>env. (env, raw))
                 (unmarshal_raw (decode_struct inboundEnvelope_fields) (Some raw) inboundEnvelope_zero)))"

definition edit_data :: "inboundEnvelope \<Rightarrow> envData option" where
  "edit_data env = Option.bind (en_Edit env) ee_DataMessage"

definition sync_sent :: "inboundEnvelope \<Rightarrow> envSyncSent option" where
  "sync_sent env = Option.bind (en_Sync env) ey_SentMessage"

definition group_text :: "envGroupInfo option \<Rightarrow> string option" where
  "group_text g = (case g of None \<Rightarrow> None | Some gi \<Rightarrow> if eg_GroupID gi = '''' then None else Some (eg_GroupID gi))"

definition set_text :: "string option \<Rightarrow> string option" where
  "set_text m = (case m of None \<Rightarrow> None | Some s \<Rightarrow> if s = '''' then None else Some s)"

text \<open>The first alternative that has a value.\<close>

definition first_of :: "'a option list \<Rightarrow> 'a option" where
  "first_of xs = (case dropWhile (\<lambda>x. x = None) xs of [] \<Rightarrow> None | x # _ \<Rightarrow> x)"

definition groupIDOf :: "inboundEnvelope \<Rightarrow> string option" where
  "groupIDOf env = first_of
     [Option.bind (en_Data env) (group_text \<circ> ed_GroupInfo),
      Option.bind (edit_data env) (group_text \<circ> ed_GroupInfo),
      Option.bind (sync_sent env) (group_text \<circ> es_GroupInfo)]"

definition contentOf :: "inboundEnvelope \<Rightarrow> string option" where
  "contentOf env = first_of
     [Option.bind (en_Data env) (set_text \<circ> ed_Message),
      Option.bind (edit_data env) (set_text \<circ> ed_Message),
      Option.bind (sync_sent env) (set_text \<circ> es_Message)]"

definition attachmentsOf :: "inboundEnvelope \<Rightarrow> envAttachment list" where
  "attachmentsOf env =
     (let data = (case en_Data env of None \<Rightarrow> [] | Some d \<Rightarrow> ed_Attachments d);
          edit = (case edit_data env of None \<Rightarrow> [] | Some d \<Rightarrow> ed_Attachments d);
          sync = (case sync_sent env of None \<Rightarrow> [] | Some d \<Rightarrow> es_Attachments d) in
      if data \<noteq> [] then data else if edit \<noteq> [] then edit else sync)"

definition envAttachment_json :: "envAttachment \<Rightarrow> json" where
  "envAttachment_json a = JObj
     ([(''id'', JStr (ea_ID a)), (''contentType'', JStr (ea_ContentType a))] @
      (if ea_Size a = 0 then [] else [(''size'', JInt (ea_Size a))]) @
      (if ea_Filename a = '''' then [] else [(''filename'', JStr (ea_Filename a))]))"

section \<open>The listener\<close>

record 's InboundWriter =
  iw_Insert :: "InsertInboundParams \<Rightarrow> 's \<Rightarrow> (goerr + bool) \<times> 's"

record 's InboundListener =
  il_writer :: "'s InboundWriter"
  il_enabled :: bool
  il_ignore :: InboundIgnoreConfig
  il_cancel :: bool
  il_wg :: nat

definition NewInboundListener :: "'s InboundWriter \<Rightarrow> Install \<Rightarrow> RuntimeConfig \<Rightarrow> 's InboundListener" where
  "NewInboundListener writer install runtime =
     \<lparr> il_writer = writer, il_enabled = scc_EnableListening (inst_SignalCli install),
       il_ignore = inb_Ignore (rtc_Inbound runtime), il_cancel = False, il_wg = 0 \<rparr>"

definition InboundListener_Start :: "'s InboundListener \<Rightarrow> 's InboundListener" where
  "InboundListener_Start l = (if \<not> il_enabled l then l else l\<lparr> il_cancel := True, il_wg := Suc (il_wg l) \<rparr>)"

text \<open>Whether the goroutine ends before the deadline of the stop context is the answer \<open>drained\<close>.\<close>

definition InboundListener_Stop :: "bool \<Rightarrow> goerr \<Rightarrow> 's InboundListener \<Rightarrow> goerr option \<times> 's InboundListener" where
  "InboundListener_Stop drained ctxErr l =
     (if \<not> il_enabled l then (None, l)
      else if drained then (None, l\<lparr> il_wg := 0 \<rparr>)
      else (Some (Wrapped ''inbound listener stop: drain timeout'' ctxErr), l))"

definition filtered :: "InboundIgnoreConfig \<Rightarrow> inboundEnvelope \<Rightarrow> bool" where
  "filtered ig env \<longleftrightarrow>
     ig_Typing ig \<and> en_Typing env \<noteq> None \<or> ig_Receipt ig \<and> en_Receipt env \<noteq> None \<or>
     ig_SyncMessage ig \<and> en_Sync env \<noteq> None \<or> ig_CallMessage ig \<and> en_Call env \<noteq> None"

text \<open>The envelope of an event the listener stores, as the parameters of the insert.\<close>

definition captured :: "InboundIgnoreConfig \<Rightarrow> Event \<Rightarrow> InsertInboundParams option" where
  "captured ig ev =
     (if ev_Method ev \<noteq> ''receive'' then None
      else case parseEnvelope (ev_Params ev) of
        None \<Rightarrow> None
      | Some (env, raw) \<Rightarrow>
          if filtered ig env then None
          else if en_Source env = '''' \<or> en_Timestamp env = 0 then None
          else Some \<lparr> ip_Source = en_Source env, ip_SourceUUID = en_SourceUUID env,
                 ip_SourceTimestamp = en_Timestamp env, ip_GroupID = groupIDOf env, ip_Content = contentOf env,
                 ip_Attachments = JArr (map envAttachment_json (attachmentsOf env)), ip_Raw = raw \<rparr>)"

definition listener_handle :: "'s InboundListener \<Rightarrow> Event \<Rightarrow> 's \<Rightarrow> 's" where
  "listener_handle l ev s =
     (case captured (il_ignore l) ev of
        None \<Rightarrow> s
      | Some p \<Rightarrow> snd (iw_Insert (il_writer l) p s))"

text \<open>The arms the loop's \<open>select\<close> takes: the context has ended, an event, the closed channel. The flag
  tells that the loop returned.\<close>

datatype listen_arm = L_done | L_event Event | L_closed

fun listener_run :: "'s InboundListener \<Rightarrow> listen_arm list \<Rightarrow> 's \<Rightarrow> bool \<times> 's" where
  "listener_run l [] s = (False, s)"
| "listener_run l (L_done # arms) s = (True, s)"
| "listener_run l (L_closed # arms) s = (True, s)"
| "listener_run l (L_event ev # arms) s = listener_run l arms (listener_handle l ev s)"

section \<open>What the writer promises\<close>

locale inbound_port =
  fixes w :: "'s InboundWriter" and rows :: "'s \<Rightarrow> inbound_table"
  assumes insert_rows: "iw_Insert w p s = (x, s') \<Longrightarrow> rows s' = rows s \<or>
      param_key p \<notin> set (map inbound_key (rows s)) \<and> (\<exists>i n. rows s' = rows s @ [inbound_row_of i n p])"
    and insert_new: "iw_Insert w p s = (Inr True, s') \<Longrightarrow> rows s' \<noteq> rows s"
    and insert_old: "iw_Insert w p s = (Inr False, s') \<Longrightarrow>
      rows s' = rows s \<and> param_key p \<in> set (map inbound_key (rows s))"
begin

definition from_event :: "InboundIgnoreConfig \<Rightarrow> Event list \<Rightarrow> inbound_row \<Rightarrow> bool" where
  "from_event ig evs r \<longleftrightarrow> (\<exists>ev \<in> set evs. \<exists>p i n. captured ig ev = Some p \<and> r = inbound_row_of i n p)"

lemma handle_rows:
  assumes "il_writer l = w" "distinct (map inbound_key (rows s))"
  shows "\<exists>new. rows (listener_handle l ev s) = rows s @ new \<and>
    distinct (map inbound_key (rows s @ new)) \<and> (\<forall>r \<in> set new. from_event (il_ignore l) [ev] r)"
proof (cases "captured (il_ignore l) ev")
  case None
  then show ?thesis
    using assms(2) by (intro exI [of _ "[]"]) (simp add: listener_handle_def)
next
  case (Some p)
  obtain x s' where x: "iw_Insert w p s = (x, s')"
    by (meson surj_pair)
  have s': "listener_handle l ev s = s'"
    using assms(1) x by (simp add: listener_handle_def Some)
  have key: "inbound_key (inbound_row_of i n p) = param_key p" for i n
    by (simp add: inbound_key_def inbound_row_of_def param_key_def)
  from insert_rows [OF x] show ?thesis
  proof
    assume "rows s' = rows s"
    then show ?thesis
      using assms(2) s' by (intro exI [of _ "[]"]) simp
  next
    assume "param_key p \<notin> set (map inbound_key (rows s)) \<and> (\<exists>i n. rows s' = rows s @ [inbound_row_of i n p])"
    then obtain i n where "param_key p \<notin> set (map inbound_key (rows s))" "rows s' = rows s @ [inbound_row_of i n p]"
      by blast
    then show ?thesis
      using assms(2) s' Some
      by (intro exI [of _ "[inbound_row_of i n p]"]) (auto simp: key from_event_def)
  qed
qed

lemma run_rows:
  assumes "il_writer l = w" "distinct (map inbound_key (rows s))" "listener_run l arms s = (b, s')"
  shows "\<exists>new. rows s' = rows s @ new \<and> distinct (map inbound_key (rows s')) \<and>
    (\<forall>r \<in> set new. \<exists>ev. L_event ev \<in> set arms \<and> from_event (il_ignore l) [ev] r)"
  using assms(2,3)
proof (induction arms arbitrary: s)
  case (Cons arm arms)
  show ?case
  proof (cases arm)
    case (L_event ev)
    obtain new where new: "rows (listener_handle l ev s) = rows s @ new"
        "distinct (map inbound_key (rows s @ new))" "\<forall>r \<in> set new. from_event (il_ignore l) [ev] r"
      using handle_rows [OF assms(1) Cons.prems(1), of ev] by blast
    have "distinct (map inbound_key (rows (listener_handle l ev s)))"
      unfolding new(1) by (rule new(2))
    moreover have "listener_run l arms (listener_handle l ev s) = (b, s')"
      using Cons.prems(2) by (simp add: L_event)
    ultimately obtain more where more: "rows s' = rows (listener_handle l ev s) @ more"
        "distinct (map inbound_key (rows s'))"
        "\<forall>r \<in> set more. \<exists>ev. L_event ev \<in> set arms \<and> from_event (il_ignore l) [ev] r"
      using Cons.IH by blast
    have "\<forall>r \<in> set (new @ more). \<exists>ev. L_event ev \<in> set (arm # arms) \<and> from_event (il_ignore l) [ev] r"
      using new(3) more(3) by (auto simp: L_event)
    then show ?thesis
      using more(1,2) new(1) by (intro exI [of _ "new @ more"]) simp
  qed (use Cons.prems in auto)
qed simp

end

section \<open>The writer of the program\<close>

text \<open>The table with the driver's coming answers, the ids \<open>gen_random_uuid()\<close> draws and the instants of the
  statements.\<close>

record inbound_db =
  ibd_tbl :: inbound_table
  ibd_answers :: "db_answer list"
  ibd_ids :: "uuid list"
  ibd_nows :: "gotime list"

definition inbound_writer :: "inbound_db InboundWriter" where
  "inbound_writer = \<lparr> iw_Insert = \<lambda>p s.
     (let (x, t') = Inbound_Insert (next_of Done (ibd_answers s)) (next_of 0 (ibd_ids s)) (next_of 0 (ibd_nows s)) p
                      (ibd_tbl s) in
      (x, s\<lparr> ibd_tbl := t', ibd_answers := tl (ibd_answers s), ibd_ids := tl (ibd_ids s),
             ibd_nows := tl (ibd_nows s) \<rparr>)) \<rparr>"

lemma Inbound_Insert_cases:
  assumes "Inbound_Insert d i n p t = (x, t')"
  shows "t' = t \<and> x \<noteq> Inr True \<and> (x = Inr False \<longrightarrow> param_key p \<in> set (map inbound_key t)) \<or>
    t' = t @ [inbound_row_of i n p] \<and> x \<noteq> Inr False \<and> param_key p \<notin> set (map inbound_key t)"
proof (cases d)
  case Done
  then show ?thesis
    using assms
    by (auto simp: Inbound_Insert_def Queries_InsertInbound_def split: if_splits)
next
  case (Failed_before e)
  then show ?thesis
    using assms by (auto simp: Inbound_Insert_def)
next
  case (Failed_after e)
  then show ?thesis
    using assms by (auto simp: Inbound_Insert_def Queries_InsertInbound_def split: if_splits)
qed

interpretation ib: inbound_port inbound_writer ibd_tbl
proof
  fix p s x s'
  assume "iw_Insert inbound_writer p s = (x, s')"
  then show "ibd_tbl s' = ibd_tbl s \<or> param_key p \<notin> set (map inbound_key (ibd_tbl s)) \<and>
      (\<exists>i n. ibd_tbl s' = ibd_tbl s @ [inbound_row_of i n p])"
    using Inbound_Insert_cases by (fastforce simp: inbound_writer_def split: prod.splits)
next
  fix p s s'
  assume "iw_Insert inbound_writer p s = (Inr True, s')"
  then show "ibd_tbl s' \<noteq> ibd_tbl s"
    using Inbound_Insert_cases by (fastforce simp: inbound_writer_def split: prod.splits)
next
  fix p s s'
  assume "iw_Insert inbound_writer p s = (Inr False, s')"
  then show "ibd_tbl s' = ibd_tbl s \<and> param_key p \<in> set (map inbound_key (ibd_tbl s))"
    using Inbound_Insert_cases by (fastforce simp: inbound_writer_def split: prod.splits)
qed

section \<open>Properties\<close>

text \<open>C19. The listener stores only what the daemon sent: whatever the database answers and however the
  client's goroutines interleave, every row it adds for the events it took from the client is the captured
  envelope of a notification line read from the socket, earlier rows are untouched, and no two rows share
  source and timestamp.\<close>

theorem inbound_rows_from_daemon:
  assumes "tcp_reach install ps s" "il_writer l = inbound_writer" "distinct (map inbound_key (ibd_tbl db))"
    and "listener_run l (map L_event (ts_consumed s)) db = (b, db')"
  shows "\<exists>new. ibd_tbl db' = ibd_tbl db @ new \<and> distinct (map inbound_key (ibd_tbl db')) \<and>
    (\<forall>r \<in> set new. \<exists>line \<in> set (tc_received (ts_client s)). \<exists>ev p i n.
       classify line = Notification ev \<and> captured (il_ignore l) ev = Some p \<and> r = inbound_row_of i n p)"
proof -
  obtain new where new: "ibd_tbl db' = ibd_tbl db @ new" "distinct (map inbound_key (ibd_tbl db'))"
      "\<forall>r \<in> set new. \<exists>ev. L_event ev \<in> set (map L_event (ts_consumed s)) \<and> ib.from_event (il_ignore l) [ev] r"
    using ib.run_rows [OF assms(2-4)] by blast
  have "subseq (ts_consumed s @ tc_events (ts_client s)) (notices (tc_received (ts_client s)))"
    using tcp_reach_events [OF assms(1)] by (simp add: events_ok_def)
  then have sub: "set (ts_consumed s) \<subseteq> set (notices (tc_received (ts_client s)))"
    by (auto dest: list_emb_set)
  have "\<exists>line \<in> set (tc_received (ts_client s)). \<exists>ev p i n.
      classify line = Notification ev \<and> captured (il_ignore l) ev = Some p \<and> r = inbound_row_of i n p"
    if r: "r \<in> set new" for r
  proof -
    obtain ev p i n where ev: "ev \<in> set (ts_consumed s)" "captured (il_ignore l) ev = Some p"
        "r = inbound_row_of i n p"
      using new(3) r by (auto simp: ib.from_event_def)
    obtain line where "line \<in> set (tc_received (ts_client s))" "classify line = Notification ev"
      using sub ev(1) by (auto simp: noted_def split: incoming.splits)
    with ev show ?thesis
      by blast
  qed
  with new show ?thesis
    by blast
qed

text \<open>What the table should hold: of the captured envelopes the first of each key, unless the table already
  has the key or the database cannot hold the value.\<close>

fun first_deliveries :: "(string \<times> int) list \<Rightarrow> InsertInboundParams list \<Rightarrow> InsertInboundParams list" where
  "first_deliveries ks [] = []"
| "first_deliveries ks (p # ps) =
     (if param_key p \<in> set ks \<or> \<not> inbound_storable p then first_deliveries ks ps
      else p # first_deliveries (ks @ [param_key p]) ps)"

definition envelope_of :: "inbound_row \<Rightarrow> InsertInboundParams" where
  "envelope_of r = \<lparr> ip_Source = ib_source r, ip_SourceUUID = ib_source_uuid r,
     ip_SourceTimestamp = ib_source_timestamp r, ip_GroupID = ib_group_id r, ip_Content = ib_content r,
     ip_Attachments = ib_attachments r, ip_Raw = ib_raw r \<rparr>"

definition captures :: "InboundIgnoreConfig \<Rightarrow> Event list \<Rightarrow> InsertInboundParams list" where
  "captures ig evs = List.map_filter (captured ig) evs"

lemma envelope_of_row [simp]: "envelope_of (inbound_row_of i n p) = p"
  by (simp add: envelope_of_def inbound_row_of_def)

lemma inbound_key_row [simp]: "inbound_key (inbound_row_of i n p) = param_key p"
  by (simp add: inbound_key_def inbound_row_of_def param_key_def)

lemma insert_done:
  assumes "list_all (\<lambda>d. d = Done) (ibd_answers db)" "ibd_ids db = i # is" "i \<notin> set (map ib_id (ibd_tbl db))"
  shows "\<exists>n. ibd_tbl (snd (iw_Insert inbound_writer p db)) =
      (if inbound_storable p \<and> param_key p \<notin> set (map inbound_key (ibd_tbl db))
       then ibd_tbl db @ [inbound_row_of i n p] else ibd_tbl db)"
    and "list_all (\<lambda>d. d = Done) (ibd_answers (snd (iw_Insert inbound_writer p db)))"
    and "ibd_ids (snd (iw_Insert inbound_writer p db)) = is"
proof -
  have d: "next_of Done (ibd_answers db) = Done" "list_all (\<lambda>d. d = Done) (tl (ibd_answers db))"
    using assms(1) by (cases "ibd_answers db"; simp add: next_of_def)+
  have i: "next_of 0 (ibd_ids db) = i"
    using assms(2) by (simp add: next_of_def)
  show "\<exists>n. ibd_tbl (snd (iw_Insert inbound_writer p db)) =
      (if inbound_storable p \<and> param_key p \<notin> set (map inbound_key (ibd_tbl db))
       then ibd_tbl db @ [inbound_row_of i n p] else ibd_tbl db)"
    using assms(3) d i
    by (auto simp: inbound_writer_def Inbound_Insert_def Queries_InsertInbound_def Let_def split_beta)
  show "list_all (\<lambda>d. d = Done) (ibd_answers (snd (iw_Insert inbound_writer p db)))"
    "ibd_ids (snd (iw_Insert inbound_writer p db)) = is"
    using d(2) assms(2) by (simp_all add: inbound_writer_def Let_def split_beta)
qed

text \<open>C11. While the database answers and draws fresh ids, the listener turns a stream of events into the
  table one expects: after the rows already there, the first delivery of every captured envelope in order of
  arrival; a redelivery after a reconnect adds nothing.\<close>

theorem listener_stores_first_deliveries:
  assumes "il_writer l = inbound_writer" "list_all (\<lambda>d. d = Done) (ibd_answers db)"
    and "distinct (ibd_ids db @ map ib_id (ibd_tbl db))" "length evs \<le> length (ibd_ids db)"
  shows "map envelope_of (ibd_tbl (snd (listener_run l (map L_event evs) db))) =
    map envelope_of (ibd_tbl db) @
      first_deliveries (map inbound_key (ibd_tbl db)) (captures (il_ignore l) evs)"
  using assms(2-4)
proof (induction evs arbitrary: db)
  case Nil
  then show ?case
    by (simp add: captures_def map_filter_simps)
next
  case (Cons ev evs)
  obtain i "is" where ids: "ibd_ids db = i # is"
    using Cons.prems(3) by (cases "ibd_ids db") auto
  show ?case
  proof (cases "captured (il_ignore l) ev")
    case None
    then show ?thesis
      using Cons.IH [OF Cons.prems(1,2)] Cons.prems(3)
      by (simp add: listener_handle_def captures_def map_filter_simps)
  next
    case (Some p)
    let ?db = "snd (iw_Insert inbound_writer p db)"
    have fresh: "i \<notin> set (map ib_id (ibd_tbl db))" "distinct (is @ map ib_id (ibd_tbl db))" "i \<notin> set is"
      using Cons.prems(2) by (auto simp: ids)
    obtain n where tbl: "ibd_tbl ?db =
        (if inbound_storable p \<and> param_key p \<notin> set (map inbound_key (ibd_tbl db))
         then ibd_tbl db @ [inbound_row_of i n p] else ibd_tbl db)"
      using insert_done(1) [OF Cons.prems(1) ids fresh(1)] by blast
    note rest = insert_done(2,3) [OF Cons.prems(1) ids fresh(1), of p]
    have "distinct (ibd_ids ?db @ map ib_id (ibd_tbl ?db))"
      using fresh by (auto simp: rest tbl inbound_row_of_def)
    then have "map envelope_of (ibd_tbl (snd (listener_run l (map L_event evs) ?db))) =
        map envelope_of (ibd_tbl ?db) @ first_deliveries (map inbound_key (ibd_tbl ?db)) (captures (il_ignore l) evs)"
      using Cons.IH [OF rest(1)] Cons.prems(3) ids by (simp add: rest)
    then show ?thesis
      using assms(1) Some by (simp add: listener_handle_def captures_def map_filter_simps tbl)
  qed
qed

section \<open>A sample event\<close>

definition sample_envelope :: json where
  "sample_envelope = JObj [(''source'', JStr ''+1''), (''timestamp'', JInt 5),
     (''dataMessage'', JObj [(''message'', JStr ''hi'')])]"

definition sample_event :: Event where
  "sample_event = \<lparr> ev_Method = ''receive'', ev_Params = Some (JObj [(''envelope'', sample_envelope)]) \<rparr>"

definition sample_note :: string where
  "sample_note = json_print (JObj [(''method'', JStr ''receive''),
     (''params'', JObj [(''envelope'', sample_envelope)])]) @ [newline]"

definition sample_ignore :: InboundIgnoreConfig where
  "sample_ignore = \<lparr> ig_Typing = True, ig_Receipt = True, ig_SyncMessage = True, ig_CallMessage = True \<rparr>"

definition sample_listener :: "inbound_db InboundListener" where
  "sample_listener = \<lparr> il_writer = inbound_writer, il_enabled = True, il_ignore = sample_ignore, il_cancel = True,
     il_wg = 1 \<rparr>"

definition sample_inbound_db :: inbound_db where
  "sample_inbound_db = \<lparr> ibd_tbl = [], ibd_answers = [], ibd_ids = [7, 8], ibd_nows = [] \<rparr>"

lemma sample_note_class: "classify sample_note = Notification sample_event"
  unfolding sample_note_def
  by (subst classify_document)
    (auto simp: utf8_valid_ascii sample_envelope_def rpcFrame_fields_def rpcFrame_zero_def field_defs dec_raw_def
      maxNestingDepth_def sample_event_def)

lemma sample_captured: "captured sample_ignore sample_event = Some \<lparr> ip_Source = ''+1'', ip_SourceUUID = None,
    ip_SourceTimestamp = 5, ip_GroupID = None, ip_Content = Some ''hi'', ip_Attachments = JArr [],
    ip_Raw = sample_envelope \<rparr>"
proof -
  have "parseEnvelope (ev_Params sample_event) = Some (inboundEnvelope_zero\<lparr> en_Source := ''+1'', en_Timestamp := 5,
      en_Data := Some \<lparr> ed_Message = Some ''hi'', ed_Attachments = [], ed_GroupInfo = None \<rparr> \<rparr>, sample_envelope)"
    by (simp add: parseEnvelope_def unmarshal_raw_def sample_event_def field_defs dec_raw_def)
      (simp add: sample_envelope_def inboundEnvelope_fields_def inboundEnvelope_zero_def field_defs dec_data_def
        in_int64_def)
  then show ?thesis
    by (simp add: captured_def sample_event_def filtered_def inboundEnvelope_zero_def groupIDOf_def contentOf_def
        attachmentsOf_def edit_data_def sync_sent_def first_of_def group_text_def set_text_def)
qed

theorem inbound_rows_from_daemon_witness:
  "\<exists>(s :: tcp_system) db'. ts_consumed s = [sample_event] \<and>
     listener_run sample_listener (map L_event (ts_consumed s)) sample_inbound_db = (False, db') \<and>
     distinct (map inbound_key (ibd_tbl db'))"
proof -
  have "\<exists>s. tcp_run (dial_up @ [Dialer (Line sample_note), Consume]) sample_start = Some s \<and>
      ts_consumed s = [sample_event]"
    by (simp add: dial_up_def Start_def NewTCPClient_def tcp_eval dispatchFrame_def sample_note_class eventsCap_def)
  then obtain s where r: "tcp_run (dial_up @ [Dialer (Line sample_note), Consume]) sample_start = Some s"
    and c: "ts_consumed s = [sample_event]"
    by blast
  obtain db' where run: "listener_run sample_listener (map L_event (ts_consumed s)) sample_inbound_db = (False, db')"
    by (simp add: c)
  have "\<exists>new. ibd_tbl db' = ibd_tbl sample_inbound_db @ new \<and> distinct (map inbound_key (ibd_tbl db')) \<and>
    (\<forall>r \<in> set new. \<exists>line \<in> set (tc_received (ts_client s)). \<exists>ev p i n.
       classify line = Notification ev \<and> captured (il_ignore sample_listener) ev = Some p \<and> r = inbound_row_of i n p)"
    by (rule inbound_rows_from_daemon [OF tcp_run_reach [OF r tcp_reach.started] _ _ run])
      (simp_all add: sample_listener_def sample_inbound_db_def)
  with c run show ?thesis
    by blast
qed

theorem listener_stores_first_deliveries_witness:
  "map envelope_of (ibd_tbl (snd (listener_run sample_listener (map L_event [sample_event, sample_event])
      sample_inbound_db))) =
    [\<lparr> ip_Source = ''+1'', ip_SourceUUID = None, ip_SourceTimestamp = 5, ip_GroupID = None, ip_Content = Some ''hi'',
       ip_Attachments = JArr [], ip_Raw = sample_envelope \<rparr>]"
proof -
  have digits: "FormatInt 5 = ''5''"
    by code_simp
  show ?thesis
    by (subst listener_stores_first_deliveries)
      (simp_all add: sample_listener_def sample_inbound_db_def captures_def map_filter_simps sample_captured
        param_key_def inbound_storable_def sample_envelope_def no_nul_def JInt_def digits)
qed

end
