(* ===== verification/Slack.thy ===== *)
theory Slack
  imports Worker
begin

text \<open>
  The Slack notifier, \<open>internal/service/slack.go\<close>: the payload of an alert, its JSON, and the post to
  the webhook, whose failures are logged and swallowed.

  The HTTP client and the logger are the components \<open>sl_http\<close> and \<open>sl_logger\<close> of the notifier, over
  the state \<open>'s\<close>. The clock, the text of an error and whether \<open>net/url\<close> parses the configured URL are
  components of \<open>slack_runtime\<close>.
\<close>

section \<open>Time formatting\<close>

text \<open>\<open>t.Sub(u)\<close> saturates at the ends of the type; \<open>d.Truncate(m)\<close> cuts towards zero.\<close>

definition Time_Sub :: "gotime \<Rightarrow> gotime \<Rightarrow> duration" where
  "Time_Sub t u = max (- (2 ^ 63)) (min (2 ^ 63 - 1) (t - u))"

definition Duration_Truncate :: "duration \<Rightarrow> duration \<Rightarrow> duration" where
  "Duration_Truncate d m = (if m \<le> 0 then d else go_div d m * m)"

text \<open>\<open>d.String()\<close> of a whole number of seconds.\<close>

definition Duration_String :: "duration \<Rightarrow> string" where
  "Duration_String d =
     (let u = nat (\<bar>d\<bar> div Second) in
      (if d < 0 then ''-'' else '''') @
      (if 3600 \<le> u then digits (u div 3600) @ ''h'' else '''') @
      (if 60 \<le> u then digits (u div 60 mod 60) @ ''m'' else '''') @
      digits (u mod 60) @ ''s'')"

text \<open>The civil date of a day number counted from 1 January of the year 1, and the layout
  \<open>time.RFC3339\<close> of an instant in UTC. Years are counted in cycles of 400, 100, 4 and 1 years, the last
  day of a longer cycle belonging to its last year.\<close>

definition leap :: "int \<Rightarrow> bool" where
  "leap y \<longleftrightarrow> y mod 4 = 0 \<and> (y mod 100 \<noteq> 0 \<or> y mod 400 = 0)"

definition civil_year :: "int \<Rightarrow> int \<times> int" where
  "civil_year days =
     (let n400 = days div 146097; d400 = days mod 146097;
          n100 = min 3 (d400 div 36524); d100 = d400 - n100 * 36524;
          n4 = d100 div 1461; d4 = d100 mod 1461;
          n1 = min 3 (d4 div 365) in
      (400 * n400 + 100 * n100 + 4 * n4 + n1 + 1, d4 - n1 * 365))"

definition month_lengths :: "int \<Rightarrow> int list" where
  "month_lengths y = [31, if leap y then 29 else 28, 31, 30, 31, 30, 31, 31, 30, 31, 30, 31]"

fun civil_month :: "int list \<Rightarrow> int \<Rightarrow> int \<Rightarrow> int \<times> int" where
  "civil_month (l # ls) m d = (if d < l \<or> ls = [] then (m, d + 1) else civil_month ls (m + 1) (d - l))"
| "civil_month [] m d = (m, d + 1)"

definition pad :: "nat \<Rightarrow> int \<Rightarrow> string" where
  "pad w n = (let ds = digits (nat \<bar>n\<bar>) in
     (if n < 0 then ''-'' else '''') @ replicate (w - length ds) (CHR ''0'') @ ds)"

definition Format_RFC3339 :: "gotime \<Rightarrow> string" where
  "Format_RFC3339 t =
     (let secs = t div Second; days = secs div 86400; s = secs mod 86400;
          (y, yd) = civil_year days; (m, d) = civil_month (month_lengths y) 1 yd in
      pad 4 y @ ''-'' @ pad 2 m @ ''-'' @ pad 2 d @ ''T'' @
      pad 2 (s div 3600) @ '':'' @ pad 2 (s div 60 mod 60) @ '':'' @ pad 2 (s mod 60) @ ''Z'')"

section \<open>Payload\<close>

record slackText =
  st_Type :: string
  st_Text :: string

record slackField =
  sf_Type :: string
  sf_Text :: string

record slackBlock =
  sb_Type :: string
  sb_Text :: "slackText option"
  sb_Fields :: "slackField list"

record slackPayload =
  sp_Channel :: string
  sp_Blocks :: "slackBlock list"

definition slackText_json :: "slackText \<Rightarrow> json" where
  "slackText_json t = JObj [(''type'', JStr (st_Type t)), (''text'', JStr (st_Text t))]"

definition slackField_json :: "slackField \<Rightarrow> json" where
  "slackField_json f = JObj [(''type'', JStr (sf_Type f)), (''text'', JStr (sf_Text f))]"

definition slackBlock_json :: "slackBlock \<Rightarrow> json" where
  "slackBlock_json b = JObj (
     [(''type'', JStr (sb_Type b))] @
     (case sb_Text b of None \<Rightarrow> [] | Some t \<Rightarrow> [(''text'', slackText_json t)]) @
     (if sb_Fields b = [] then [] else [(''fields'', JArr (map slackField_json (sb_Fields b)))]))"

definition slackPayload_json :: "slackPayload \<Rightarrow> json" where
  "slackPayload_json p = JObj (
     (if sp_Channel p = '''' then [] else [(''channel'', JStr (sp_Channel p))]) @
     [(''blocks'', JArr (map slackBlock_json (sp_Blocks p)))])"

text \<open>The text put after a cut is the ellipsis, three bytes long. The cut counts bytes.\<close>

definition ellipsis :: string where
  "ellipsis = map char_of [0xE2 :: nat, 0x80, 0xA6]"

definition truncate_text :: "string \<Rightarrow> nat \<Rightarrow> string" where
  "truncate_text s n = (if length s \<le> n then s else take n s @ ellipsis)"

definition errString :: "(goerr \<Rightarrow> string) \<Rightarrow> goerr option \<Rightarrow> string" where
  "errString txt err = (case err of None \<Rightarrow> ''<nil>'' | Some e \<Rightarrow> txt e)"

definition mrkdwn_section :: "string \<Rightarrow> slackBlock" where
  "mrkdwn_section t =
     \<lparr>sb_Type = ''section'', sb_Text = Some \<lparr>st_Type = ''mrkdwn'', st_Text = t\<rparr>, sb_Fields = []\<rparr>"

definition mrkdwn_fields :: "string list \<Rightarrow> slackBlock" where
  "mrkdwn_fields ts =
     \<lparr>sb_Type = ''section'', sb_Text = None,
      sb_Fields = map (\<lambda>t. \<lparr>sf_Type = ''mrkdwn'', sf_Text = t\<rparr>) ts\<rparr>"

definition alert_target :: "SignalMessage \<Rightarrow> string" where
  "alert_target m =
     (case sm_GroupID m of
        Some g \<Rightarrow> if g \<noteq> '''' then ''group='' @ g
                 else (case sm_Recipient m of Some r \<Rightarrow> if r \<noteq> '''' then ''recipient='' @ r else ''unknown''
                                            | None \<Rightarrow> ''unknown'')
      | None \<Rightarrow> (case sm_Recipient m of Some r \<Rightarrow> if r \<noteq> '''' then ''recipient='' @ r else ''unknown''
                                      | None \<Rightarrow> ''unknown''))"

definition slackPermanentFailurePayload ::
  "(goerr \<Rightarrow> string) \<Rightarrow> gotime \<Rightarrow> SignalMessage \<Rightarrow> goerr option \<Rightarrow> slackPayload" where
  "slackPermanentFailurePayload txt now m cause =
     (let dur = Duration_String (Duration_Truncate (Time_Sub now (sm_CreatedAt m)) Second) in
      \<lparr>sp_Channel = '''',
       sp_Blocks =
         [mrkdwn_section (''*Signal message permanently failed after '' @ FormatInt (sm_Attempts m) @
            '' attempts ('' @ dur @ '')*''),
          mrkdwn_fields
            [''*External ID:* '' @ sm_ExternalID m,
             ''*Target:* '' @ alert_target m,
             ''*Created:* '' @ Format_RFC3339 (sm_CreatedAt m),
             ''*Content:* '' @ truncate_text (sm_Content m) 256,
             ''*Error:* '' @ errString txt cause]]\<rparr>)"

definition slackAttachmentErrorPayload ::
  "(goerr \<Rightarrow> string) \<Rightarrow> string \<Rightarrow> string \<Rightarrow> goerr option \<Rightarrow> slackPayload" where
  "slackAttachmentErrorPayload txt bucket key cause =
     \<lparr>sp_Channel = '''',
      sp_Blocks =
        [mrkdwn_section ''*Failed to download attachment from object storage*'',
         mrkdwn_fields
           [''*Bucket:* '' @ bucket, ''*Key:* '' @ key, ''*Error:* '' @ errString txt cause]]\<rparr>"

section \<open>The notifier\<close>

text \<open>\<open>Do\<close> answers an error or the status code of the response, whose body is discarded.\<close>

record 's slackHTTPDoer =
  hd_Do :: "ctx \<Rightarrow> http_request \<Rightarrow> 's \<Rightarrow> (goerr + int) \<times> 's"

record 's SlackNotifier =
  sl_cfg :: SlackConfig
  sl_http :: "'s slackHTTPDoer"
  sl_logger :: "string \<Rightarrow> string \<Rightarrow> 's \<Rightarrow> 's"

record 's slack_runtime =
  slr_Now :: "'s \<Rightarrow> gotime"
  slr_Error :: "goerr \<Rightarrow> string"
  slr_url_ok :: "string \<Rightarrow> bool"

definition NewSlackNotifier ::
  "'s slackHTTPDoer \<Rightarrow> RuntimeConfig \<Rightarrow> (string \<Rightarrow> string \<Rightarrow> 's \<Rightarrow> 's) \<Rightarrow> 's SlackNotifier" where
  "NewSlackNotifier client runtime logger =
     \<lparr>sl_cfg = rtc_Slack runtime, sl_http = client, sl_logger = logger\<rparr>"

definition Slack_Enabled :: "'s SlackNotifier \<Rightarrow> bool" where
  "Slack_Enabled n \<longleftrightarrow> slk_Enabled (sl_cfg n) \<and> slk_WebhookURL (sl_cfg n) \<noteq> ''''"

text \<open>\<open>json.Marshal\<close> of a payload, a struct of strings, never fails.\<close>

definition webhook_request :: "'s SlackNotifier \<Rightarrow> slackPayload \<Rightarrow> http_request" where
  "webhook_request n payload =
     \<lparr>hq_Method = ''POST'', hq_URL = slk_WebhookURL (sl_cfg n),
      hq_Header = [(''Content-Type'', ''application/json'')],
      hq_Body = json_print (slackPayload_json payload)\<rparr>"

definition Slack_post ::
  "'s slack_runtime \<Rightarrow> 's SlackNotifier \<Rightarrow> ctx \<Rightarrow> slackPayload \<Rightarrow> string \<Rightarrow> 's \<Rightarrow> 's" where
  "Slack_post rt n ctx payload kind s =
     (if \<not> slr_url_ok rt (slk_WebhookURL (sl_cfg n)) then sl_logger n ''slack: build request'' kind s
      else
        (case hd_Do (sl_http n) ctx (webhook_request n payload) s of
           (Inl err, s1) \<Rightarrow> sl_logger n ''slack: post failed'' kind s1
         | (Inr sc, s1) \<Rightarrow>
             if 300 \<le> sc then sl_logger n ''slack: non-2xx response'' kind s1 else s1))"

definition NotifyPermanentFailure ::
  "'s slack_runtime \<Rightarrow> 's SlackNotifier \<Rightarrow> ctx \<Rightarrow> SignalMessage \<Rightarrow> goerr option \<Rightarrow> 's \<Rightarrow> 's" where
  "NotifyPermanentFailure rt n ctx m cause s =
     (if \<not> Slack_Enabled n \<or> \<not> sno_PermanentFailure (slk_NotifyOn (sl_cfg n)) then s
      else Slack_post rt n ctx (slackPermanentFailurePayload (slr_Error rt) (slr_Now rt s) m cause)
             ''permanent-failure'' s)"

definition NotifyAttachmentError ::
  "'s slack_runtime \<Rightarrow> 's SlackNotifier \<Rightarrow> ctx \<Rightarrow> string \<Rightarrow> string \<Rightarrow> goerr option \<Rightarrow> 's \<Rightarrow> 's" where
  "NotifyAttachmentError rt n ctx bucket key cause s =
     (if \<not> Slack_Enabled n \<or> \<not> sno_AttachmentError (slk_NotifyOn (sl_cfg n)) then s
      else Slack_post rt n ctx (slackAttachmentErrorPayload (slr_Error rt) bucket key cause)
             ''attachment-error'' s)"

text \<open>The notifier as the interface the worker owns.\<close>

definition permanentFailureNotifier :: "'s slack_runtime \<Rightarrow> 's SlackNotifier \<Rightarrow> 's FailureNotifier" where
  "permanentFailureNotifier rt n =
     \<lparr>fn_Enabled = (\<lambda>s. Slack_Enabled n),
      fn_NotifyPermanentFailure = (\<lambda>ctx m e. NotifyPermanentFailure rt n ctx m (Some e))\<rparr>"

section \<open>What a notifier does to its host\<close>

text \<open>
  The host of a notifier: a state with an HTTP client that records the requests and a logger that
  records the warnings, both leaving the rest alone. An alert is one request at most and one warning
  at most; it is never an error.
\<close>

locale slack_host =
  fixes client :: "'s slackHTTPDoer"
    and warn :: "string \<Rightarrow> string \<Rightarrow> 's \<Rightarrow> 's"
    and posts :: "'s \<Rightarrow> http_request list"
    and warnings :: "'s \<Rightarrow> (string \<times> string) list"
    and remainder :: "'s \<Rightarrow> 'r"
  assumes do_posts: "posts (snd (hd_Do client c q s)) = posts s @ [q]"
    and do_warnings: "warnings (snd (hd_Do client c q s)) = warnings s"
    and do_rest: "remainder (snd (hd_Do client c q s)) = remainder s"
    and warn_posts: "posts (warn t k s) = posts s"
    and warn_warnings: "warnings (warn t k s) = warnings s @ [(t, k)]"
    and warn_rest: "remainder (warn t k s) = remainder s"
begin

lemmas host_laws = do_posts do_warnings do_rest warn_posts warn_warnings warn_rest

lemma post_effect:
  fixes n rt
  defines "ok \<equiv> slr_url_ok rt (slk_WebhookURL (sl_cfg n))"
  assumes "sl_http n = client" "sl_logger n = warn"
  shows "posts (Slack_post rt n c p k s) = posts s @ (if ok then [webhook_request n p] else [])"
    and "remainder (Slack_post rt n c p k s) = remainder s"
    and "\<exists>l. warnings (Slack_post rt n c p k s) = warnings s @ l \<and> length l \<le> 1 \<and> (\<not> ok \<longrightarrow> l \<noteq> [])"
proof -
  obtain r s1 where d: "hd_Do client c (webhook_request n p) s = (r, s1)"
    by (meson surj_pair)
  have "posts s1 = posts s @ [webhook_request n p]" "warnings s1 = warnings s" "remainder s1 = remainder s"
    using do_posts [of c "webhook_request n p" s] do_warnings [of c "webhook_request n p" s]
      do_rest [of c "webhook_request n p" s] d by simp_all
  then show "posts (Slack_post rt n c p k s) = posts s @ (if ok then [webhook_request n p] else [])"
    and "remainder (Slack_post rt n c p k s) = remainder s"
    and "\<exists>l. warnings (Slack_post rt n c p k s) = warnings s @ l \<and> length l \<le> 1 \<and> (\<not> ok \<longrightarrow> l \<noteq> [])"
    using assms(2,3) d
    by (auto simp: Slack_post_def ok_def warn_posts warn_rest warn_warnings split: sum.splits)
qed

end

text \<open>A webhook that answers from a script.\<close>

record webhook =
  wh_now :: gotime
  wh_posts :: "http_request list"
  wh_answers :: "(goerr + int) list"
  wh_log :: "(string \<times> string) list"

definition webhook_client :: "webhook slackHTTPDoer" where
  "webhook_client =
     \<lparr>hd_Do = (\<lambda>c q s. (case wh_answers s of [] \<Rightarrow> Inr 200 | a # _ \<Rightarrow> a,
        s\<lparr>wh_posts := wh_posts s @ [q], wh_answers := tl (wh_answers s)\<rparr>))\<rparr>"

definition webhook_warn :: "string \<Rightarrow> string \<Rightarrow> webhook \<Rightarrow> webhook" where
  "webhook_warn t k s = s\<lparr>wh_log := wh_log s @ [(t, k)]\<rparr>"

interpretation wh: slack_host webhook_client webhook_warn wh_posts wh_log wh_now
  by unfold_locales (simp_all add: webhook_client_def webhook_warn_def)

section \<open>The alert\<close>

lemma printable_block [simp]:
  "printable (slackBlock_json (mrkdwn_section t)) = utf8_valid t"
  "printable (slackBlock_json (mrkdwn_fields ts)) = list_all utf8_valid ts"
  by (auto simp: slackBlock_json_def mrkdwn_section_def mrkdwn_fields_def slackText_json_def
      slackField_json_def list_all_iff utf8_valid_ascii)

lemma depth_payload: "json_depth (slackPayload_json p) \<le> 6"
  unfolding slackPayload_json_def slackBlock_json_def slackText_json_def slackField_json_def
  by (auto split: option.splits)

definition alert_texts :: "slackPayload \<Rightarrow> string list" where
  "alert_texts p = concat (map (\<lambda>b.
     (case sb_Text b of None \<Rightarrow> [] | Some t \<Rightarrow> [st_Text t]) @ map sf_Text (sb_Fields b)) (sp_Blocks p))"

lemma printable_payload:
  "printable (slackPayload_json \<lparr>sp_Channel = '''', sp_Blocks = [mrkdwn_section t, mrkdwn_fields ts]\<rparr>) \<longleftrightarrow>
     list_all utf8_valid (t # ts)"
  by (simp add: slackPayload_json_def utf8_valid_ascii)

lemma alert_texts_sections [simp]:
  "alert_texts \<lparr>sp_Channel = c, sp_Blocks = [mrkdwn_section t, mrkdwn_fields ts]\<rparr> = t # ts"
  by (simp add: alert_texts_def mrkdwn_section_def mrkdwn_fields_def comp_def)

lemma payload_reads_back:
  assumes "p = slackPermanentFailurePayload txt now m cause" and "list_all utf8_valid (alert_texts p)"
  shows "json_parse (json_print (slackPayload_json p)) = Some (slackPayload_json p)"
proof (rule json_roundtrip)
  show "printable (slackPayload_json p)"
    using assms(2) unfolding assms(1) slackPermanentFailurePayload_def Let_def
    by (simp only: printable_payload alert_texts_sections)
  show "json_depth (slackPayload_json p) \<le> maxNestingDepth"
    using depth_payload [of p] by (simp add: maxNestingDepth_def)
qed

text \<open>C29. An alert of a permanently failed message is one POST to the configured webhook when the master
  switch, the URL and the toggle of the event are set and the URL parses, and nothing is posted
  otherwise. The body is the JSON of the payload: it parses to it when its texts are well-formed. The
  state of the host is otherwise unchanged, and what goes wrong is one warning at most.\<close>

theorem slack_alert:
  fixes n :: "webhook SlackNotifier" and rt :: "webhook slack_runtime"
  defines "p \<equiv> \<lambda>s m cause. slackPermanentFailurePayload (slr_Error rt) (slr_Now rt s) m cause"
  assumes n: "n = NewSlackNotifier webhook_client runtime webhook_warn"
    and valid: "list_all utf8_valid (alert_texts (p s m cause))"
    and s': "s' = NotifyPermanentFailure rt n c m cause s"
  shows "wh_posts s' = wh_posts s @
      (if slk_Enabled (rtc_Slack runtime) \<and> slk_WebhookURL (rtc_Slack runtime) \<noteq> '''' \<and>
          sno_PermanentFailure (slk_NotifyOn (rtc_Slack runtime)) \<and> slr_url_ok rt (slk_WebhookURL (rtc_Slack runtime))
       then [webhook_request n (p s m cause)] else []) \<and>
    hq_URL (webhook_request n (p s m cause)) = slk_WebhookURL (rtc_Slack runtime) \<and>
    json_parse (hq_Body (webhook_request n (p s m cause))) = Some (slackPayload_json (p s m cause)) \<and>
    wh_now s' = wh_now s \<and> length (wh_log s') \<le> length (wh_log s) + 1"
proof -
  have h: "sl_http n = webhook_client" "sl_logger n = webhook_warn" "sl_cfg n = rtc_Slack runtime"
    by (simp_all add: n NewSlackNotifier_def)
  obtain l where "wh_log (Slack_post rt n c (p s m cause) ''permanent-failure'' s) = wh_log s @ l" "length l \<le> 1"
    using wh.post_effect(3) [OF h(1,2)] by blast
  then show ?thesis
    using payload_reads_back [OF refl valid [unfolded p_def]] wh.post_effect(1,2) [OF h(1,2)]
    by (simp add: s' NotifyPermanentFailure_def Slack_Enabled_def h webhook_request_def p_def)
qed

definition sample_hook :: webhook where
  "sample_hook = \<lparr>wh_now = 5 * Minute, wh_posts = [], wh_answers = [Inr 500], wh_log = []\<rparr>"

definition sample_slack_runtime :: "webhook slack_runtime" where
  "sample_slack_runtime = \<lparr>slr_Now = wh_now, slr_Error = (\<lambda>e. ''timeout''), slr_url_ok = (\<lambda>u. True)\<rparr>"

definition sample_slack_config :: RuntimeConfig where
  "sample_slack_config =
     \<lparr>rtc_Worker = \<lparr>wrc_PollInterval = Second, wrc_MaxAttempts = 3\<rparr>,
      rtc_SignalCli = \<lparr>scr_EnableListening = False\<rparr>,
      rtc_Inbound = \<lparr>inb_Ignore = \<lparr>ig_Typing = False, ig_Receipt = False, ig_SyncMessage = False, ig_CallMessage = False\<rparr>\<rparr>,
      rtc_Slack = \<lparr>slk_Enabled = True, slk_WebhookURL = ''https://hooks'', slk_ChannelIDs = [],
        slk_NotifyOn = \<lparr>sno_PermanentFailure = True, sno_AttachmentError = False\<rparr>\<rparr>\<rparr>"

definition sample_failed :: SignalMessage where
  "sample_failed =
     \<lparr>sm_ID = 1, sm_ExternalID = ''e'', sm_IdempotencyKey = None, sm_Recipient = Some ''+1'', sm_GroupID = None,
      sm_SenderPhoneNumber = ''+2'', sm_Content = ''hi'', sm_Attachments = [], sm_Attempts = 3, sm_MaxAttempts = 3,
      sm_NextAttemptAt = 0, sm_TimeoutAt = None, sm_Status = ''SENDING'', sm_LastError = None, sm_ResultID = None,
      sm_QuoteResultID = None, sm_CorrelationID = '''', sm_CreatedAt = 0, sm_ModifiedAt = 0\<rparr>"

theorem slack_alert_witness:
  "wh_posts (NotifyPermanentFailure sample_slack_runtime
      (NewSlackNotifier webhook_client sample_slack_config webhook_warn) None sample_failed (Some (Sentinel CtxErr))
      sample_hook) =
     [webhook_request (NewSlackNotifier webhook_client sample_slack_config webhook_warn)
        (slackPermanentFailurePayload (\<lambda>e. ''timeout'') (5 * Minute) sample_failed (Some (Sentinel CtxErr)))]"
proof -
  have "list_all utf8_valid (alert_texts (slackPermanentFailurePayload (slr_Error sample_slack_runtime)
    (slr_Now sample_slack_runtime sample_hook) sample_failed (Some (Sentinel CtxErr))))"
    by code_simp
  from slack_alert [OF refl this refl, of sample_slack_config None] show ?thesis
    by (simp add: sample_slack_runtime_def sample_slack_config_def sample_hook_def)
qed

end
