(* ===== verification/Codec.thy ===== *)
theory Codec
  imports Json Domain
begin

text \<open>
  What the wire types of the API share: optional members, the decoding of a struct field by field, and
  the locale \<open>codec\<close> of an encoder and a decoder that undo each other, from which pointers, slices and
  texts inherit the round trip. The second half is the interface of the Conjure run-time library the
  generated code calls.
\<close>

named_theorems wire_simps \<open>encoders and field tables of the wire types\<close>

section \<open>Optional members\<close>

text \<open>A field tagged \<open>omitempty\<close> holding a pointer: present when the pointer is set.\<close>

definition opt_member :: "string \<Rightarrow> ('a \<Rightarrow> json) \<Rightarrow> 'a option \<Rightarrow> (string \<times> json) list" where
  "opt_member k enc v = (case v of None \<Rightarrow> [] | Some x \<Rightarrow> [(k, enc x)])"

definition setter :: "('r \<Rightarrow> 'a) \<Rightarrow> (('a \<Rightarrow> 'a) \<Rightarrow> 'r \<Rightarrow> 'r) \<Rightarrow> 'a dec \<Rightarrow> 'r dec" where
  "setter sel upd d j r = (let (b, v) = d j (sel r) in (b, upd (\<lambda>_. v) r))"

definition opt_step :: "'r dec \<Rightarrow> ('a \<Rightarrow> json) \<Rightarrow> 'a option \<Rightarrow> 'r \<Rightarrow> bool \<times> 'r" where
  "opt_step d enc v r = (case v of None \<Rightarrow> (True, r) | Some x \<Rightarrow> d (enc x) r)"

lemma field_of_setter: "field_of name sel upd d = (name, setter sel upd d)"
  by (simp add: field_of_def setter_def fun_eq_iff)

lemma decode_opt [simp]:
  "decode_members fs (opt_member k enc v @ ms) r =
     (case find_field fs k of
        None \<Rightarrow> decode_members fs ms r
      | Some d \<Rightarrow> let (b, r') = opt_step d enc v r; (b', r'') = decode_members fs ms r' in (b \<and> b', r''))"
  by (auto simp: opt_member_def opt_step_def split: option.splits)

lemma decode_opt_last [simp]:
  "decode_members fs (opt_member k enc v) r =
     (case find_field fs k of None \<Rightarrow> (True, r) | Some d \<Rightarrow> opt_step d enc v r)"
  using decode_opt [of fs k enc v "[]" r] by (auto split: option.splits prod.splits)

lemma opt_step_setter [simp]:
  assumes "sel r = None" and "upd (\<lambda>_. None) r = r"
    and "\<forall>x. v = Some x \<longrightarrow> enc x \<noteq> JNull \<and> d (enc x) z = (True, x)"
  shows "opt_step (setter sel upd (dec_ptr z d)) enc v r = (True, upd (\<lambda>_. v) r)"
  using assms by (cases v) (auto simp: opt_step_def setter_def dec_ptr_def split: json.splits)

lemma setter_read [simp]:
  "d j (sel r) = (True, v) \<Longrightarrow> setter sel upd d j r = (True, upd (\<lambda>_. v) r)"
  by (simp add: setter_def)

lemma opt_member_in [simp]: "m \<in> set (opt_member k enc v) \<longleftrightarrow> (\<exists>x. v = Some x \<and> m = (k, enc x))"
  by (auto simp: opt_member_def split: option.splits)

lemma opt_member_all [simp]: "list_all P (opt_member k enc v) \<longleftrightarrow> (\<forall>x. v = Some x \<longrightarrow> P (k, enc x))"
  by (auto simp: list_all_iff)

section \<open>Encoders and decoders\<close>

text \<open>
  \<open>enc\<close> writes the values \<open>ok\<close> holds for and \<open>dec\<close> reads them back into the zero value of their type.
\<close>

locale codec =
  fixes enc :: "'a \<Rightarrow> json" and dec :: "'a dec" and zero :: 'a and ok :: "'a \<Rightarrow> bool"
  assumes reads_back: "ok a \<Longrightarrow> dec (enc a) zero = (True, a)"
    and not_null: "enc a \<noteq> JNull"
    and writes: "ok a \<Longrightarrow> printable (enc a)"
    and shallow: "json_depth (enc a) \<le> 20"
begin

lemma elements: "list_all ok as \<Longrightarrow> dec_elements zero dec (map enc as) [] = (True, as)"
  by (induction as) (simp_all add: reads_back)

lemma slice: "list_all ok as \<Longrightarrow> dec_slice zero dec (JArr (map enc as)) [] = (True, as)"
  by (simp add: elements)

lemma slice_writes: "list_all ok as \<Longrightarrow> printable (JArr (map enc as))"
  by (auto simp: list_all_iff writes)

lemma pointer: "ok a \<Longrightarrow> dec_ptr zero dec (enc a) None = (True, Some a)"
  using not_null [of a] reads_back [of a] by (auto simp: dec_ptr_def split: json.splits)

lemma document_text: "ok a \<Longrightarrow> json_parse (json_print (enc a)) = Some (enc a)"
proof (rule json_roundtrip)
  show "json_depth (enc a) \<le> maxNestingDepth"
    by (rule order_trans [OF shallow]) (simp add: maxNestingDepth_def)
qed (rule writes)

end

lemma JInt_not_null [simp]: "JInt i \<noteq> JNull"
  by (simp add: JInt_def)

interpretation str: codec JStr dec_string "''''" utf8_valid
  by unfold_locales simp_all

interpretation num: codec JInt dec_int 0 in_int64
  by unfold_locales simp_all

section \<open>The Conjure run time\<close>

text \<open>
  The library the generated code calls, as a parameter: the texts of UUIDs and instants, the range of
  \<open>safelong\<close>, \<open>safejson\<close> on documents, the two conversions of \<open>safeyaml\<close>, and the upper case of a rune
  outside ASCII. \<open>'y\<close> is the type of YAML values.
\<close>

record 'y conjure_lib =
  cl_UUIDString :: "uuid \<Rightarrow> string"
  cl_ParseUUID :: "string \<Rightarrow> goerr + uuid"
  cl_DateTimeString :: "gotime \<Rightarrow> string"
  cl_ParseDateTime :: "string \<Rightarrow> goerr + gotime"
  cl_NewSafeLong :: "int \<Rightarrow> goerr + int"
  cl_Marshal :: "json \<Rightarrow> string"
  cl_Unmarshal :: "string \<Rightarrow> goerr + json"
  cl_JSONtoYAMLMapSlice :: "string \<Rightarrow> goerr + 'y"
  cl_UnmarshalerToJSONBytes :: "'y \<Rightarrow> goerr + string"
  cl_ToUpper :: "string \<Rightarrow> string"
  cl_ContentType :: string

text \<open>What the library documents: the texts of UUIDs and of instants with a four-digit year parse to
  them and are ASCII, those of UUIDs without a slash and those of instants never empty, a safe integer is
  one of at most 53 bits, and a document survives the way to text, and to YAML and back.\<close>

definition wire_time :: "gotime \<Rightarrow> bool" where
  "wire_time t \<longleftrightarrow> 0 \<le> t \<and> t < 3155378976 * 10 ^ 11"

definition safe_long :: "int \<Rightarrow> bool" where
  "safe_long i \<longleftrightarrow> \<bar>i\<bar> < 2 ^ 53"

definition conjure_laws :: "'y conjure_lib \<Rightarrow> bool" where
  "conjure_laws lib \<longleftrightarrow>
     (\<forall>u. cl_ParseUUID lib (cl_UUIDString lib u) = Inr u \<and>
        list_all (\<lambda>c. byte c < 128) (cl_UUIDString lib u) \<and> CHR ''/'' \<notin> set (cl_UUIDString lib u)) \<and>
     (\<forall>t. wire_time t \<longrightarrow> cl_ParseDateTime lib (cl_DateTimeString lib t) = Inr t) \<and>
     (\<forall>t. cl_DateTimeString lib t \<noteq> [] \<and> list_all (\<lambda>c. byte c < 128) (cl_DateTimeString lib t)) \<and>
     (\<forall>i. safe_long i \<longrightarrow> cl_NewSafeLong lib i = Inr i) \<and>
     (\<forall>i j. cl_NewSafeLong lib i = Inr j \<longrightarrow> j = i \<and> safe_long i) \<and>
     (\<forall>j. printable j \<longrightarrow> json_depth j \<le> maxNestingDepth \<longrightarrow> cl_Unmarshal lib (cl_Marshal lib j) = Inr j) \<and>
     (\<forall>j. printable j \<longrightarrow> json_depth j \<le> maxNestingDepth \<longrightarrow>
        (\<exists>y b. cl_JSONtoYAMLMapSlice lib (cl_Marshal lib j) = Inr y \<and>
           cl_UnmarshalerToJSONBytes lib y = Inr b \<and> cl_Unmarshal lib b = Inr j))"

text \<open>The library of a running program obeys the laws.\<close>

locale conjure_runtime =
  fixes lib :: "'y conjure_lib"
  assumes laws: "conjure_laws lib"

text \<open>A value with a text form: a JSON string, read with the parser of the type.\<close>

definition dec_text :: "(string \<Rightarrow> goerr + 'a) \<Rightarrow> 'a dec" where
  "dec_text parse j old = (case j of
     JNull \<Rightarrow> (True, old)
   | JStr s \<Rightarrow> (case parse s of Inl e \<Rightarrow> (False, old) | Inr v \<Rightarrow> (True, v))
   | _ \<Rightarrow> (False, old))"

abbreviation uuid_json :: "'y conjure_lib \<Rightarrow> uuid \<Rightarrow> json" where
  "uuid_json lib u \<equiv> JStr (cl_UUIDString lib u)"

abbreviation time_json :: "'y conjure_lib \<Rightarrow> gotime \<Rightarrow> json" where
  "time_json lib t \<equiv> JStr (cl_DateTimeString lib t)"

text \<open>\<open>safelong.SafeLong\<close> is written as a number and checked when read.\<close>

definition dec_safelong :: "'y conjure_lib \<Rightarrow> int dec" where
  "dec_safelong lib j old =
     (let (b, v) = dec_int j old in
      if \<not> b then (False, old) else case cl_NewSafeLong lib v of Inl e \<Rightarrow> (False, old) | Inr i \<Rightarrow> (True, i))"

text \<open>The YAML methods of a generated struct go through its JSON bytes.\<close>

definition to_yaml :: "'y conjure_lib \<Rightarrow> json \<Rightarrow> goerr + 'y" where
  "to_yaml lib j = cl_JSONtoYAMLMapSlice lib (cl_Marshal lib j)"

definition unmarshal_into :: "'y conjure_lib \<Rightarrow> 'a dec \<Rightarrow> 'a \<Rightarrow> string \<Rightarrow> goerr + 'a" where
  "unmarshal_into lib d old data = (case cl_Unmarshal lib data of
     Inl e \<Rightarrow> Inl e
   | Inr j \<Rightarrow> let (b, v) = d j old in if b then Inr v else Inl (Opaque ''json: cannot unmarshal''))"

definition of_yaml :: "'y conjure_lib \<Rightarrow> 'a dec \<Rightarrow> 'a \<Rightarrow> 'y \<Rightarrow> goerr + 'a" where
  "of_yaml lib d old y = (case cl_UnmarshalerToJSONBytes lib y of
     Inl e \<Rightarrow> Inl e
   | Inr b \<Rightarrow> unmarshal_into lib d old b)"

lemma text_laws:
  assumes "conjure_laws lib"
  shows "dec_text (cl_ParseUUID lib) (uuid_json lib u) old = (True, u)"
    and "wire_time t \<Longrightarrow> dec_text (cl_ParseDateTime lib) (time_json lib t) old' = (True, t)"
    and "safe_long i \<Longrightarrow> dec_safelong lib (JInt i) old'' = (True, i)"
    and "utf8_valid (cl_UUIDString lib u)" and "utf8_valid (cl_DateTimeString lib t)"
proof -
  have "in_int64 i" if "safe_long i"
    using that by (auto simp: safe_long_def in_int64_def)
  then show "safe_long i \<Longrightarrow> dec_safelong lib (JInt i) old'' = (True, i)"
    using assms by (simp add: dec_safelong_def conjure_laws_def)
qed (use assms in \<open>auto simp: conjure_laws_def dec_text_def intro: utf8_valid_ascii\<close>)

context codec begin

lemma library_roundtrip:
  assumes "conjure_laws lib" and "ok a"
  shows "unmarshal_into lib dec zero (cl_Marshal lib (enc a)) = Inr a"
    and "\<exists>y. to_yaml lib (enc a) = Inr y \<and> of_yaml lib dec zero y = Inr a"
proof -
  have d: "json_depth (enc a) \<le> maxNestingDepth"
    by (rule order_trans [OF shallow]) (simp add: maxNestingDepth_def)
  then have "cl_Unmarshal lib (cl_Marshal lib (enc a)) = Inr (enc a)"
    using assms writes by (simp add: conjure_laws_def)
  then show "unmarshal_into lib dec zero (cl_Marshal lib (enc a)) = Inr a"
    using assms(2) by (simp add: unmarshal_into_def reads_back)
  obtain y b where "cl_JSONtoYAMLMapSlice lib (cl_Marshal lib (enc a)) = Inr y"
      "cl_UnmarshalerToJSONBytes lib y = Inr b" "cl_Unmarshal lib b = Inr (enc a)"
    using assms writes d unfolding conjure_laws_def by blast
  then show "\<exists>y. to_yaml lib (enc a) = Inr y \<and> of_yaml lib dec zero y = Inr a"
    using assms(2) by (auto simp: to_yaml_def of_yaml_def unmarshal_into_def reads_back)
qed

end

context conjure_runtime begin

lemmas lib_text [simp] = text_laws [OF laws]

end

end
