(* ===== verification/Api.thy ===== *)
theory Api
  imports Codec "HOL-Library.AList" "HOL-Library.List_Lexorder" "HOL-Library.Char_ord"
begin

text \<open>
  The generated API types, \<open>internal/generated/signalium/api/enums.conjure.go\<close> and
  \<open>internal/generated/signalium/api/structs.conjure.go\<close>: the status enum and the structs of the wire,
  with their JSON as the field tags give it and their methods. \<open>X_fields\<close> is the field table of the
  decoder and \<open>X_zero\<close> the zero value. The library below the generated code is the parameter
  \<open>conjure_lib\<close> of theory \<open>Codec\<close>.
\<close>

section \<open>The status enum\<close>

record ApiStatus =
  ste_val :: string

type_synonym StatusValue = string

definition SignalMessageStatus_Values :: "StatusValue list" where
  "SignalMessageStatus_Values =
     [''PENDING'', ''SENDING'', ''SENT'',
      ''FAILED'', ''PERMANENT_FAILED'', ''TIMED_OUT'']"

definition New_SignalMessageStatus :: "StatusValue \<Rightarrow> ApiStatus" where
  "New_SignalMessageStatus v = \<lparr>ste_val = v\<rparr>"

definition Status_IsUnknown :: "ApiStatus \<Rightarrow> bool" where
  "Status_IsUnknown e \<longleftrightarrow>
     \<not> (ste_val e = ''PENDING'' \<or> ste_val e = ''SENDING'' \<or>
        ste_val e = ''SENT'' \<or> ste_val e = ''FAILED'' \<or>
        ste_val e = ''PERMANENT_FAILED'' \<or> ste_val e = ''TIMED_OUT'')"

definition Status_Value :: "ApiStatus \<Rightarrow> StatusValue" where
  "Status_Value e = (if Status_IsUnknown e then ''UNKNOWN'' else ste_val e)"

definition Status_String :: "ApiStatus \<Rightarrow> string" where
  "Status_String e = ste_val e"

definition Status_MarshalText :: "ApiStatus \<Rightarrow> string" where
  "Status_MarshalText e = ste_val e"

text \<open>\<open>strings.ToUpper\<close>: byte-wise on ASCII, rune by rune otherwise.\<close>

definition upper_char :: "char \<Rightarrow> char" where
  "upper_char c = (if between 97 122 c then char_of (byte c - 32) else c)"

definition ToUpper :: "'y conjure_lib \<Rightarrow> string \<Rightarrow> string" where
  "ToUpper lib s =
     (if list_all (\<lambda>c. byte c < 128) s then map upper_char s
      else concat (map (\<lambda>r. if length r = 1 \<and> byte (hd r) < 128 then map upper_char r
                            else cl_ToUpper lib (valid_rune r)) (runes s)))"

definition Status_UnmarshalText :: "'y conjure_lib \<Rightarrow> string \<Rightarrow> ApiStatus" where
  "Status_UnmarshalText lib data =
     (let v = ToUpper lib data in
      if v = ''PENDING'' then New_SignalMessageStatus ''PENDING''
      else if v = ''SENDING'' then New_SignalMessageStatus ''SENDING''
      else if v = ''SENT'' then New_SignalMessageStatus ''SENT''
      else if v = ''FAILED'' then New_SignalMessageStatus ''FAILED''
      else if v = ''PERMANENT_FAILED'' then New_SignalMessageStatus ''PERMANENT_FAILED''
      else if v = ''TIMED_OUT'' then New_SignalMessageStatus ''TIMED_OUT''
      else New_SignalMessageStatus v)"

definition status_json :: "ApiStatus \<Rightarrow> json" where
  "status_json e = JStr (Status_MarshalText e)"

definition dec_status :: "'y conjure_lib \<Rightarrow> ApiStatus dec" where
  "dec_status lib = dec_text (\<lambda>s. Inr (Status_UnmarshalText lib s))"

section \<open>Structs\<close>

text \<open>Member functions of an optional list and of a map keyed by statuses. The keys of a map are written
  in the order of their texts; a map is an association list with distinct keys.\<close>

definition strings_json :: "string list \<Rightarrow> json" where
  "strings_json ss = JArr (map JStr ss)"

definition counts_json :: "(ApiStatus \<times> int) list \<Rightarrow> json" where
  "counts_json m = JObj (map (\<lambda>(k, n). (Status_MarshalText k, JInt n)) (sort_key (\<lambda>e. Status_MarshalText (fst e)) m))"

fun counts_members :: "'y conjure_lib \<Rightarrow> (string \<times> json) list \<Rightarrow> (ApiStatus \<times> int) list \<Rightarrow>
    bool \<times> (ApiStatus \<times> int) list" where
  "counts_members lib [] m = (True, m)"
| "counts_members lib ((k, j) # ms) m =
     (let (b, n) = dec_int j 0;
          (b', m') = counts_members lib ms (AList.update (Status_UnmarshalText lib k) n m) in
      (b \<and> b', m'))"

definition dec_counts :: "'y conjure_lib \<Rightarrow> (ApiStatus \<times> int) list dec" where
  "dec_counts lib j old = (case j of
     JNull \<Rightarrow> (True, [])
   | JObj ms \<Rightarrow> counts_members lib ms old
   | _ \<Rightarrow> (False, old))"

subsection \<open>\<open>Attachment\<close>\<close>

record ApiAttachment =
  aa_Bucket :: "string"
  aa_Filename :: "string"
  aa_MimeType :: "string option"
  aa_Size :: "int option"

definition ApiAttachment_zero :: ApiAttachment where
  "ApiAttachment_zero =
     \<lparr>aa_Bucket = '''',
      aa_Filename = '''',
      aa_MimeType = None,
      aa_Size = None\<rparr>"

definition ApiAttachment_json :: "ApiAttachment \<Rightarrow> json" where
  "ApiAttachment_json o' = JObj (
     [(''bucket'', JStr (aa_Bucket o')),
      (''filename'', JStr (aa_Filename o'))] @
     opt_member ''mimeType'' JStr (aa_MimeType o') @
     opt_member ''size'' JInt (aa_Size o'))"

definition ApiAttachment_fields :: "'y conjure_lib \<Rightarrow> ApiAttachment field list" where
  "ApiAttachment_fields lib =
     [field_of ''bucket'' aa_Bucket aa_Bucket_update dec_string,
      field_of ''filename'' aa_Filename aa_Filename_update dec_string,
      field_of ''mimeType'' aa_MimeType aa_MimeType_update (dec_ptr '''' dec_string),
      field_of ''size'' aa_Size aa_Size_update (dec_ptr 0 (dec_safelong lib))]"

definition dec_ApiAttachment :: "'y conjure_lib \<Rightarrow> ApiAttachment dec" where
  "dec_ApiAttachment lib = decode_struct (ApiAttachment_fields lib)"

definition ApiAttachment_MarshalYAML :: "'y conjure_lib \<Rightarrow> ApiAttachment \<Rightarrow> goerr + 'y" where
  "ApiAttachment_MarshalYAML lib o' = to_yaml lib (ApiAttachment_json o')"

definition ApiAttachment_UnmarshalYAML :: "'y conjure_lib \<Rightarrow> ApiAttachment \<Rightarrow> 'y \<Rightarrow> goerr + ApiAttachment" where
  "ApiAttachment_UnmarshalYAML lib o' = of_yaml lib (dec_ApiAttachment lib) o'"

subsection \<open>\<open>CreateSignalMessageRequest\<close>\<close>

record CreateSignalMessageRequest =
  cr_ExternalId :: "string"
  cr_IdempotencyKey :: "string option"
  cr_Recipient :: "string option"
  cr_GroupId :: "string option"
  cr_SenderPhoneNumber :: "string option"
  cr_Content :: "string"
  cr_QuoteResultId :: "string option"
  cr_TimeoutSeconds :: "int option"
  cr_MaxAttempts :: "int option"

definition CreateSignalMessageRequest_zero :: CreateSignalMessageRequest where
  "CreateSignalMessageRequest_zero =
     \<lparr>cr_ExternalId = '''',
      cr_IdempotencyKey = None,
      cr_Recipient = None,
      cr_GroupId = None,
      cr_SenderPhoneNumber = None,
      cr_Content = '''',
      cr_QuoteResultId = None,
      cr_TimeoutSeconds = None,
      cr_MaxAttempts = None\<rparr>"

definition CreateSignalMessageRequest_json :: "CreateSignalMessageRequest \<Rightarrow> json" where
  "CreateSignalMessageRequest_json o' = JObj (
     [(''externalId'', JStr (cr_ExternalId o'))] @
     opt_member ''idempotencyKey'' JStr (cr_IdempotencyKey o') @
     opt_member ''recipient'' JStr (cr_Recipient o') @
     opt_member ''groupId'' JStr (cr_GroupId o') @
     opt_member ''senderPhoneNumber'' JStr (cr_SenderPhoneNumber o') @
     [(''content'', JStr (cr_Content o'))] @
     opt_member ''quoteResultId'' JStr (cr_QuoteResultId o') @
     opt_member ''timeoutSeconds'' JInt (cr_TimeoutSeconds o') @
     opt_member ''maxAttempts'' JInt (cr_MaxAttempts o'))"

definition CreateSignalMessageRequest_fields :: "CreateSignalMessageRequest field list" where
  "CreateSignalMessageRequest_fields =
     [field_of ''externalId'' cr_ExternalId cr_ExternalId_update dec_string,
      field_of ''idempotencyKey'' cr_IdempotencyKey cr_IdempotencyKey_update (dec_ptr '''' dec_string),
      field_of ''recipient'' cr_Recipient cr_Recipient_update (dec_ptr '''' dec_string),
      field_of ''groupId'' cr_GroupId cr_GroupId_update (dec_ptr '''' dec_string),
      field_of ''senderPhoneNumber'' cr_SenderPhoneNumber cr_SenderPhoneNumber_update (dec_ptr '''' dec_string),
      field_of ''content'' cr_Content cr_Content_update dec_string,
      field_of ''quoteResultId'' cr_QuoteResultId cr_QuoteResultId_update (dec_ptr '''' dec_string),
      field_of ''timeoutSeconds'' cr_TimeoutSeconds cr_TimeoutSeconds_update (dec_ptr 0 dec_int),
      field_of ''maxAttempts'' cr_MaxAttempts cr_MaxAttempts_update (dec_ptr 0 dec_int)]"

definition dec_CreateSignalMessageRequest :: "CreateSignalMessageRequest dec" where
  "dec_CreateSignalMessageRequest = decode_struct CreateSignalMessageRequest_fields"

definition CreateSignalMessageRequest_MarshalYAML :: "'y conjure_lib \<Rightarrow> CreateSignalMessageRequest \<Rightarrow> goerr + 'y" where
  "CreateSignalMessageRequest_MarshalYAML lib o' = to_yaml lib (CreateSignalMessageRequest_json o')"

definition CreateSignalMessageRequest_UnmarshalYAML :: "'y conjure_lib \<Rightarrow> CreateSignalMessageRequest \<Rightarrow> 'y \<Rightarrow> goerr + CreateSignalMessageRequest" where
  "CreateSignalMessageRequest_UnmarshalYAML lib o' = of_yaml lib dec_CreateSignalMessageRequest o'"

subsection \<open>\<open>DayStat\<close>\<close>

record DayStat =
  dst_Date :: "string"
  dst_Sent :: "int"
  dst_Failed :: "int"

definition DayStat_zero :: DayStat where
  "DayStat_zero =
     \<lparr>dst_Date = '''',
      dst_Sent = 0,
      dst_Failed = 0\<rparr>"

definition DayStat_json :: "DayStat \<Rightarrow> json" where
  "DayStat_json o' = JObj (
     [(''date'', JStr (dst_Date o')),
      (''sent'', JInt (dst_Sent o')),
      (''failed'', JInt (dst_Failed o'))])"

definition DayStat_fields :: "DayStat field list" where
  "DayStat_fields =
     [field_of ''date'' dst_Date dst_Date_update dec_string,
      field_of ''sent'' dst_Sent dst_Sent_update dec_int,
      field_of ''failed'' dst_Failed dst_Failed_update dec_int]"

definition dec_DayStat :: "DayStat dec" where
  "dec_DayStat = decode_struct DayStat_fields"

definition DayStat_MarshalYAML :: "'y conjure_lib \<Rightarrow> DayStat \<Rightarrow> goerr + 'y" where
  "DayStat_MarshalYAML lib o' = to_yaml lib (DayStat_json o')"

definition DayStat_UnmarshalYAML :: "'y conjure_lib \<Rightarrow> DayStat \<Rightarrow> 'y \<Rightarrow> goerr + DayStat" where
  "DayStat_UnmarshalYAML lib o' = of_yaml lib dec_DayStat o'"

subsection \<open>\<open>InstanceInfo\<close>\<close>

record InstanceInfo =
  ii_Name :: "string"
  ii_SenderPhoneNumber :: "string"

definition InstanceInfo_zero :: InstanceInfo where
  "InstanceInfo_zero =
     \<lparr>ii_Name = '''',
      ii_SenderPhoneNumber = ''''\<rparr>"

definition InstanceInfo_json :: "InstanceInfo \<Rightarrow> json" where
  "InstanceInfo_json o' = JObj (
     [(''name'', JStr (ii_Name o')),
      (''senderPhoneNumber'', JStr (ii_SenderPhoneNumber o'))])"

definition InstanceInfo_fields :: "InstanceInfo field list" where
  "InstanceInfo_fields =
     [field_of ''name'' ii_Name ii_Name_update dec_string,
      field_of ''senderPhoneNumber'' ii_SenderPhoneNumber ii_SenderPhoneNumber_update dec_string]"

definition dec_InstanceInfo :: "InstanceInfo dec" where
  "dec_InstanceInfo = decode_struct InstanceInfo_fields"

definition InstanceInfo_MarshalYAML :: "'y conjure_lib \<Rightarrow> InstanceInfo \<Rightarrow> goerr + 'y" where
  "InstanceInfo_MarshalYAML lib o' = to_yaml lib (InstanceInfo_json o')"

definition InstanceInfo_UnmarshalYAML :: "'y conjure_lib \<Rightarrow> InstanceInfo \<Rightarrow> 'y \<Rightarrow> goerr + InstanceInfo" where
  "InstanceInfo_UnmarshalYAML lib o' = of_yaml lib dec_InstanceInfo o'"

subsection \<open>\<open>SignalGroupInfo\<close>\<close>

record SignalGroupInfo =
  gi_Id :: "string"
  gi_Name :: "string"
  gi_Description :: "string option"
  gi_Members :: "string list option"

definition SignalGroupInfo_zero :: SignalGroupInfo where
  "SignalGroupInfo_zero =
     \<lparr>gi_Id = '''',
      gi_Name = '''',
      gi_Description = None,
      gi_Members = None\<rparr>"

definition SignalGroupInfo_json :: "SignalGroupInfo \<Rightarrow> json" where
  "SignalGroupInfo_json o' = JObj (
     [(''id'', JStr (gi_Id o')),
      (''name'', JStr (gi_Name o'))] @
     opt_member ''description'' JStr (gi_Description o') @
     opt_member ''members'' strings_json (gi_Members o'))"

definition SignalGroupInfo_fields :: "SignalGroupInfo field list" where
  "SignalGroupInfo_fields =
     [field_of ''id'' gi_Id gi_Id_update dec_string,
      field_of ''name'' gi_Name gi_Name_update dec_string,
      field_of ''description'' gi_Description gi_Description_update (dec_ptr '''' dec_string),
      field_of ''members'' gi_Members gi_Members_update (dec_ptr [] (dec_slice '''' dec_string))]"

definition dec_SignalGroupInfo :: "SignalGroupInfo dec" where
  "dec_SignalGroupInfo = decode_struct SignalGroupInfo_fields"

definition SignalGroupInfo_MarshalYAML :: "'y conjure_lib \<Rightarrow> SignalGroupInfo \<Rightarrow> goerr + 'y" where
  "SignalGroupInfo_MarshalYAML lib o' = to_yaml lib (SignalGroupInfo_json o')"

definition SignalGroupInfo_UnmarshalYAML :: "'y conjure_lib \<Rightarrow> SignalGroupInfo \<Rightarrow> 'y \<Rightarrow> goerr + SignalGroupInfo" where
  "SignalGroupInfo_UnmarshalYAML lib o' = of_yaml lib dec_SignalGroupInfo o'"

subsection \<open>\<open>SignalMessageAccepted\<close>\<close>

record SignalMessageAccepted =
  ac_Id :: "uuid"

definition SignalMessageAccepted_zero :: SignalMessageAccepted where
  "SignalMessageAccepted_zero =
     \<lparr>ac_Id = 0\<rparr>"

definition SignalMessageAccepted_json :: "'y conjure_lib \<Rightarrow> SignalMessageAccepted \<Rightarrow> json" where
  "SignalMessageAccepted_json lib o' = JObj (
     [(''id'', uuid_json lib (ac_Id o'))])"

definition SignalMessageAccepted_fields :: "'y conjure_lib \<Rightarrow> SignalMessageAccepted field list" where
  "SignalMessageAccepted_fields lib =
     [field_of ''id'' ac_Id ac_Id_update (dec_text (cl_ParseUUID lib))]"

definition dec_SignalMessageAccepted :: "'y conjure_lib \<Rightarrow> SignalMessageAccepted dec" where
  "dec_SignalMessageAccepted lib = decode_struct (SignalMessageAccepted_fields lib)"

definition SignalMessageAccepted_MarshalYAML :: "'y conjure_lib \<Rightarrow> SignalMessageAccepted \<Rightarrow> goerr + 'y" where
  "SignalMessageAccepted_MarshalYAML lib o' = to_yaml lib (SignalMessageAccepted_json lib o')"

definition SignalMessageAccepted_UnmarshalYAML :: "'y conjure_lib \<Rightarrow> SignalMessageAccepted \<Rightarrow> 'y \<Rightarrow> goerr + SignalMessageAccepted" where
  "SignalMessageAccepted_UnmarshalYAML lib o' = of_yaml lib (dec_SignalMessageAccepted lib) o'"

subsection \<open>\<open>SignalMessageInfo\<close>\<close>

record SignalMessageInfo =
  info_Id :: "uuid"
  info_ExternalId :: "string"
  info_IdempotencyKey :: "string option"
  info_Recipient :: "string option"
  info_GroupId :: "string option"
  info_SenderPhoneNumber :: "string"
  info_Content :: "string"
  info_Attachments :: "ApiAttachment list"
  info_Attempts :: "int"
  info_MaxAttempts :: "int"
  info_NextAttemptAt :: "gotime"
  info_TimeoutAt :: "gotime option"
  info_Status :: "ApiStatus"
  info_LastError :: "string option"
  info_ResultId :: "string option"
  info_QuoteResultId :: "string option"
  info_CorrelationId :: "string"
  info_CreatedAt :: "gotime"
  info_ModifiedAt :: "gotime"

definition SignalMessageInfo_zero :: SignalMessageInfo where
  "SignalMessageInfo_zero =
     \<lparr>info_Id = 0,
      info_ExternalId = '''',
      info_IdempotencyKey = None,
      info_Recipient = None,
      info_GroupId = None,
      info_SenderPhoneNumber = '''',
      info_Content = '''',
      info_Attachments = [],
      info_Attempts = 0,
      info_MaxAttempts = 0,
      info_NextAttemptAt = 0,
      info_TimeoutAt = None,
      info_Status = \<lparr>ste_val = ''''\<rparr>,
      info_LastError = None,
      info_ResultId = None,
      info_QuoteResultId = None,
      info_CorrelationId = '''',
      info_CreatedAt = 0,
      info_ModifiedAt = 0\<rparr>"

definition SignalMessageInfo_json :: "'y conjure_lib \<Rightarrow> SignalMessageInfo \<Rightarrow> json" where
  "SignalMessageInfo_json lib o' = JObj (
     [(''id'', uuid_json lib (info_Id o')),
      (''externalId'', JStr (info_ExternalId o'))] @
     opt_member ''idempotencyKey'' JStr (info_IdempotencyKey o') @
     opt_member ''recipient'' JStr (info_Recipient o') @
     opt_member ''groupId'' JStr (info_GroupId o') @
     [(''senderPhoneNumber'', JStr (info_SenderPhoneNumber o')),
      (''content'', JStr (info_Content o')),
      (''attachments'', JArr (map ApiAttachment_json (info_Attachments o'))),
      (''attempts'', JInt (info_Attempts o')),
      (''maxAttempts'', JInt (info_MaxAttempts o')),
      (''nextAttemptAt'', time_json lib (info_NextAttemptAt o'))] @
     opt_member ''timeoutAt'' (time_json lib) (info_TimeoutAt o') @
     [(''status'', status_json (info_Status o'))] @
     opt_member ''lastError'' JStr (info_LastError o') @
     opt_member ''resultId'' JStr (info_ResultId o') @
     opt_member ''quoteResultId'' JStr (info_QuoteResultId o') @
     [(''correlationId'', JStr (info_CorrelationId o')),
      (''createdAt'', time_json lib (info_CreatedAt o')),
      (''modifiedAt'', time_json lib (info_ModifiedAt o'))])"

definition SignalMessageInfo_fields :: "'y conjure_lib \<Rightarrow> SignalMessageInfo field list" where
  "SignalMessageInfo_fields lib =
     [field_of ''id'' info_Id info_Id_update (dec_text (cl_ParseUUID lib)),
      field_of ''externalId'' info_ExternalId info_ExternalId_update dec_string,
      field_of ''idempotencyKey'' info_IdempotencyKey info_IdempotencyKey_update (dec_ptr '''' dec_string),
      field_of ''recipient'' info_Recipient info_Recipient_update (dec_ptr '''' dec_string),
      field_of ''groupId'' info_GroupId info_GroupId_update (dec_ptr '''' dec_string),
      field_of ''senderPhoneNumber'' info_SenderPhoneNumber info_SenderPhoneNumber_update dec_string,
      field_of ''content'' info_Content info_Content_update dec_string,
      field_of ''attachments'' info_Attachments info_Attachments_update (dec_slice ApiAttachment_zero (dec_ApiAttachment lib)),
      field_of ''attempts'' info_Attempts info_Attempts_update dec_int,
      field_of ''maxAttempts'' info_MaxAttempts info_MaxAttempts_update dec_int,
      field_of ''nextAttemptAt'' info_NextAttemptAt info_NextAttemptAt_update (dec_text (cl_ParseDateTime lib)),
      field_of ''timeoutAt'' info_TimeoutAt info_TimeoutAt_update (dec_ptr 0 (dec_text (cl_ParseDateTime lib))),
      field_of ''status'' info_Status info_Status_update (dec_status lib),
      field_of ''lastError'' info_LastError info_LastError_update (dec_ptr '''' dec_string),
      field_of ''resultId'' info_ResultId info_ResultId_update (dec_ptr '''' dec_string),
      field_of ''quoteResultId'' info_QuoteResultId info_QuoteResultId_update (dec_ptr '''' dec_string),
      field_of ''correlationId'' info_CorrelationId info_CorrelationId_update dec_string,
      field_of ''createdAt'' info_CreatedAt info_CreatedAt_update (dec_text (cl_ParseDateTime lib)),
      field_of ''modifiedAt'' info_ModifiedAt info_ModifiedAt_update (dec_text (cl_ParseDateTime lib))]"

text \<open>The method decodes into a fresh value and assigns it when nothing went wrong. A nil slice or map
  is an empty list here, so the replacement by an empty one is the identity.\<close>

definition dec_SignalMessageInfo :: "'y conjure_lib \<Rightarrow> SignalMessageInfo dec" where
  "dec_SignalMessageInfo lib j old =
     (let (b, raw) = decode_struct (SignalMessageInfo_fields lib) j SignalMessageInfo_zero in (b, if b then raw else old))"

definition SignalMessageInfo_MarshalJSON :: "'y conjure_lib \<Rightarrow> SignalMessageInfo \<Rightarrow> goerr + string" where
  "SignalMessageInfo_MarshalJSON lib o' = Inr (cl_Marshal lib (SignalMessageInfo_json lib o'))"

definition SignalMessageInfo_UnmarshalJSON :: "'y conjure_lib \<Rightarrow> string \<Rightarrow> goerr + SignalMessageInfo" where
  "SignalMessageInfo_UnmarshalJSON lib data = unmarshal_into lib (decode_struct (SignalMessageInfo_fields lib)) SignalMessageInfo_zero data"

definition SignalMessageInfo_MarshalYAML :: "'y conjure_lib \<Rightarrow> SignalMessageInfo \<Rightarrow> goerr + 'y" where
  "SignalMessageInfo_MarshalYAML lib o' = to_yaml lib (SignalMessageInfo_json lib o')"

definition SignalMessageInfo_UnmarshalYAML :: "'y conjure_lib \<Rightarrow> SignalMessageInfo \<Rightarrow> 'y \<Rightarrow> goerr + SignalMessageInfo" where
  "SignalMessageInfo_UnmarshalYAML lib o' = of_yaml lib (dec_SignalMessageInfo lib) o'"

subsection \<open>\<open>SignalMessageList\<close>\<close>

record SignalMessageList =
  lst_Items :: "SignalMessageInfo list"
  lst_Total :: "int"

definition SignalMessageList_zero :: SignalMessageList where
  "SignalMessageList_zero =
     \<lparr>lst_Items = [],
      lst_Total = 0\<rparr>"

definition SignalMessageList_json :: "'y conjure_lib \<Rightarrow> SignalMessageList \<Rightarrow> json" where
  "SignalMessageList_json lib o' = JObj (
     [(''items'', JArr (map (SignalMessageInfo_json lib) (lst_Items o'))),
      (''total'', JInt (lst_Total o'))])"

definition SignalMessageList_fields :: "'y conjure_lib \<Rightarrow> SignalMessageList field list" where
  "SignalMessageList_fields lib =
     [field_of ''items'' lst_Items lst_Items_update (dec_slice SignalMessageInfo_zero (dec_SignalMessageInfo lib)),
      field_of ''total'' lst_Total lst_Total_update dec_int]"

text \<open>The method decodes into a fresh value and assigns it when nothing went wrong. A nil slice or map
  is an empty list here, so the replacement by an empty one is the identity.\<close>

definition dec_SignalMessageList :: "'y conjure_lib \<Rightarrow> SignalMessageList dec" where
  "dec_SignalMessageList lib j old =
     (let (b, raw) = decode_struct (SignalMessageList_fields lib) j SignalMessageList_zero in (b, if b then raw else old))"

definition SignalMessageList_MarshalJSON :: "'y conjure_lib \<Rightarrow> SignalMessageList \<Rightarrow> goerr + string" where
  "SignalMessageList_MarshalJSON lib o' = Inr (cl_Marshal lib (SignalMessageList_json lib o'))"

definition SignalMessageList_UnmarshalJSON :: "'y conjure_lib \<Rightarrow> string \<Rightarrow> goerr + SignalMessageList" where
  "SignalMessageList_UnmarshalJSON lib data = unmarshal_into lib (decode_struct (SignalMessageList_fields lib)) SignalMessageList_zero data"

definition SignalMessageList_MarshalYAML :: "'y conjure_lib \<Rightarrow> SignalMessageList \<Rightarrow> goerr + 'y" where
  "SignalMessageList_MarshalYAML lib o' = to_yaml lib (SignalMessageList_json lib o')"

definition SignalMessageList_UnmarshalYAML :: "'y conjure_lib \<Rightarrow> SignalMessageList \<Rightarrow> 'y \<Rightarrow> goerr + SignalMessageList" where
  "SignalMessageList_UnmarshalYAML lib o' = of_yaml lib (dec_SignalMessageList lib) o'"

subsection \<open>\<open>SignalMessageStats\<close>\<close>

record SignalMessageStats =
  sts_Counts :: "(ApiStatus \<times> int) list"
  sts_PerDay :: "DayStat list"

definition SignalMessageStats_zero :: SignalMessageStats where
  "SignalMessageStats_zero =
     \<lparr>sts_Counts = [],
      sts_PerDay = []\<rparr>"

definition SignalMessageStats_json :: "SignalMessageStats \<Rightarrow> json" where
  "SignalMessageStats_json o' = JObj (
     [(''counts'', counts_json (sts_Counts o')),
      (''perDay'', JArr (map DayStat_json (sts_PerDay o')))])"

definition SignalMessageStats_fields :: "'y conjure_lib \<Rightarrow> SignalMessageStats field list" where
  "SignalMessageStats_fields lib =
     [field_of ''counts'' sts_Counts sts_Counts_update (dec_counts lib),
      field_of ''perDay'' sts_PerDay sts_PerDay_update (dec_slice DayStat_zero dec_DayStat)]"

text \<open>The method decodes into a fresh value and assigns it when nothing went wrong. A nil slice or map
  is an empty list here, so the replacement by an empty one is the identity.\<close>

definition dec_SignalMessageStats :: "'y conjure_lib \<Rightarrow> SignalMessageStats dec" where
  "dec_SignalMessageStats lib j old =
     (let (b, raw) = decode_struct (SignalMessageStats_fields lib) j SignalMessageStats_zero in (b, if b then raw else old))"

definition SignalMessageStats_MarshalJSON :: "'y conjure_lib \<Rightarrow> SignalMessageStats \<Rightarrow> goerr + string" where
  "SignalMessageStats_MarshalJSON lib o' = Inr (cl_Marshal lib (SignalMessageStats_json o'))"

definition SignalMessageStats_UnmarshalJSON :: "'y conjure_lib \<Rightarrow> string \<Rightarrow> goerr + SignalMessageStats" where
  "SignalMessageStats_UnmarshalJSON lib data = unmarshal_into lib (decode_struct (SignalMessageStats_fields lib)) SignalMessageStats_zero data"

definition SignalMessageStats_MarshalYAML :: "'y conjure_lib \<Rightarrow> SignalMessageStats \<Rightarrow> goerr + 'y" where
  "SignalMessageStats_MarshalYAML lib o' = to_yaml lib (SignalMessageStats_json o')"

definition SignalMessageStats_UnmarshalYAML :: "'y conjure_lib \<Rightarrow> SignalMessageStats \<Rightarrow> 'y \<Rightarrow> goerr + SignalMessageStats" where
  "SignalMessageStats_UnmarshalYAML lib o' = of_yaml lib (dec_SignalMessageStats lib) o'"

subsection \<open>\<open>UpdateSignalMessageRequest\<close>\<close>

record UpdateSignalMessageRequest =
  ur_Status :: "ApiStatus"

definition UpdateSignalMessageRequest_zero :: UpdateSignalMessageRequest where
  "UpdateSignalMessageRequest_zero =
     \<lparr>ur_Status = \<lparr>ste_val = ''''\<rparr>\<rparr>"

definition UpdateSignalMessageRequest_json :: "UpdateSignalMessageRequest \<Rightarrow> json" where
  "UpdateSignalMessageRequest_json o' = JObj (
     [(''status'', status_json (ur_Status o'))])"

definition UpdateSignalMessageRequest_fields :: "'y conjure_lib \<Rightarrow> UpdateSignalMessageRequest field list" where
  "UpdateSignalMessageRequest_fields lib =
     [field_of ''status'' ur_Status ur_Status_update (dec_status lib)]"

definition dec_UpdateSignalMessageRequest :: "'y conjure_lib \<Rightarrow> UpdateSignalMessageRequest dec" where
  "dec_UpdateSignalMessageRequest lib = decode_struct (UpdateSignalMessageRequest_fields lib)"

definition UpdateSignalMessageRequest_MarshalYAML :: "'y conjure_lib \<Rightarrow> UpdateSignalMessageRequest \<Rightarrow> goerr + 'y" where
  "UpdateSignalMessageRequest_MarshalYAML lib o' = to_yaml lib (UpdateSignalMessageRequest_json o')"

definition UpdateSignalMessageRequest_UnmarshalYAML :: "'y conjure_lib \<Rightarrow> UpdateSignalMessageRequest \<Rightarrow> 'y \<Rightarrow> goerr + UpdateSignalMessageRequest" where
  "UpdateSignalMessageRequest_UnmarshalYAML lib o' = of_yaml lib (dec_UpdateSignalMessageRequest lib) o'"

section \<open>The codecs undo each other\<close>

lemma status_known:
  "\<not> Status_IsUnknown e \<Longrightarrow> Status_UnmarshalText lib (ste_val e) = e \<and> utf8_valid (ste_val e)"
  by (cases e) (auto simp: Status_IsUnknown_def Status_UnmarshalText_def ToUpper_def
      New_SignalMessageStatus_def upper_char_def between_def utf8_valid_ascii)

definition opt_all :: "('a \<Rightarrow> bool) \<Rightarrow> 'a option \<Rightarrow> bool" where
  "opt_all P v = (case v of None \<Rightarrow> True | Some x \<Rightarrow> P x)"

lemma opt_all_iff [simp]: "opt_all P v \<longleftrightarrow> (\<forall>x. v = Some x \<longrightarrow> P x)"
  by (cases v) (simp_all add: opt_all_def)

text \<open>The values the wire carries unchanged: well-formed texts, integers and instants in range, known
  statuses, and a map listed by its keys.\<close>

definition ApiAttachment_ok :: "ApiAttachment \<Rightarrow> bool" where
  "ApiAttachment_ok a \<longleftrightarrow> utf8_valid (aa_Bucket a) \<and> utf8_valid (aa_Filename a) \<and>
     opt_all utf8_valid (aa_MimeType a) \<and> opt_all safe_long (aa_Size a)"

definition CreateSignalMessageRequest_ok :: "CreateSignalMessageRequest \<Rightarrow> bool" where
  "CreateSignalMessageRequest_ok r \<longleftrightarrow> utf8_valid (cr_ExternalId r) \<and> opt_all utf8_valid (cr_IdempotencyKey r) \<and>
     opt_all utf8_valid (cr_Recipient r) \<and> opt_all utf8_valid (cr_GroupId r) \<and>
     opt_all utf8_valid (cr_SenderPhoneNumber r) \<and> utf8_valid (cr_Content r) \<and>
     opt_all utf8_valid (cr_QuoteResultId r) \<and> opt_all in_int64 (cr_TimeoutSeconds r) \<and>
     opt_all in_int64 (cr_MaxAttempts r)"

definition DayStat_ok :: "DayStat \<Rightarrow> bool" where
  "DayStat_ok d \<longleftrightarrow> utf8_valid (dst_Date d) \<and> in_int64 (dst_Sent d) \<and> in_int64 (dst_Failed d)"

definition InstanceInfo_ok :: "InstanceInfo \<Rightarrow> bool" where
  "InstanceInfo_ok i \<longleftrightarrow> utf8_valid (ii_Name i) \<and> utf8_valid (ii_SenderPhoneNumber i)"

definition SignalGroupInfo_ok :: "SignalGroupInfo \<Rightarrow> bool" where
  "SignalGroupInfo_ok g \<longleftrightarrow> utf8_valid (gi_Id g) \<and> utf8_valid (gi_Name g) \<and>
     opt_all utf8_valid (gi_Description g) \<and> opt_all (list_all utf8_valid) (gi_Members g)"

definition SignalMessageInfo_ok :: "SignalMessageInfo \<Rightarrow> bool" where
  "SignalMessageInfo_ok m \<longleftrightarrow> utf8_valid (info_ExternalId m) \<and> opt_all utf8_valid (info_IdempotencyKey m) \<and>
     opt_all utf8_valid (info_Recipient m) \<and> opt_all utf8_valid (info_GroupId m) \<and>
     utf8_valid (info_SenderPhoneNumber m) \<and> utf8_valid (info_Content m) \<and>
     list_all ApiAttachment_ok (info_Attachments m) \<and> in_int64 (info_Attempts m) \<and> in_int64 (info_MaxAttempts m) \<and>
     wire_time (info_NextAttemptAt m) \<and> opt_all wire_time (info_TimeoutAt m) \<and> \<not> Status_IsUnknown (info_Status m) \<and>
     opt_all utf8_valid (info_LastError m) \<and> opt_all utf8_valid (info_ResultId m) \<and>
     opt_all utf8_valid (info_QuoteResultId m) \<and> utf8_valid (info_CorrelationId m) \<and>
     wire_time (info_CreatedAt m) \<and> wire_time (info_ModifiedAt m)"

definition SignalMessageList_ok :: "SignalMessageList \<Rightarrow> bool" where
  "SignalMessageList_ok l \<longleftrightarrow> list_all SignalMessageInfo_ok (lst_Items l) \<and> in_int64 (lst_Total l)"

definition counts_ok :: "(ApiStatus \<times> int) list \<Rightarrow> bool" where
  "counts_ok m \<longleftrightarrow> sorted (map (\<lambda>e. ste_val (fst e)) m) \<and> distinct (map fst m) \<and>
     list_all (\<lambda>e. \<not> Status_IsUnknown (fst e) \<and> in_int64 (snd e)) m"

definition SignalMessageStats_ok :: "SignalMessageStats \<Rightarrow> bool" where
  "SignalMessageStats_ok s \<longleftrightarrow> counts_ok (sts_Counts s) \<and> list_all DayStat_ok (sts_PerDay s)"

definition UpdateSignalMessageRequest_ok :: "UpdateSignalMessageRequest \<Rightarrow> bool" where
  "UpdateSignalMessageRequest_ok r \<longleftrightarrow> \<not> Status_IsUnknown (ur_Status r)"

lemma update_new: "k \<notin> fst ` set m \<Longrightarrow> AList.update k v m = m @ [(k, v)]"
  by (induction m) auto

lemma counts_members_list:
  assumes "list_all (\<lambda>e. \<not> Status_IsUnknown (fst e) \<and> in_int64 (snd e)) m" and "distinct (map fst (acc @ m))"
  shows "counts_members lib (map (\<lambda>(k, n). (Status_MarshalText k, JInt n)) m) acc = (True, acc @ m)"
  using assms
proof (induction m arbitrary: acc)
  case (Cons e m)
  then show ?case
    using status_known [of "fst e" lib] Cons.IH [of "acc @ [e]"]
    by (cases e) (auto simp: update_new Status_MarshalText_def)
qed simp

lemma counts_reads_back: "counts_ok m \<Longrightarrow> dec_counts lib (counts_json m) [] = (True, m)"
  using counts_members_list [of m "[]" lib]
  by (simp add: counts_ok_def dec_counts_def counts_json_def sort_key_id_if_sorted Status_MarshalText_def)

lemma counts_writes: "counts_ok m \<Longrightarrow> printable (counts_json m)"
  by (auto simp: counts_ok_def counts_json_def list_all_iff Status_MarshalText_def sort_key_id_if_sorted
      dest!: bspec intro: status_known [THEN conjunct2])

lemmas wire_tables = ApiAttachment_fields_def CreateSignalMessageRequest_fields_def DayStat_fields_def
  InstanceInfo_fields_def SignalGroupInfo_fields_def SignalMessageAccepted_fields_def
  SignalMessageInfo_fields_def SignalMessageList_fields_def SignalMessageStats_fields_def
  UpdateSignalMessageRequest_fields_def field_of_setter find_field_def

interpretation day: codec DayStat_json dec_DayStat DayStat_zero DayStat_ok
  by unfold_locales
    (auto simp: DayStat_json_def dec_DayStat_def DayStat_zero_def DayStat_ok_def wire_tables utf8_valid_ascii)

interpretation instance_info: codec InstanceInfo_json dec_InstanceInfo InstanceInfo_zero InstanceInfo_ok
  by unfold_locales
    (auto simp: InstanceInfo_json_def dec_InstanceInfo_def InstanceInfo_zero_def InstanceInfo_ok_def wire_tables
      utf8_valid_ascii)

interpretation group_info: codec SignalGroupInfo_json dec_SignalGroupInfo SignalGroupInfo_zero SignalGroupInfo_ok
  by unfold_locales
    (auto simp: SignalGroupInfo_json_def dec_SignalGroupInfo_def SignalGroupInfo_zero_def SignalGroupInfo_ok_def
      wire_tables utf8_valid_ascii strings_json_def str.elements list_all_iff)

interpretation create_request: codec CreateSignalMessageRequest_json dec_CreateSignalMessageRequest
  CreateSignalMessageRequest_zero CreateSignalMessageRequest_ok
  by unfold_locales
    (auto simp: CreateSignalMessageRequest_json_def dec_CreateSignalMessageRequest_def
      CreateSignalMessageRequest_zero_def CreateSignalMessageRequest_ok_def wire_tables utf8_valid_ascii)

context conjure_runtime begin

lemma status_reads_back: "\<not> Status_IsUnknown e \<Longrightarrow> dec_status lib (status_json e) old = (True, e)"
  by (simp add: dec_status_def status_json_def dec_text_def Status_MarshalText_def status_known)

lemma status_writes [simp]:
  "\<not> Status_IsUnknown e \<Longrightarrow> printable (status_json e)" "json_depth (status_json e) = 0" "status_json e \<noteq> JNull"
  by (simp_all add: status_json_def Status_MarshalText_def status_known)

sublocale attachment: codec ApiAttachment_json "dec_ApiAttachment lib" ApiAttachment_zero ApiAttachment_ok
  by unfold_locales
    (auto simp: ApiAttachment_json_def dec_ApiAttachment_def ApiAttachment_zero_def ApiAttachment_ok_def wire_tables
      utf8_valid_ascii)

sublocale accepted: codec "SignalMessageAccepted_json lib" "dec_SignalMessageAccepted lib"
  SignalMessageAccepted_zero "\<lambda>a. True"
  by unfold_locales
    (auto simp: SignalMessageAccepted_json_def dec_SignalMessageAccepted_def SignalMessageAccepted_zero_def
      wire_tables utf8_valid_ascii)

sublocale update_request: codec UpdateSignalMessageRequest_json "dec_UpdateSignalMessageRequest lib"
  UpdateSignalMessageRequest_zero UpdateSignalMessageRequest_ok
  by unfold_locales
    (auto simp: UpdateSignalMessageRequest_json_def dec_UpdateSignalMessageRequest_def
      UpdateSignalMessageRequest_zero_def UpdateSignalMessageRequest_ok_def wire_tables utf8_valid_ascii
      status_reads_back)

lemma info_fields_read:
  assumes "SignalMessageInfo_ok m"
  shows "decode_struct (SignalMessageInfo_fields lib) (SignalMessageInfo_json lib m) SignalMessageInfo_zero = (True, m)"
  using assms
  by (simp add: SignalMessageInfo_json_def SignalMessageInfo_zero_def SignalMessageInfo_ok_def wire_tables
      attachment.elements status_reads_back)

lemma info_depth: "json_depth (SignalMessageInfo_json lib m) \<le> 10"
proof -
  have "json_depth (ApiAttachment_json x) \<le> 8" for x
    by (simp add: ApiAttachment_json_def) auto
  then show ?thesis
    by (simp add: SignalMessageInfo_json_def) auto
qed

sublocale message_info: codec "SignalMessageInfo_json lib" "dec_SignalMessageInfo lib"
  SignalMessageInfo_zero SignalMessageInfo_ok
proof unfold_locales
  fix m
  show "json_depth (SignalMessageInfo_json lib m) \<le> 20"
    by (rule order_trans [OF info_depth]) simp
  show "dec_SignalMessageInfo lib (SignalMessageInfo_json lib m) SignalMessageInfo_zero = (True, m)"
    if "SignalMessageInfo_ok m"
    using info_fields_read [OF that] by (simp add: dec_SignalMessageInfo_def)
  show "printable (SignalMessageInfo_json lib m)" if "SignalMessageInfo_ok m"
    using that by (auto simp: SignalMessageInfo_json_def SignalMessageInfo_ok_def utf8_valid_ascii list_all_iff
        attachment.writes)
  show "SignalMessageInfo_json lib m \<noteq> JNull"
    by (simp add: SignalMessageInfo_json_def)
qed

lemma list_fields_read:
  assumes "SignalMessageList_ok l"
  shows "decode_struct (SignalMessageList_fields lib) (SignalMessageList_json lib l) SignalMessageList_zero = (True, l)"
  using assms
  by (simp add: SignalMessageList_json_def SignalMessageList_zero_def SignalMessageList_ok_def wire_tables
      message_info.elements)

sublocale message_list: codec "SignalMessageList_json lib" "dec_SignalMessageList lib"
  SignalMessageList_zero SignalMessageList_ok
proof unfold_locales
  fix l
  show "json_depth (SignalMessageList_json lib l) \<le> 20"
    by (auto simp: SignalMessageList_json_def intro: order_trans [OF info_depth])
  show "dec_SignalMessageList lib (SignalMessageList_json lib l) SignalMessageList_zero = (True, l)"
    if "SignalMessageList_ok l"
    using list_fields_read [OF that] by (simp add: dec_SignalMessageList_def)
  show "printable (SignalMessageList_json lib l)" if "SignalMessageList_ok l"
    using that by (auto simp: SignalMessageList_json_def SignalMessageList_ok_def utf8_valid_ascii list_all_iff
        message_info.writes)
  show "SignalMessageList_json lib l \<noteq> JNull"
    by (simp add: SignalMessageList_json_def)
qed

lemma stats_fields_read:
  assumes "SignalMessageStats_ok s"
  shows "decode_struct (SignalMessageStats_fields lib) (SignalMessageStats_json s) SignalMessageStats_zero = (True, s)"
  using assms
  by (simp add: SignalMessageStats_json_def SignalMessageStats_zero_def SignalMessageStats_ok_def wire_tables
      day.elements counts_reads_back)

sublocale message_stats: codec SignalMessageStats_json "dec_SignalMessageStats lib"
  SignalMessageStats_zero SignalMessageStats_ok
proof unfold_locales
  fix s
  have "json_depth (DayStat_json d) \<le> 18" for d
    by (simp add: DayStat_json_def)
  then show "json_depth (SignalMessageStats_json s) \<le> 20"
    by (auto simp: SignalMessageStats_json_def counts_json_def)
  show "dec_SignalMessageStats lib (SignalMessageStats_json s) SignalMessageStats_zero = (True, s)"
    if "SignalMessageStats_ok s"
    using stats_fields_read [OF that] by (simp add: dec_SignalMessageStats_def)
  show "printable (SignalMessageStats_json s)" if "SignalMessageStats_ok s"
    using that by (auto simp: SignalMessageStats_json_def SignalMessageStats_ok_def utf8_valid_ascii list_all_iff
        day.writes counts_writes)
  show "SignalMessageStats_json s \<noteq> JNull"
    by (simp add: SignalMessageStats_json_def)
qed

lemmas list_roundtrip = message_list.library_roundtrip [OF laws]
lemmas stats_roundtrip = message_stats.library_roundtrip [OF laws]
lemmas update_roundtrip = update_request.library_roundtrip [OF laws]
lemmas accepted_roundtrip = accepted.library_roundtrip [OF laws]
lemmas info_roundtrip = message_info.library_roundtrip [OF laws]

end

text \<open>A library that obeys the laws: decimal texts, and the JSON of theory \<open>Json\<close>.\<close>

definition text_lib :: "string conjure_lib" where
  "text_lib =
     \<lparr>cl_UUIDString = (\<lambda>u. digits (unat u)), cl_ParseUUID = (\<lambda>s. Inr (of_nat (digits_value 0 s))),
      cl_DateTimeString = (\<lambda>t. digits (nat t)), cl_ParseDateTime = (\<lambda>s. Inr (int (digits_value 0 s))),
      cl_NewSafeLong = (\<lambda>i. if safe_long i then Inr i else Inl (Opaque ''not a safe long'')),
      cl_Marshal = json_print,
      cl_Unmarshal = (\<lambda>s. case json_parse s of None \<Rightarrow> Inl (Opaque ''syntax'') | Some j \<Rightarrow> Inr j),
      cl_JSONtoYAMLMapSlice = Inr, cl_UnmarshalerToJSONBytes = Inr, cl_ToUpper = (\<lambda>r. r),
      cl_ContentType = ''application/json''\<rparr>"

lemma digits_ascii: "list_all (\<lambda>c. byte c < 128) (digits n)"
  using digits_digits [of n] by (auto simp: list_all_iff digit_def between_def byte_def)

lemma digits_no_slash: "CHR ''/'' \<notin> set (digits n)"
  using digits_digits [of n] by (auto simp: list_all_iff digit_def between_def byte_def)

interpretation ascii: conjure_runtime text_lib
  by unfold_locales
    (auto simp: conjure_laws_def text_lib_def digits_digits digits_ascii digits_no_slash wire_time_def json_roundtrip split: if_splits)

section \<open>Round trips\<close>


definition sample_info :: SignalMessageInfo where
  "sample_info = SignalMessageInfo_zero
     \<lparr>info_Id := 7, info_ExternalId := ''e'', info_Recipient := Some ''+1'', info_Content := ''hi'',
      info_Attachments := [\<lparr>aa_Bucket = ''b'', aa_Filename = ''f'', aa_MimeType = None, aa_Size = Some 5\<rparr>],
      info_TimeoutAt := Some 9, info_Status := \<lparr>ste_val = ''SENT''\<rparr>\<rparr>"


end
