(* ===== verification/ApiErrors.thy ===== *)
theory ApiErrors
  imports Api
begin

text \<open>
  The generated error types, \<open>internal/generated/signalium/api/errors.conjure.go\<close> and the registry of
  \<open>internal/generated/internal/conjureerrors/error_registry.conjure.go\<close>: per type its parameters with
  their JSON and YAML, its constructors, and its methods. The seven types have the same shape, so their
  methods are instances of the definitions of the first section; \<open>error_lib\<close> is what they call of the
  Conjure error library and of \<open>werror\<close>.
\<close>

section \<open>The shape of an error type\<close>

text \<open>The error codes the types use, and the parameters of an error as the logging library sees them.\<close>

datatype ErrorCode = InvalidArgument | NotFound | Conflict | Internal | CustomServer

datatype pvalue = PString string | PInt int | PUUID uuid

type_synonym params = "string \<rightharpoonup> pvalue"

type_synonym StackTrace = "string list"

text \<open>The accessors \<open>InstanceID\<close>, \<open>Cause\<close> and \<open>StackTrace\<close> are the selectors of the record.\<close>

record 'p conj_error =
  ce_errorInstanceID :: uuid
  ce_params :: 'p
  ce_cause :: "goerr option"
  ce_stack :: StackTrace

text \<open>The document of a \<open>SerializableError\<close> and its reader (name, instance and raw parameters), the
  parameters \<open>werror\<close> collects along the causes of an error, and the search for a Conjure error in the
  chain of causes.\<close>

record error_lib =
  el_SerializableError :: "ErrorCode \<Rightarrow> string \<Rightarrow> uuid \<Rightarrow> json \<Rightarrow> json"
  el_ReadSerializableError :: "json \<Rightarrow> goerr + (string \<times> uuid \<times> json option)"
  el_ParamsFromError :: "goerr option \<Rightarrow> params \<times> params"
  el_GetConjureError :: "goerr \<Rightarrow> conjerr option"

definition error_text :: "'y conjure_lib \<Rightarrow> string \<Rightarrow> 'p conj_error \<Rightarrow> string" where
  "error_text lib message e = message @ '' ('' @ cl_UUIDString lib (ce_errorInstanceID e) @ '')''"

text \<open>The own parameters fill in what the causes have not set.\<close>

definition merge_params :: "params \<Rightarrow> params \<Rightarrow> params" where
  "merge_params causes own = own ++ causes"

definition instance_params :: "string \<Rightarrow> 'p conj_error \<Rightarrow> params" where
  "instance_params name e = [''errorInstanceId'' \<mapsto> PUUID (ce_errorInstanceID e), ''errorName'' \<mapsto> PString name]"

definition marshal_error ::
  "'y conjure_lib \<Rightarrow> error_lib \<Rightarrow> ErrorCode \<Rightarrow> string \<Rightarrow> ('p \<Rightarrow> json) \<Rightarrow> 'p conj_error \<Rightarrow> goerr + string" where
  "marshal_error lib el code name enc e =
     Inr (cl_Marshal lib (el_SerializableError el code name (ce_errorInstanceID e) (enc (ce_params e))))"

definition unmarshal_error ::
  "'y conjure_lib \<Rightarrow> error_lib \<Rightarrow> 'p dec \<Rightarrow> 'p \<Rightarrow> string \<Rightarrow> 'p conj_error \<Rightarrow> goerr + 'p conj_error" where
  "unmarshal_error lib el dec zero data e = (case cl_Unmarshal lib data of
     Inl err \<Rightarrow> Inl err
   | Inr j \<Rightarrow> (case el_ReadSerializableError el j of
       Inl err \<Rightarrow> Inl err
     | Inr (name, i, None) \<Rightarrow> Inl (Opaque ''unexpected end of JSON input'')
     | Inr (name, i, Some raw) \<Rightarrow>
         (let (b, p) = dec raw zero in
          if b then Inr (e\<lparr>ce_errorInstanceID := i, ce_params := p\<rparr>) else Inl (Opaque ''json: cannot unmarshal''))))"

section \<open>\<open>AttachmentUploadFailed\<close>\<close>

record attachmentUploadFailed_params =
  auf_Filename :: string

definition attachmentUploadFailed_json :: "attachmentUploadFailed_params \<Rightarrow> json" where
  "attachmentUploadFailed_json o' = JObj [(''filename'', JStr (auf_Filename o'))]"

definition attachmentUploadFailed_zero :: attachmentUploadFailed_params where
  "attachmentUploadFailed_zero = \<lparr>auf_Filename = ''''\<rparr>"

definition dec_attachmentUploadFailed :: "attachmentUploadFailed_params dec" where
  "dec_attachmentUploadFailed = decode_struct [field_of ''filename'' auf_Filename auf_Filename_update dec_string]"

definition attachmentUploadFailed_MarshalYAML :: "'y conjure_lib \<Rightarrow> attachmentUploadFailed_params \<Rightarrow> goerr + 'y" where
  "attachmentUploadFailed_MarshalYAML lib o' = to_yaml lib (attachmentUploadFailed_json o')"

definition attachmentUploadFailed_UnmarshalYAML :: "'y conjure_lib \<Rightarrow> attachmentUploadFailed_params \<Rightarrow> 'y \<Rightarrow> goerr + attachmentUploadFailed_params" where
  "attachmentUploadFailed_UnmarshalYAML lib o' = of_yaml lib dec_attachmentUploadFailed o'"

type_synonym AttachmentUploadFailed = "attachmentUploadFailed_params conj_error"

definition NewAttachmentUploadFailed :: "uuid \<Rightarrow> StackTrace \<Rightarrow> string \<Rightarrow> AttachmentUploadFailed" where
  "NewAttachmentUploadFailed newUUID stack filenameArg =
     \<lparr>ce_errorInstanceID = newUUID, ce_params = \<lparr>auf_Filename = filenameArg\<rparr>, ce_cause = None, ce_stack = stack\<rparr>"

definition WrapWithAttachmentUploadFailed :: "uuid \<Rightarrow> StackTrace \<Rightarrow> goerr option \<Rightarrow> string \<Rightarrow> AttachmentUploadFailed" where
  "WrapWithAttachmentUploadFailed newUUID stack err filenameArg =
     \<lparr>ce_errorInstanceID = newUUID, ce_params = \<lparr>auf_Filename = filenameArg\<rparr>, ce_cause = err, ce_stack = stack\<rparr>"

definition IsAttachmentUploadFailed :: "error_lib \<Rightarrow> goerr option \<Rightarrow> bool" where
  "IsAttachmentUploadFailed el err = (case err of
     None \<Rightarrow> False
   | Some e \<Rightarrow> (case el_GetConjureError el e of Some (AttachmentUploadFailed _) \<Rightarrow> True | _ \<Rightarrow> False))"

definition AttachmentUploadFailed_Error :: "'y conjure_lib \<Rightarrow> AttachmentUploadFailed \<Rightarrow> string" where
  "AttachmentUploadFailed_Error lib e = error_text lib ''CUSTOM_SERVER Signalium:AttachmentUploadFailed'' e"

definition AttachmentUploadFailed_Message :: "AttachmentUploadFailed \<Rightarrow> string" where
  "AttachmentUploadFailed_Message e = ''CUSTOM_SERVER Signalium:AttachmentUploadFailed''"

definition AttachmentUploadFailed_Code :: "AttachmentUploadFailed \<Rightarrow> ErrorCode" where
  "AttachmentUploadFailed_Code e = CustomServer"

definition AttachmentUploadFailed_Name :: "AttachmentUploadFailed \<Rightarrow> string" where
  "AttachmentUploadFailed_Name e = ''Signalium:AttachmentUploadFailed''"

definition AttachmentUploadFailed_Parameters :: "AttachmentUploadFailed \<Rightarrow> params" where
  "AttachmentUploadFailed_Parameters e = [''filename'' \<mapsto> PString (auf_Filename (ce_params e))]"

definition AttachmentUploadFailed_safeParams :: "AttachmentUploadFailed \<Rightarrow> params" where
  "AttachmentUploadFailed_safeParams e =
     [''filename'' \<mapsto> PString (auf_Filename (ce_params e))] ++ instance_params (AttachmentUploadFailed_Name e) e"

definition AttachmentUploadFailed_SafeParams :: "error_lib \<Rightarrow> AttachmentUploadFailed \<Rightarrow> params" where
  "AttachmentUploadFailed_SafeParams el e = merge_params (fst (el_ParamsFromError el (ce_cause e))) (AttachmentUploadFailed_safeParams e)"

definition AttachmentUploadFailed_unsafeParams :: "AttachmentUploadFailed \<Rightarrow> params" where
  "AttachmentUploadFailed_unsafeParams e = Map.empty"

definition AttachmentUploadFailed_UnsafeParams :: "error_lib \<Rightarrow> AttachmentUploadFailed \<Rightarrow> params" where
  "AttachmentUploadFailed_UnsafeParams el e = merge_params (snd (el_ParamsFromError el (ce_cause e))) (AttachmentUploadFailed_unsafeParams e)"

definition AttachmentUploadFailed_MarshalJSON :: "'y conjure_lib \<Rightarrow> error_lib \<Rightarrow> AttachmentUploadFailed \<Rightarrow> goerr + string" where
  "AttachmentUploadFailed_MarshalJSON lib el e = marshal_error lib el CustomServer ''Signalium:AttachmentUploadFailed'' attachmentUploadFailed_json e"

definition AttachmentUploadFailed_UnmarshalJSON :: "'y conjure_lib \<Rightarrow> error_lib \<Rightarrow> string \<Rightarrow> AttachmentUploadFailed \<Rightarrow> goerr + AttachmentUploadFailed" where
  "AttachmentUploadFailed_UnmarshalJSON lib el data e = unmarshal_error lib el dec_attachmentUploadFailed attachmentUploadFailed_zero data e"

section \<open>\<open>IdempotencyConflict\<close>\<close>

record idempotencyConflict_params =
  idc_IdempotencyKey :: string

definition idempotencyConflict_json :: "idempotencyConflict_params \<Rightarrow> json" where
  "idempotencyConflict_json o' = JObj [(''idempotencyKey'', JStr (idc_IdempotencyKey o'))]"

definition idempotencyConflict_zero :: idempotencyConflict_params where
  "idempotencyConflict_zero = \<lparr>idc_IdempotencyKey = ''''\<rparr>"

definition dec_idempotencyConflict :: "idempotencyConflict_params dec" where
  "dec_idempotencyConflict = decode_struct [field_of ''idempotencyKey'' idc_IdempotencyKey idc_IdempotencyKey_update dec_string]"

definition idempotencyConflict_MarshalYAML :: "'y conjure_lib \<Rightarrow> idempotencyConflict_params \<Rightarrow> goerr + 'y" where
  "idempotencyConflict_MarshalYAML lib o' = to_yaml lib (idempotencyConflict_json o')"

definition idempotencyConflict_UnmarshalYAML :: "'y conjure_lib \<Rightarrow> idempotencyConflict_params \<Rightarrow> 'y \<Rightarrow> goerr + idempotencyConflict_params" where
  "idempotencyConflict_UnmarshalYAML lib o' = of_yaml lib dec_idempotencyConflict o'"

type_synonym IdempotencyConflict = "idempotencyConflict_params conj_error"

definition NewIdempotencyConflict :: "uuid \<Rightarrow> StackTrace \<Rightarrow> string \<Rightarrow> IdempotencyConflict" where
  "NewIdempotencyConflict newUUID stack idempotencyKeyArg =
     \<lparr>ce_errorInstanceID = newUUID, ce_params = \<lparr>idc_IdempotencyKey = idempotencyKeyArg\<rparr>, ce_cause = None, ce_stack = stack\<rparr>"

definition WrapWithIdempotencyConflict :: "uuid \<Rightarrow> StackTrace \<Rightarrow> goerr option \<Rightarrow> string \<Rightarrow> IdempotencyConflict" where
  "WrapWithIdempotencyConflict newUUID stack err idempotencyKeyArg =
     \<lparr>ce_errorInstanceID = newUUID, ce_params = \<lparr>idc_IdempotencyKey = idempotencyKeyArg\<rparr>, ce_cause = err, ce_stack = stack\<rparr>"

definition IsIdempotencyConflict :: "error_lib \<Rightarrow> goerr option \<Rightarrow> bool" where
  "IsIdempotencyConflict el err = (case err of
     None \<Rightarrow> False
   | Some e \<Rightarrow> (case el_GetConjureError el e of Some (IdempotencyConflict _) \<Rightarrow> True | _ \<Rightarrow> False))"

definition IdempotencyConflict_Error :: "'y conjure_lib \<Rightarrow> IdempotencyConflict \<Rightarrow> string" where
  "IdempotencyConflict_Error lib e = error_text lib ''CONFLICT Signalium:IdempotencyConflict'' e"

definition IdempotencyConflict_Message :: "IdempotencyConflict \<Rightarrow> string" where
  "IdempotencyConflict_Message e = ''CONFLICT Signalium:IdempotencyConflict''"

definition IdempotencyConflict_Code :: "IdempotencyConflict \<Rightarrow> ErrorCode" where
  "IdempotencyConflict_Code e = Conflict"

definition IdempotencyConflict_Name :: "IdempotencyConflict \<Rightarrow> string" where
  "IdempotencyConflict_Name e = ''Signalium:IdempotencyConflict''"

definition IdempotencyConflict_Parameters :: "IdempotencyConflict \<Rightarrow> params" where
  "IdempotencyConflict_Parameters e = [''idempotencyKey'' \<mapsto> PString (idc_IdempotencyKey (ce_params e))]"

definition IdempotencyConflict_safeParams :: "IdempotencyConflict \<Rightarrow> params" where
  "IdempotencyConflict_safeParams e =
     [''idempotencyKey'' \<mapsto> PString (idc_IdempotencyKey (ce_params e))] ++ instance_params (IdempotencyConflict_Name e) e"

definition IdempotencyConflict_SafeParams :: "error_lib \<Rightarrow> IdempotencyConflict \<Rightarrow> params" where
  "IdempotencyConflict_SafeParams el e = merge_params (fst (el_ParamsFromError el (ce_cause e))) (IdempotencyConflict_safeParams e)"

definition IdempotencyConflict_unsafeParams :: "IdempotencyConflict \<Rightarrow> params" where
  "IdempotencyConflict_unsafeParams e = Map.empty"

definition IdempotencyConflict_UnsafeParams :: "error_lib \<Rightarrow> IdempotencyConflict \<Rightarrow> params" where
  "IdempotencyConflict_UnsafeParams el e = merge_params (snd (el_ParamsFromError el (ce_cause e))) (IdempotencyConflict_unsafeParams e)"

definition IdempotencyConflict_MarshalJSON :: "'y conjure_lib \<Rightarrow> error_lib \<Rightarrow> IdempotencyConflict \<Rightarrow> goerr + string" where
  "IdempotencyConflict_MarshalJSON lib el e = marshal_error lib el Conflict ''Signalium:IdempotencyConflict'' idempotencyConflict_json e"

definition IdempotencyConflict_UnmarshalJSON :: "'y conjure_lib \<Rightarrow> error_lib \<Rightarrow> string \<Rightarrow> IdempotencyConflict \<Rightarrow> goerr + IdempotencyConflict" where
  "IdempotencyConflict_UnmarshalJSON lib el data e = unmarshal_error lib el dec_idempotencyConflict idempotencyConflict_zero data e"

section \<open>\<open>InternalServiceError\<close>\<close>

type_synonym internalServiceError_params = unit

definition internalServiceError_json :: "internalServiceError_params \<Rightarrow> json" where
  "internalServiceError_json o' = JObj []"

definition internalServiceError_zero :: internalServiceError_params where
  "internalServiceError_zero = ()"

definition dec_internalServiceError :: "internalServiceError_params dec" where
  "dec_internalServiceError = decode_struct []"

definition internalServiceError_MarshalYAML :: "'y conjure_lib \<Rightarrow> internalServiceError_params \<Rightarrow> goerr + 'y" where
  "internalServiceError_MarshalYAML lib o' = to_yaml lib (internalServiceError_json o')"

definition internalServiceError_UnmarshalYAML :: "'y conjure_lib \<Rightarrow> internalServiceError_params \<Rightarrow> 'y \<Rightarrow> goerr + internalServiceError_params" where
  "internalServiceError_UnmarshalYAML lib o' = of_yaml lib dec_internalServiceError o'"

type_synonym InternalServiceError = "internalServiceError_params conj_error"

definition NewInternalServiceError :: "uuid \<Rightarrow> StackTrace \<Rightarrow> InternalServiceError" where
  "NewInternalServiceError newUUID stack =
     \<lparr>ce_errorInstanceID = newUUID, ce_params = (), ce_cause = None, ce_stack = stack\<rparr>"

definition WrapWithInternalServiceError :: "uuid \<Rightarrow> StackTrace \<Rightarrow> goerr option \<Rightarrow> InternalServiceError" where
  "WrapWithInternalServiceError newUUID stack err =
     \<lparr>ce_errorInstanceID = newUUID, ce_params = (), ce_cause = err, ce_stack = stack\<rparr>"

definition IsInternalServiceError :: "error_lib \<Rightarrow> goerr option \<Rightarrow> bool" where
  "IsInternalServiceError el err = (case err of
     None \<Rightarrow> False
   | Some e \<Rightarrow> (case el_GetConjureError el e of Some InternalServiceError \<Rightarrow> True | _ \<Rightarrow> False))"

definition InternalServiceError_Error :: "'y conjure_lib \<Rightarrow> InternalServiceError \<Rightarrow> string" where
  "InternalServiceError_Error lib e = error_text lib ''INTERNAL Signalium:InternalServiceError'' e"

definition InternalServiceError_Message :: "InternalServiceError \<Rightarrow> string" where
  "InternalServiceError_Message e = ''INTERNAL Signalium:InternalServiceError''"

definition InternalServiceError_Code :: "InternalServiceError \<Rightarrow> ErrorCode" where
  "InternalServiceError_Code e = Internal"

definition InternalServiceError_Name :: "InternalServiceError \<Rightarrow> string" where
  "InternalServiceError_Name e = ''Signalium:InternalServiceError''"

definition InternalServiceError_Parameters :: "InternalServiceError \<Rightarrow> params" where
  "InternalServiceError_Parameters e = Map.empty"

definition InternalServiceError_safeParams :: "InternalServiceError \<Rightarrow> params" where
  "InternalServiceError_safeParams e =
     Map.empty ++ instance_params (InternalServiceError_Name e) e"

definition InternalServiceError_SafeParams :: "error_lib \<Rightarrow> InternalServiceError \<Rightarrow> params" where
  "InternalServiceError_SafeParams el e = merge_params (fst (el_ParamsFromError el (ce_cause e))) (InternalServiceError_safeParams e)"

definition InternalServiceError_unsafeParams :: "InternalServiceError \<Rightarrow> params" where
  "InternalServiceError_unsafeParams e = Map.empty"

definition InternalServiceError_UnsafeParams :: "error_lib \<Rightarrow> InternalServiceError \<Rightarrow> params" where
  "InternalServiceError_UnsafeParams el e = merge_params (snd (el_ParamsFromError el (ce_cause e))) (InternalServiceError_unsafeParams e)"

definition InternalServiceError_MarshalJSON :: "'y conjure_lib \<Rightarrow> error_lib \<Rightarrow> InternalServiceError \<Rightarrow> goerr + string" where
  "InternalServiceError_MarshalJSON lib el e = marshal_error lib el Internal ''Signalium:InternalServiceError'' internalServiceError_json e"

definition InternalServiceError_UnmarshalJSON :: "'y conjure_lib \<Rightarrow> error_lib \<Rightarrow> string \<Rightarrow> InternalServiceError \<Rightarrow> goerr + InternalServiceError" where
  "InternalServiceError_UnmarshalJSON lib el data e = unmarshal_error lib el dec_internalServiceError internalServiceError_zero data e"

section \<open>\<open>InvalidSignalMessage\<close>\<close>

record invalidSignalMessage_params =
  ism_Field :: string
  ism_Reason :: string

definition invalidSignalMessage_json :: "invalidSignalMessage_params \<Rightarrow> json" where
  "invalidSignalMessage_json o' = JObj [(''field'', JStr (ism_Field o')), (''reason'', JStr (ism_Reason o'))]"

definition invalidSignalMessage_zero :: invalidSignalMessage_params where
  "invalidSignalMessage_zero = \<lparr>ism_Field = '''', ism_Reason = ''''\<rparr>"

definition dec_invalidSignalMessage :: "invalidSignalMessage_params dec" where
  "dec_invalidSignalMessage = decode_struct [field_of ''field'' ism_Field ism_Field_update dec_string, field_of ''reason'' ism_Reason ism_Reason_update dec_string]"

definition invalidSignalMessage_MarshalYAML :: "'y conjure_lib \<Rightarrow> invalidSignalMessage_params \<Rightarrow> goerr + 'y" where
  "invalidSignalMessage_MarshalYAML lib o' = to_yaml lib (invalidSignalMessage_json o')"

definition invalidSignalMessage_UnmarshalYAML :: "'y conjure_lib \<Rightarrow> invalidSignalMessage_params \<Rightarrow> 'y \<Rightarrow> goerr + invalidSignalMessage_params" where
  "invalidSignalMessage_UnmarshalYAML lib o' = of_yaml lib dec_invalidSignalMessage o'"

type_synonym InvalidSignalMessage = "invalidSignalMessage_params conj_error"

definition NewInvalidSignalMessage :: "uuid \<Rightarrow> StackTrace \<Rightarrow> string \<Rightarrow> string \<Rightarrow> InvalidSignalMessage" where
  "NewInvalidSignalMessage newUUID stack fieldArg reasonArg =
     \<lparr>ce_errorInstanceID = newUUID, ce_params = \<lparr>ism_Field = fieldArg, ism_Reason = reasonArg\<rparr>, ce_cause = None, ce_stack = stack\<rparr>"

definition WrapWithInvalidSignalMessage :: "uuid \<Rightarrow> StackTrace \<Rightarrow> goerr option \<Rightarrow> string \<Rightarrow> string \<Rightarrow> InvalidSignalMessage" where
  "WrapWithInvalidSignalMessage newUUID stack err fieldArg reasonArg =
     \<lparr>ce_errorInstanceID = newUUID, ce_params = \<lparr>ism_Field = fieldArg, ism_Reason = reasonArg\<rparr>, ce_cause = err, ce_stack = stack\<rparr>"

definition IsInvalidSignalMessage :: "error_lib \<Rightarrow> goerr option \<Rightarrow> bool" where
  "IsInvalidSignalMessage el err = (case err of
     None \<Rightarrow> False
   | Some e \<Rightarrow> (case el_GetConjureError el e of Some (InvalidSignalMessage _ _) \<Rightarrow> True | _ \<Rightarrow> False))"

definition InvalidSignalMessage_Error :: "'y conjure_lib \<Rightarrow> InvalidSignalMessage \<Rightarrow> string" where
  "InvalidSignalMessage_Error lib e = error_text lib ''INVALID_ARGUMENT Signalium:InvalidSignalMessage'' e"

definition InvalidSignalMessage_Message :: "InvalidSignalMessage \<Rightarrow> string" where
  "InvalidSignalMessage_Message e = ''INVALID_ARGUMENT Signalium:InvalidSignalMessage''"

definition InvalidSignalMessage_Code :: "InvalidSignalMessage \<Rightarrow> ErrorCode" where
  "InvalidSignalMessage_Code e = InvalidArgument"

definition InvalidSignalMessage_Name :: "InvalidSignalMessage \<Rightarrow> string" where
  "InvalidSignalMessage_Name e = ''Signalium:InvalidSignalMessage''"

definition InvalidSignalMessage_Parameters :: "InvalidSignalMessage \<Rightarrow> params" where
  "InvalidSignalMessage_Parameters e = [''field'' \<mapsto> PString (ism_Field (ce_params e)), ''reason'' \<mapsto> PString (ism_Reason (ce_params e))]"

definition InvalidSignalMessage_safeParams :: "InvalidSignalMessage \<Rightarrow> params" where
  "InvalidSignalMessage_safeParams e =
     [''field'' \<mapsto> PString (ism_Field (ce_params e)), ''reason'' \<mapsto> PString (ism_Reason (ce_params e))] ++ instance_params (InvalidSignalMessage_Name e) e"

definition InvalidSignalMessage_SafeParams :: "error_lib \<Rightarrow> InvalidSignalMessage \<Rightarrow> params" where
  "InvalidSignalMessage_SafeParams el e = merge_params (fst (el_ParamsFromError el (ce_cause e))) (InvalidSignalMessage_safeParams e)"

definition InvalidSignalMessage_unsafeParams :: "InvalidSignalMessage \<Rightarrow> params" where
  "InvalidSignalMessage_unsafeParams e = Map.empty"

definition InvalidSignalMessage_UnsafeParams :: "error_lib \<Rightarrow> InvalidSignalMessage \<Rightarrow> params" where
  "InvalidSignalMessage_UnsafeParams el e = merge_params (snd (el_ParamsFromError el (ce_cause e))) (InvalidSignalMessage_unsafeParams e)"

definition InvalidSignalMessage_MarshalJSON :: "'y conjure_lib \<Rightarrow> error_lib \<Rightarrow> InvalidSignalMessage \<Rightarrow> goerr + string" where
  "InvalidSignalMessage_MarshalJSON lib el e = marshal_error lib el InvalidArgument ''Signalium:InvalidSignalMessage'' invalidSignalMessage_json e"

definition InvalidSignalMessage_UnmarshalJSON :: "'y conjure_lib \<Rightarrow> error_lib \<Rightarrow> string \<Rightarrow> InvalidSignalMessage \<Rightarrow> goerr + InvalidSignalMessage" where
  "InvalidSignalMessage_UnmarshalJSON lib el data e = unmarshal_error lib el dec_invalidSignalMessage invalidSignalMessage_zero data e"

section \<open>\<open>SenderMismatch\<close>\<close>

record senderMismatch_params =
  smm_Configured :: string
  smm_Requested :: string

definition senderMismatch_json :: "senderMismatch_params \<Rightarrow> json" where
  "senderMismatch_json o' = JObj [(''configured'', JStr (smm_Configured o')), (''requested'', JStr (smm_Requested o'))]"

definition senderMismatch_zero :: senderMismatch_params where
  "senderMismatch_zero = \<lparr>smm_Configured = '''', smm_Requested = ''''\<rparr>"

definition dec_senderMismatch :: "senderMismatch_params dec" where
  "dec_senderMismatch = decode_struct [field_of ''configured'' smm_Configured smm_Configured_update dec_string, field_of ''requested'' smm_Requested smm_Requested_update dec_string]"

definition senderMismatch_MarshalYAML :: "'y conjure_lib \<Rightarrow> senderMismatch_params \<Rightarrow> goerr + 'y" where
  "senderMismatch_MarshalYAML lib o' = to_yaml lib (senderMismatch_json o')"

definition senderMismatch_UnmarshalYAML :: "'y conjure_lib \<Rightarrow> senderMismatch_params \<Rightarrow> 'y \<Rightarrow> goerr + senderMismatch_params" where
  "senderMismatch_UnmarshalYAML lib o' = of_yaml lib dec_senderMismatch o'"

type_synonym SenderMismatch = "senderMismatch_params conj_error"

definition NewSenderMismatch :: "uuid \<Rightarrow> StackTrace \<Rightarrow> string \<Rightarrow> string \<Rightarrow> SenderMismatch" where
  "NewSenderMismatch newUUID stack configuredArg requestedArg =
     \<lparr>ce_errorInstanceID = newUUID, ce_params = \<lparr>smm_Configured = configuredArg, smm_Requested = requestedArg\<rparr>, ce_cause = None, ce_stack = stack\<rparr>"

definition WrapWithSenderMismatch :: "uuid \<Rightarrow> StackTrace \<Rightarrow> goerr option \<Rightarrow> string \<Rightarrow> string \<Rightarrow> SenderMismatch" where
  "WrapWithSenderMismatch newUUID stack err configuredArg requestedArg =
     \<lparr>ce_errorInstanceID = newUUID, ce_params = \<lparr>smm_Configured = configuredArg, smm_Requested = requestedArg\<rparr>, ce_cause = err, ce_stack = stack\<rparr>"

definition IsSenderMismatch :: "error_lib \<Rightarrow> goerr option \<Rightarrow> bool" where
  "IsSenderMismatch el err = (case err of
     None \<Rightarrow> False
   | Some e \<Rightarrow> (case el_GetConjureError el e of Some (SenderMismatch _ _) \<Rightarrow> True | _ \<Rightarrow> False))"

definition SenderMismatch_Error :: "'y conjure_lib \<Rightarrow> SenderMismatch \<Rightarrow> string" where
  "SenderMismatch_Error lib e = error_text lib ''CONFLICT Signalium:SenderMismatch'' e"

definition SenderMismatch_Message :: "SenderMismatch \<Rightarrow> string" where
  "SenderMismatch_Message e = ''CONFLICT Signalium:SenderMismatch''"

definition SenderMismatch_Code :: "SenderMismatch \<Rightarrow> ErrorCode" where
  "SenderMismatch_Code e = Conflict"

definition SenderMismatch_Name :: "SenderMismatch \<Rightarrow> string" where
  "SenderMismatch_Name e = ''Signalium:SenderMismatch''"

definition SenderMismatch_Parameters :: "SenderMismatch \<Rightarrow> params" where
  "SenderMismatch_Parameters e = [''configured'' \<mapsto> PString (smm_Configured (ce_params e)), ''requested'' \<mapsto> PString (smm_Requested (ce_params e))]"

definition SenderMismatch_safeParams :: "SenderMismatch \<Rightarrow> params" where
  "SenderMismatch_safeParams e =
     [''configured'' \<mapsto> PString (smm_Configured (ce_params e)), ''requested'' \<mapsto> PString (smm_Requested (ce_params e))] ++ instance_params (SenderMismatch_Name e) e"

definition SenderMismatch_SafeParams :: "error_lib \<Rightarrow> SenderMismatch \<Rightarrow> params" where
  "SenderMismatch_SafeParams el e = merge_params (fst (el_ParamsFromError el (ce_cause e))) (SenderMismatch_safeParams e)"

definition SenderMismatch_unsafeParams :: "SenderMismatch \<Rightarrow> params" where
  "SenderMismatch_unsafeParams e = Map.empty"

definition SenderMismatch_UnsafeParams :: "error_lib \<Rightarrow> SenderMismatch \<Rightarrow> params" where
  "SenderMismatch_UnsafeParams el e = merge_params (snd (el_ParamsFromError el (ce_cause e))) (SenderMismatch_unsafeParams e)"

definition SenderMismatch_MarshalJSON :: "'y conjure_lib \<Rightarrow> error_lib \<Rightarrow> SenderMismatch \<Rightarrow> goerr + string" where
  "SenderMismatch_MarshalJSON lib el e = marshal_error lib el Conflict ''Signalium:SenderMismatch'' senderMismatch_json e"

definition SenderMismatch_UnmarshalJSON :: "'y conjure_lib \<Rightarrow> error_lib \<Rightarrow> string \<Rightarrow> SenderMismatch \<Rightarrow> goerr + SenderMismatch" where
  "SenderMismatch_UnmarshalJSON lib el data e = unmarshal_error lib el dec_senderMismatch senderMismatch_zero data e"

section \<open>\<open>SignalCliUnavailable\<close>\<close>

record signalCliUnavailable_params =
  scu_Host :: string
  scu_Port :: int

definition signalCliUnavailable_json :: "signalCliUnavailable_params \<Rightarrow> json" where
  "signalCliUnavailable_json o' = JObj [(''host'', JStr (scu_Host o')), (''port'', JInt (scu_Port o'))]"

definition signalCliUnavailable_zero :: signalCliUnavailable_params where
  "signalCliUnavailable_zero = \<lparr>scu_Host = '''', scu_Port = 0\<rparr>"

definition dec_signalCliUnavailable :: "signalCliUnavailable_params dec" where
  "dec_signalCliUnavailable = decode_struct [field_of ''host'' scu_Host scu_Host_update dec_string, field_of ''port'' scu_Port scu_Port_update dec_int]"

definition signalCliUnavailable_MarshalYAML :: "'y conjure_lib \<Rightarrow> signalCliUnavailable_params \<Rightarrow> goerr + 'y" where
  "signalCliUnavailable_MarshalYAML lib o' = to_yaml lib (signalCliUnavailable_json o')"

definition signalCliUnavailable_UnmarshalYAML :: "'y conjure_lib \<Rightarrow> signalCliUnavailable_params \<Rightarrow> 'y \<Rightarrow> goerr + signalCliUnavailable_params" where
  "signalCliUnavailable_UnmarshalYAML lib o' = of_yaml lib dec_signalCliUnavailable o'"

type_synonym SignalCliUnavailable = "signalCliUnavailable_params conj_error"

definition NewSignalCliUnavailable :: "uuid \<Rightarrow> StackTrace \<Rightarrow> string \<Rightarrow> int \<Rightarrow> SignalCliUnavailable" where
  "NewSignalCliUnavailable newUUID stack hostArg portArg =
     \<lparr>ce_errorInstanceID = newUUID, ce_params = \<lparr>scu_Host = hostArg, scu_Port = portArg\<rparr>, ce_cause = None, ce_stack = stack\<rparr>"

definition WrapWithSignalCliUnavailable :: "uuid \<Rightarrow> StackTrace \<Rightarrow> goerr option \<Rightarrow> string \<Rightarrow> int \<Rightarrow> SignalCliUnavailable" where
  "WrapWithSignalCliUnavailable newUUID stack err hostArg portArg =
     \<lparr>ce_errorInstanceID = newUUID, ce_params = \<lparr>scu_Host = hostArg, scu_Port = portArg\<rparr>, ce_cause = err, ce_stack = stack\<rparr>"

definition IsSignalCliUnavailable :: "error_lib \<Rightarrow> goerr option \<Rightarrow> bool" where
  "IsSignalCliUnavailable el err = (case err of
     None \<Rightarrow> False
   | Some e \<Rightarrow> (case el_GetConjureError el e of Some (SignalCliUnavailable _ _) \<Rightarrow> True | _ \<Rightarrow> False))"

definition SignalCliUnavailable_Error :: "'y conjure_lib \<Rightarrow> SignalCliUnavailable \<Rightarrow> string" where
  "SignalCliUnavailable_Error lib e = error_text lib ''CUSTOM_SERVER Signalium:SignalCliUnavailable'' e"

definition SignalCliUnavailable_Message :: "SignalCliUnavailable \<Rightarrow> string" where
  "SignalCliUnavailable_Message e = ''CUSTOM_SERVER Signalium:SignalCliUnavailable''"

definition SignalCliUnavailable_Code :: "SignalCliUnavailable \<Rightarrow> ErrorCode" where
  "SignalCliUnavailable_Code e = CustomServer"

definition SignalCliUnavailable_Name :: "SignalCliUnavailable \<Rightarrow> string" where
  "SignalCliUnavailable_Name e = ''Signalium:SignalCliUnavailable''"

definition SignalCliUnavailable_Parameters :: "SignalCliUnavailable \<Rightarrow> params" where
  "SignalCliUnavailable_Parameters e = [''host'' \<mapsto> PString (scu_Host (ce_params e)), ''port'' \<mapsto> PInt (scu_Port (ce_params e))]"

definition SignalCliUnavailable_safeParams :: "SignalCliUnavailable \<Rightarrow> params" where
  "SignalCliUnavailable_safeParams e =
     [''host'' \<mapsto> PString (scu_Host (ce_params e)), ''port'' \<mapsto> PInt (scu_Port (ce_params e))] ++ instance_params (SignalCliUnavailable_Name e) e"

definition SignalCliUnavailable_SafeParams :: "error_lib \<Rightarrow> SignalCliUnavailable \<Rightarrow> params" where
  "SignalCliUnavailable_SafeParams el e = merge_params (fst (el_ParamsFromError el (ce_cause e))) (SignalCliUnavailable_safeParams e)"

definition SignalCliUnavailable_unsafeParams :: "SignalCliUnavailable \<Rightarrow> params" where
  "SignalCliUnavailable_unsafeParams e = Map.empty"

definition SignalCliUnavailable_UnsafeParams :: "error_lib \<Rightarrow> SignalCliUnavailable \<Rightarrow> params" where
  "SignalCliUnavailable_UnsafeParams el e = merge_params (snd (el_ParamsFromError el (ce_cause e))) (SignalCliUnavailable_unsafeParams e)"

definition SignalCliUnavailable_MarshalJSON :: "'y conjure_lib \<Rightarrow> error_lib \<Rightarrow> SignalCliUnavailable \<Rightarrow> goerr + string" where
  "SignalCliUnavailable_MarshalJSON lib el e = marshal_error lib el CustomServer ''Signalium:SignalCliUnavailable'' signalCliUnavailable_json e"

definition SignalCliUnavailable_UnmarshalJSON :: "'y conjure_lib \<Rightarrow> error_lib \<Rightarrow> string \<Rightarrow> SignalCliUnavailable \<Rightarrow> goerr + SignalCliUnavailable" where
  "SignalCliUnavailable_UnmarshalJSON lib el data e = unmarshal_error lib el dec_signalCliUnavailable signalCliUnavailable_zero data e"

section \<open>\<open>SignalMessageNotFound\<close>\<close>

record signalMessageNotFound_params =
  snf_Id :: string

definition signalMessageNotFound_json :: "signalMessageNotFound_params \<Rightarrow> json" where
  "signalMessageNotFound_json o' = JObj [(''id'', JStr (snf_Id o'))]"

definition signalMessageNotFound_zero :: signalMessageNotFound_params where
  "signalMessageNotFound_zero = \<lparr>snf_Id = ''''\<rparr>"

definition dec_signalMessageNotFound :: "signalMessageNotFound_params dec" where
  "dec_signalMessageNotFound = decode_struct [field_of ''id'' snf_Id snf_Id_update dec_string]"

definition signalMessageNotFound_MarshalYAML :: "'y conjure_lib \<Rightarrow> signalMessageNotFound_params \<Rightarrow> goerr + 'y" where
  "signalMessageNotFound_MarshalYAML lib o' = to_yaml lib (signalMessageNotFound_json o')"

definition signalMessageNotFound_UnmarshalYAML :: "'y conjure_lib \<Rightarrow> signalMessageNotFound_params \<Rightarrow> 'y \<Rightarrow> goerr + signalMessageNotFound_params" where
  "signalMessageNotFound_UnmarshalYAML lib o' = of_yaml lib dec_signalMessageNotFound o'"

type_synonym SignalMessageNotFound = "signalMessageNotFound_params conj_error"

definition NewSignalMessageNotFound :: "uuid \<Rightarrow> StackTrace \<Rightarrow> string \<Rightarrow> SignalMessageNotFound" where
  "NewSignalMessageNotFound newUUID stack idArg =
     \<lparr>ce_errorInstanceID = newUUID, ce_params = \<lparr>snf_Id = idArg\<rparr>, ce_cause = None, ce_stack = stack\<rparr>"

definition WrapWithSignalMessageNotFound :: "uuid \<Rightarrow> StackTrace \<Rightarrow> goerr option \<Rightarrow> string \<Rightarrow> SignalMessageNotFound" where
  "WrapWithSignalMessageNotFound newUUID stack err idArg =
     \<lparr>ce_errorInstanceID = newUUID, ce_params = \<lparr>snf_Id = idArg\<rparr>, ce_cause = err, ce_stack = stack\<rparr>"

definition IsSignalMessageNotFound :: "error_lib \<Rightarrow> goerr option \<Rightarrow> bool" where
  "IsSignalMessageNotFound el err = (case err of
     None \<Rightarrow> False
   | Some e \<Rightarrow> (case el_GetConjureError el e of Some (SignalMessageNotFound _) \<Rightarrow> True | _ \<Rightarrow> False))"

definition SignalMessageNotFound_Error :: "'y conjure_lib \<Rightarrow> SignalMessageNotFound \<Rightarrow> string" where
  "SignalMessageNotFound_Error lib e = error_text lib ''NOT_FOUND Signalium:SignalMessageNotFound'' e"

definition SignalMessageNotFound_Message :: "SignalMessageNotFound \<Rightarrow> string" where
  "SignalMessageNotFound_Message e = ''NOT_FOUND Signalium:SignalMessageNotFound''"

definition SignalMessageNotFound_Code :: "SignalMessageNotFound \<Rightarrow> ErrorCode" where
  "SignalMessageNotFound_Code e = NotFound"

definition SignalMessageNotFound_Name :: "SignalMessageNotFound \<Rightarrow> string" where
  "SignalMessageNotFound_Name e = ''Signalium:SignalMessageNotFound''"

definition SignalMessageNotFound_Parameters :: "SignalMessageNotFound \<Rightarrow> params" where
  "SignalMessageNotFound_Parameters e = [''id'' \<mapsto> PString (snf_Id (ce_params e))]"

definition SignalMessageNotFound_safeParams :: "SignalMessageNotFound \<Rightarrow> params" where
  "SignalMessageNotFound_safeParams e =
     [''id'' \<mapsto> PString (snf_Id (ce_params e))] ++ instance_params (SignalMessageNotFound_Name e) e"

definition SignalMessageNotFound_SafeParams :: "error_lib \<Rightarrow> SignalMessageNotFound \<Rightarrow> params" where
  "SignalMessageNotFound_SafeParams el e = merge_params (fst (el_ParamsFromError el (ce_cause e))) (SignalMessageNotFound_safeParams e)"

definition SignalMessageNotFound_unsafeParams :: "SignalMessageNotFound \<Rightarrow> params" where
  "SignalMessageNotFound_unsafeParams e = Map.empty"

definition SignalMessageNotFound_UnsafeParams :: "error_lib \<Rightarrow> SignalMessageNotFound \<Rightarrow> params" where
  "SignalMessageNotFound_UnsafeParams el e = merge_params (snd (el_ParamsFromError el (ce_cause e))) (SignalMessageNotFound_unsafeParams e)"

definition SignalMessageNotFound_MarshalJSON :: "'y conjure_lib \<Rightarrow> error_lib \<Rightarrow> SignalMessageNotFound \<Rightarrow> goerr + string" where
  "SignalMessageNotFound_MarshalJSON lib el e = marshal_error lib el NotFound ''Signalium:SignalMessageNotFound'' signalMessageNotFound_json e"

definition SignalMessageNotFound_UnmarshalJSON :: "'y conjure_lib \<Rightarrow> error_lib \<Rightarrow> string \<Rightarrow> SignalMessageNotFound \<Rightarrow> goerr + SignalMessageNotFound" where
  "SignalMessageNotFound_UnmarshalJSON lib el data e = unmarshal_error lib el dec_signalMessageNotFound signalMessageNotFound_zero data e"

section \<open>The registry\<close>

text \<open>A registry of error types by name. Registering a name twice panics.\<close>

datatype error_type =
    T_AttachmentUploadFailed | T_IdempotencyConflict | T_InternalServiceError | T_InvalidSignalMessage
  | T_SenderMismatch | T_SignalCliUnavailable | T_SignalMessageNotFound

type_synonym registry = "(string \<times> error_type) list"

definition RegisterErrorType :: "string \<Rightarrow> error_type \<Rightarrow> registry \<Rightarrow> goerr + registry" where
  "RegisterErrorType name typ reg =
     (if name \<in> fst ` set reg then Inl (Opaque ''panic'') else Inr (reg @ [(name, typ)]))"

definition error_types :: registry where
  "error_types =
     [(''Signalium:AttachmentUploadFailed'', T_AttachmentUploadFailed),
      (''Signalium:IdempotencyConflict'', T_IdempotencyConflict),
      (''Signalium:InternalServiceError'', T_InternalServiceError),
      (''Signalium:InvalidSignalMessage'', T_InvalidSignalMessage),
      (''Signalium:SenderMismatch'', T_SenderMismatch),
      (''Signalium:SignalCliUnavailable'', T_SignalCliUnavailable),
      (''Signalium:SignalMessageNotFound'', T_SignalMessageNotFound)]"

fun register_all :: "registry \<Rightarrow> registry \<Rightarrow> goerr + registry" where
  "register_all [] reg = Inr reg"
| "register_all ((name, typ) # es) reg =
     (case RegisterErrorType name typ reg of Inl e \<Rightarrow> Inl e | Inr reg' \<Rightarrow> register_all es reg')"

definition init_errors :: "registry \<Rightarrow> goerr + registry" where
  "init_errors reg = register_all error_types reg"

section \<open>The error a caller receives\<close>

text \<open>The types and the constructors of \<open>conjerr\<close>, by which the service refers to them.\<close>

fun error_type_of :: "conjerr \<Rightarrow> error_type" where
  "error_type_of (IdempotencyConflict _) = T_IdempotencyConflict"
| "error_type_of (InvalidSignalMessage _ _) = T_InvalidSignalMessage"
| "error_type_of (SignalMessageNotFound _) = T_SignalMessageNotFound"
| "error_type_of (SenderMismatch _ _) = T_SenderMismatch"
| "error_type_of (AttachmentUploadFailed _) = T_AttachmentUploadFailed"
| "error_type_of (SignalCliUnavailable _ _) = T_SignalCliUnavailable"
| "error_type_of InternalServiceError = T_InternalServiceError"

fun error_bytes :: "'y conjure_lib \<Rightarrow> error_lib \<Rightarrow> uuid \<Rightarrow> goerr option \<Rightarrow> conjerr \<Rightarrow> goerr + string" where
  "error_bytes lib el i cause (IdempotencyConflict k) =
     IdempotencyConflict_MarshalJSON lib el (WrapWithIdempotencyConflict i [] cause k)"
| "error_bytes lib el i cause (InvalidSignalMessage f r) =
     InvalidSignalMessage_MarshalJSON lib el (WrapWithInvalidSignalMessage i [] cause f r)"
| "error_bytes lib el i cause (SignalMessageNotFound x) =
     SignalMessageNotFound_MarshalJSON lib el (WrapWithSignalMessageNotFound i [] cause x)"
| "error_bytes lib el i cause (SenderMismatch c r) =
     SenderMismatch_MarshalJSON lib el (WrapWithSenderMismatch i [] cause c r)"
| "error_bytes lib el i cause (AttachmentUploadFailed f) =
     AttachmentUploadFailed_MarshalJSON lib el (WrapWithAttachmentUploadFailed i [] cause f)"
| "error_bytes lib el i cause (SignalCliUnavailable h p) =
     SignalCliUnavailable_MarshalJSON lib el (WrapWithSignalCliUnavailable i [] cause h p)"
| "error_bytes lib el i cause InternalServiceError =
     InternalServiceError_MarshalJSON lib el (WrapWithInternalServiceError i [] cause)"

definition blank :: "'p \<Rightarrow> 'p conj_error" where
  "blank p = \<lparr>ce_errorInstanceID = 0, ce_params = p, ce_cause = None, ce_stack = []\<rparr>"

definition received :: "('p \<Rightarrow> conjerr) \<Rightarrow> goerr + 'p conj_error \<Rightarrow> goerr + (uuid \<times> conjerr \<times> goerr option)" where
  "received f x = map_sum id (\<lambda>e. (ce_errorInstanceID e, f (ce_params e), ce_cause e)) x"

fun read_error :: "'y conjure_lib \<Rightarrow> error_lib \<Rightarrow> error_type \<Rightarrow> string \<Rightarrow> goerr + (uuid \<times> conjerr \<times> goerr option)" where
  "read_error lib el T_IdempotencyConflict data = received (\<lambda>p. IdempotencyConflict (idc_IdempotencyKey p))
     (IdempotencyConflict_UnmarshalJSON lib el data (blank idempotencyConflict_zero))"
| "read_error lib el T_InvalidSignalMessage data = received (\<lambda>p. InvalidSignalMessage (ism_Field p) (ism_Reason p))
     (InvalidSignalMessage_UnmarshalJSON lib el data (blank invalidSignalMessage_zero))"
| "read_error lib el T_SignalMessageNotFound data = received (\<lambda>p. SignalMessageNotFound (snf_Id p))
     (SignalMessageNotFound_UnmarshalJSON lib el data (blank signalMessageNotFound_zero))"
| "read_error lib el T_SenderMismatch data = received (\<lambda>p. SenderMismatch (smm_Configured p) (smm_Requested p))
     (SenderMismatch_UnmarshalJSON lib el data (blank senderMismatch_zero))"
| "read_error lib el T_AttachmentUploadFailed data = received (\<lambda>p. AttachmentUploadFailed (auf_Filename p))
     (AttachmentUploadFailed_UnmarshalJSON lib el data (blank attachmentUploadFailed_zero))"
| "read_error lib el T_SignalCliUnavailable data = received (\<lambda>p. SignalCliUnavailable (scu_Host p) (scu_Port p))
     (SignalCliUnavailable_UnmarshalJSON lib el data (blank signalCliUnavailable_zero))"
| "read_error lib el T_InternalServiceError data = received (\<lambda>p. InternalServiceError)
     (InternalServiceError_UnmarshalJSON lib el data (blank internalServiceError_zero))"

fun conjerr_name :: "conjerr \<Rightarrow> string" where
  "conjerr_name (IdempotencyConflict _) = ''Signalium:IdempotencyConflict''"
| "conjerr_name (InvalidSignalMessage _ _) = ''Signalium:InvalidSignalMessage''"
| "conjerr_name (SignalMessageNotFound _) = ''Signalium:SignalMessageNotFound''"
| "conjerr_name (SenderMismatch _ _) = ''Signalium:SenderMismatch''"
| "conjerr_name (AttachmentUploadFailed _) = ''Signalium:AttachmentUploadFailed''"
| "conjerr_name (SignalCliUnavailable _ _) = ''Signalium:SignalCliUnavailable''"
| "conjerr_name InternalServiceError = ''Signalium:InternalServiceError''"

fun conjerr_ok :: "conjerr \<Rightarrow> bool" where
  "conjerr_ok (IdempotencyConflict k) = utf8_valid k"
| "conjerr_ok (InvalidSignalMessage f r) = (utf8_valid f \<and> utf8_valid r)"
| "conjerr_ok (SignalMessageNotFound x) = utf8_valid x"
| "conjerr_ok (SenderMismatch c r) = (utf8_valid c \<and> utf8_valid r)"
| "conjerr_ok (AttachmentUploadFailed f) = utf8_valid f"
| "conjerr_ok (SignalCliUnavailable h p) = (utf8_valid h \<and> in_int64 p)"
| "conjerr_ok InternalServiceError = True"

text \<open>What the error library documents: the document of a serializable error gives back its name,
  instance and parameters and stays a document, and the search follows the causes of a wrapped error
  to the first Conjure error.\<close>

definition error_laws :: "error_lib \<Rightarrow> bool" where
  "error_laws el \<longleftrightarrow>
     (\<forall>c n u p. el_ReadSerializableError el (el_SerializableError el c n u p) = Inr (n, u, Some p)) \<and>
     (\<forall>c n u p. utf8_valid n \<longrightarrow> printable p \<longrightarrow> json_depth p \<le> 20 \<longrightarrow>
        printable (el_SerializableError el c n u p) \<and> json_depth (el_SerializableError el c n u p) \<le> maxNestingDepth) \<and>
     (\<forall>c e. el_GetConjureError el (Conj c e) = Some c) \<and>
     (\<forall>s. el_GetConjureError el (Sentinel s) = None) \<and>
     (\<forall>m. el_GetConjureError el (Opaque m) = None) \<and>
     (\<forall>m e. el_GetConjureError el (Wrapped m e) = el_GetConjureError el e)"

text \<open>A parameter struct with its codec makes an error type whose two JSON methods agree.\<close>

context codec begin

lemma error_roundtrip:
  assumes "conjure_laws lib" and "error_laws el" and "utf8_valid name" and "ok (ce_params e)"
  shows "\<exists>data. marshal_error lib el code name enc e = Inr data \<and>
    unmarshal_error lib el dec zero data e0 =
      Inr (e0\<lparr>ce_errorInstanceID := ce_errorInstanceID e, ce_params := ce_params e\<rparr>)"
proof -
  let ?j = "el_SerializableError el code name (ce_errorInstanceID e) (enc (ce_params e))"
  have "printable ?j" "json_depth ?j \<le> maxNestingDepth"
    using assms writes shallow unfolding error_laws_def by blast+
  then have "cl_Unmarshal lib (cl_Marshal lib ?j) = Inr ?j"
    using assms(1) by (simp add: conjure_laws_def)
  then show ?thesis
    using assms by (simp add: marshal_error_def unmarshal_error_def error_laws_def reads_back)
qed

lemma received_error:
  assumes "conjure_laws lib" and "error_laws el" and "utf8_valid name" and "ok p"
  shows "\<exists>data. marshal_error lib el code name enc
      \<lparr>ce_errorInstanceID = i, ce_params = p, ce_cause = cause, ce_stack = st\<rparr> = Inr data \<and>
    received f (unmarshal_error lib el dec zero data (blank zero)) = Inr (i, f p, None)"
  using error_roundtrip [OF assms(1-3), of "\<lparr>ce_errorInstanceID = i, ce_params = p, ce_cause = cause, ce_stack = st\<rparr>"
      code "blank zero"] assms(4)
  by (auto simp: received_def blank_def)

end

interpretation auf: codec attachmentUploadFailed_json dec_attachmentUploadFailed attachmentUploadFailed_zero
  "\<lambda>p. utf8_valid (auf_Filename p)"
  by unfold_locales (auto simp: attachmentUploadFailed_json_def dec_attachmentUploadFailed_def
      attachmentUploadFailed_zero_def field_of_setter find_field_def utf8_valid_ascii)

interpretation idc: codec idempotencyConflict_json dec_idempotencyConflict idempotencyConflict_zero
  "\<lambda>p. utf8_valid (idc_IdempotencyKey p)"
  by unfold_locales (auto simp: idempotencyConflict_json_def dec_idempotencyConflict_def
      idempotencyConflict_zero_def field_of_setter find_field_def utf8_valid_ascii)

interpretation ise: codec internalServiceError_json dec_internalServiceError internalServiceError_zero "\<lambda>p. True"
  by unfold_locales (auto simp: internalServiceError_json_def dec_internalServiceError_def)

interpretation ism: codec invalidSignalMessage_json dec_invalidSignalMessage invalidSignalMessage_zero
  "\<lambda>p. utf8_valid (ism_Field p) \<and> utf8_valid (ism_Reason p)"
  by unfold_locales (auto simp: invalidSignalMessage_json_def dec_invalidSignalMessage_def
      invalidSignalMessage_zero_def field_of_setter find_field_def utf8_valid_ascii)

interpretation smm: codec senderMismatch_json dec_senderMismatch senderMismatch_zero
  "\<lambda>p. utf8_valid (smm_Configured p) \<and> utf8_valid (smm_Requested p)"
  by unfold_locales (auto simp: senderMismatch_json_def dec_senderMismatch_def
      senderMismatch_zero_def field_of_setter find_field_def utf8_valid_ascii)

interpretation scu: codec signalCliUnavailable_json dec_signalCliUnavailable signalCliUnavailable_zero
  "\<lambda>p. utf8_valid (scu_Host p) \<and> in_int64 (scu_Port p)"
  by unfold_locales (auto simp: signalCliUnavailable_json_def dec_signalCliUnavailable_def
      signalCliUnavailable_zero_def field_of_setter find_field_def utf8_valid_ascii)

interpretation snf: codec signalMessageNotFound_json dec_signalMessageNotFound signalMessageNotFound_zero
  "\<lambda>p. utf8_valid (snf_Id p)"
  by unfold_locales (auto simp: signalMessageNotFound_json_def dec_signalMessageNotFound_def
      signalMessageNotFound_zero_def field_of_setter find_field_def utf8_valid_ascii)

lemmas error_methods =
  WrapWithAttachmentUploadFailed_def AttachmentUploadFailed_MarshalJSON_def AttachmentUploadFailed_UnmarshalJSON_def
  WrapWithIdempotencyConflict_def IdempotencyConflict_MarshalJSON_def IdempotencyConflict_UnmarshalJSON_def
  WrapWithInternalServiceError_def InternalServiceError_MarshalJSON_def InternalServiceError_UnmarshalJSON_def
  WrapWithInvalidSignalMessage_def InvalidSignalMessage_MarshalJSON_def InvalidSignalMessage_UnmarshalJSON_def
  WrapWithSenderMismatch_def SenderMismatch_MarshalJSON_def SenderMismatch_UnmarshalJSON_def
  WrapWithSignalCliUnavailable_def SignalCliUnavailable_MarshalJSON_def SignalCliUnavailable_UnmarshalJSON_def
  WrapWithSignalMessageNotFound_def SignalMessageNotFound_MarshalJSON_def SignalMessageNotFound_UnmarshalJSON_def

lemma init_errors_ok: "init_errors [] = Inr error_types"
  by (simp add: init_errors_def error_types_def RegisterErrorType_def)

lemma error_type_registered: "map_of error_types (conjerr_name c) = Some (error_type_of c)"
  by (cases c) (simp_all add: error_types_def)

lemma name_valid: "utf8_valid (conjerr_name c)"
  by (cases c) (simp_all add: utf8_valid_ascii)


text \<open>A library of errors that obeys the laws.\<close>

fun first_conjure :: "goerr \<Rightarrow> conjerr option" where
  "first_conjure (Conj c e) = Some c"
| "first_conjure (Wrapped m e) = first_conjure e"
| "first_conjure _ = None"

definition text_errors :: error_lib where
  "text_errors =
     \<lparr>el_SerializableError = (\<lambda>c n u p. JArr [JStr n, JStr (digits (unat u)), p]),
      el_ReadSerializableError = (\<lambda>j. case j of
        JArr [JStr n, JStr s, p] \<Rightarrow> Inr (n, of_nat (digits_value 0 s), Some p) | _ \<Rightarrow> Inl (Opaque ''syntax'')),
      el_ParamsFromError = (\<lambda>e. (Map.empty, Map.empty)), el_GetConjureError = first_conjure\<rparr>"

lemma text_errors_laws: "error_laws text_errors"
  by (auto simp: error_laws_def text_errors_def digits_digits digits_ascii utf8_valid_ascii maxNestingDepth_def)


end
