(* ===== verification/HttpClient.thy ===== *)
theory HttpClient
  imports ApiErrors SendService Tcp
begin

text \<open>
  The HTTP client of the signal-cli daemon, \<open>internal/signal/http_client.go\<close>: the JSON-RPC call with its
  retry loop and the mapping of the listed groups to the API type. The transport answers through
  \<open>http_runtime\<close>: \<open>hx_Do\<close> one POST, \<open>hx_Wait\<close> the select between the end of the context and a timer,
  \<open>hx_NewID\<close> a fresh request id, \<open>hx_url_ok\<close> whether the URL parses. Log lines are left out.
\<close>

section \<open>Types\<close>

text \<open>A response: its status and what \<open>io.ReadAll\<close> gives for its body.\<close>

record http_response =
  hr_StatusCode :: int
  hr_Body :: "goerr + string"

record 's http_runtime =
  hx_Do :: "ctx \<Rightarrow> http_request \<Rightarrow> 's \<Rightarrow> (goerr + http_response) \<times> 's"
  hx_Wait :: "ctx \<Rightarrow> duration \<Rightarrow> 's \<Rightarrow> goerr option \<times> 's"
  hx_NewID :: "'s \<Rightarrow> string \<times> 's"
  hx_url_ok :: "string \<Rightarrow> bool"

record HTTPClient =
  hc_cfg :: SignalCliHTTP
  hc_account :: string
  hc_base :: string
  hc_timeout :: duration

text \<open>\<open>net.JoinHostPort\<close>, and the host part of \<open>url.URL.String\<close>, which escapes what a host may not hold.\<close>

definition JoinHostPort :: "string \<Rightarrow> string \<Rightarrow> string" where
  "JoinHostPort host port =
     (if CHR '':'' \<in> set host then ''['' @ host @ '']:'' @ port else host @ '':'' @ port)"

definition host_char :: "char \<Rightarrow> bool" where
  "host_char c \<longleftrightarrow> between 48 57 c \<or> between 65 90 c \<or> between 97 122 c \<or>
     c \<in> set ''-_.~!$&()*+,;=:[]<>'' \<or> byte c = 39 \<or> byte c = 34"

definition upper_hex :: "nat \<Rightarrow> char" where
  "upper_hex n = char_of (if n < 10 then 48 + n else 55 + n)"

definition escape_host :: "string \<Rightarrow> string" where
  "escape_host h = concat (map (\<lambda>c. if host_char c then [c]
     else [CHR ''%'', upper_hex (byte c div 16), upper_hex (byte c mod 16)]) h)"

definition NewHTTPClient :: "Install \<Rightarrow> HTTPClient" where
  "NewHTTPClient install =
     (let h = scc_HTTP (inst_SignalCli install) in
      \<lparr>hc_cfg = h, hc_account = scc_SenderPhoneNumber (inst_SignalCli install),
       hc_base = ''http://'' @ escape_host (JoinHostPort (http_Host h) (FormatInt (http_Port h))),
       hc_timeout = (if http_Timeout h \<le> 0 then 10 * Second else http_Timeout h)\<rparr>)"

record jsonRPCRequest =
  jq_JSONRPC :: string
  jq_Method :: string
  jq_ID :: string
  jq_Params :: json

definition jsonRPCRequest_json :: "jsonRPCRequest \<Rightarrow> json" where
  "jsonRPCRequest_json r = JObj
     [(''jsonrpc'', JStr (jq_JSONRPC r)), (''method'', JStr (jq_Method r)), (''id'', JStr (jq_ID r)),
      (''params'', jq_Params r)]"

record jsonRPCError =
  je_Code :: int
  je_Message :: string
  je_Data :: "json option"

definition dec_jsonRPCError :: "jsonRPCError dec" where
  "dec_jsonRPCError = decode_struct
     [field_of ''code'' je_Code je_Code_update dec_int,
      field_of ''message'' je_Message je_Message_update dec_string,
      field_of ''data'' je_Data je_Data_update dec_raw]"

record groupMember =
  gm_Number :: "string option"
  gm_UUID :: string

definition dec_groupMember :: "groupMember dec" where
  "dec_groupMember = decode_struct
     [field_of ''number'' gm_Number gm_Number_update (dec_ptr '''' dec_string),
      field_of ''uuid'' gm_UUID gm_UUID_update dec_string]"

record listedGroup =
  lg_ID :: string
  lg_Name :: string
  lg_Description :: string
  lg_Members :: "groupMember list"

definition dec_listedGroup :: "listedGroup dec" where
  "dec_listedGroup = decode_struct
     [field_of ''id'' lg_ID lg_ID_update dec_string,
      field_of ''name'' lg_Name lg_Name_update dec_string,
      field_of ''description'' lg_Description lg_Description_update dec_string,
      field_of ''members'' lg_Members lg_Members_update
        (dec_slice \<lparr>gm_Number = None, gm_UUID = ''''\<rparr> dec_groupMember)]"

record listGroupsResponse =
  gr_JSONRPC :: string
  gr_Result :: "listedGroup list"
  gr_ID :: string
  gr_Error :: "jsonRPCError option"

definition listedGroup_zero :: listedGroup where
  "listedGroup_zero = \<lparr>lg_ID = '''', lg_Name = '''', lg_Description = '''', lg_Members = []\<rparr>"

definition dec_listGroupsResponse :: "listGroupsResponse dec" where
  "dec_listGroupsResponse = decode_struct
     [field_of ''jsonrpc'' gr_JSONRPC gr_JSONRPC_update dec_string,
      field_of ''result'' gr_Result gr_Result_update (dec_slice listedGroup_zero dec_listedGroup),
      field_of ''id'' gr_ID gr_ID_update dec_string,
      field_of ''error'' gr_Error gr_Error_update
        (dec_ptr \<lparr>je_Code = 0, je_Message = '''', je_Data = None\<rparr> dec_jsonRPCError)]"

definition listGroupsResponse_zero :: listGroupsResponse where
  "listGroupsResponse_zero = \<lparr>gr_JSONRPC = '''', gr_Result = [], gr_ID = '''', gr_Error = None\<rparr>"

section \<open>The call\<close>

definition rpc_request :: "HTTPClient \<Rightarrow> string \<Rightarrow> http_request" where
  "rpc_request c body =
     \<lparr>hq_Method = ''POST'', hq_URL = hc_base c @ ''/api/v1/rpc'',
      hq_Header = [(''Content-Type'', ''application/json''), (''Accept'', ''application/json'')], hq_Body = body\<rparr>"

definition http_do :: "'s http_runtime \<Rightarrow> HTTPClient \<Rightarrow> ctx \<Rightarrow> string \<Rightarrow> 's \<Rightarrow> (goerr + http_response) \<times> 's" where
  "http_do rt c ctx body s =
     (if \<not> hx_url_ok rt (hq_URL (rpc_request c body)) then (Inl (Wrapped ''build http request'' (Opaque ''parse'')), s)
      else (case hx_Do rt ctx (rpc_request c body) s of
        (Inl err, s1) \<Rightarrow> (Inl (Wrapped ''signal-cli http call'' err), s1)
      | (Inr resp, s1) \<Rightarrow> (Inr resp, s1)))"

text \<open>What the body of the loop makes of one attempt: \<open>Inr\<close> is the return value of the call, \<open>Inl\<close> the
  error kept for the next round.\<close>

definition attempt_outcome :: "'a dec \<Rightarrow> 'a \<Rightarrow> goerr + http_response \<Rightarrow> goerr + (goerr + 'a)" where
  "attempt_outcome d out x = (case x of
     Inl err \<Rightarrow> Inl err
   | Inr resp \<Rightarrow>
       (case hr_Body resp of
          Inr body \<Rightarrow>
            if hr_StatusCode resp < 500 then
              (if 400 \<le> hr_StatusCode resp then Inr (Inl (Opaque ''signal-cli http error''))
               else (case json_Unmarshal d body out of
                       (Some jerr, v) \<Rightarrow> Inr (Inl (Wrapped ''decode jsonrpc response'' jerr))
                     | (None, v) \<Rightarrow> Inr (Inr v)))
            else Inl (Opaque ''signal-cli 5xx'')
        | Inl readErr \<Rightarrow> Inl (Opaque ''signal-cli 5xx'')))"

definition cli_unavailable :: "HTTPClient \<Rightarrow> goerr \<Rightarrow> goerr" where
  "cli_unavailable c err = Conj (SignalCliUnavailable (http_Host (hc_cfg c)) (http_Port (hc_cfg c))) err"

definition next_backoff :: "duration \<Rightarrow> duration" where
  "next_backoff b = (if 2 * b > 5 * Second then 5 * Second else 2 * b)"

text \<open>The loop, with the number of attempts that may still follow this one.\<close>

fun retry_loop ::
  "'s http_runtime \<Rightarrow> HTTPClient \<Rightarrow> ctx \<Rightarrow> string \<Rightarrow> 'a dec \<Rightarrow> 'a \<Rightarrow> duration \<Rightarrow> nat \<Rightarrow> 's \<Rightarrow> (goerr + 'a) \<times> 's" where
  "retry_loop rt c ctx body d out backoff left s =
     (case http_do rt c ctx body s of (r, s1) \<Rightarrow>
        (case attempt_outcome d out r of
           Inr res \<Rightarrow> (res, s1)
         | Inl lastErr \<Rightarrow>
             (case left of
                0 \<Rightarrow> (Inl (cli_unavailable c (Wrapped ''signal-cli http unreachable'' lastErr)), s1)
              | Suc left' \<Rightarrow>
                  (case hx_Wait rt ctx backoff s1 of
                     (Some e, s2) \<Rightarrow> (Inl (cli_unavailable c (Wrapped ''signal-cli http ctx'' e)), s2)
                   | (None, s2) \<Rightarrow> retry_loop rt c ctx body d out (next_backoff backoff) left' s2))))"

definition max_retries :: "HTTPClient \<Rightarrow> nat" where
  "max_retries c = (if http_MaxRetries (hc_cfg c) \<le> 0 then 3 else nat (http_MaxRetries (hc_cfg c)))"

definition callWithRetry ::
  "'s http_runtime \<Rightarrow> HTTPClient \<Rightarrow> ctx \<Rightarrow> jsonRPCRequest \<Rightarrow> 'a dec \<Rightarrow> 'a \<Rightarrow> 's \<Rightarrow> (goerr + 'a) \<times> 's" where
  "callWithRetry rt c ctx req d out s =
     retry_loop rt c ctx (json_print (jsonRPCRequest_json req)) d out (200 * Millisecond) (max_retries c) s"

definition member_names :: "groupMember list \<Rightarrow> string list" where
  "member_names ms = concat (map (\<lambda>m.
     if is_set (gm_Number m) then [the (gm_Number m)] else if gm_UUID m \<noteq> '''' then [gm_UUID m] else []) ms)"

definition mapListedGroup :: "listedGroup \<Rightarrow> SignalGroupInfo" where
  "mapListedGroup g =
     \<lparr>gi_Id = lg_ID g, gi_Name = lg_Name g,
      gi_Description = (if lg_Description g \<noteq> '''' then Some (lg_Description g) else None),
      gi_Members = (if lg_Members g \<noteq> [] then Some (member_names (lg_Members g)) else None)\<rparr>"

definition list_request :: "HTTPClient \<Rightarrow> string \<Rightarrow> jsonRPCRequest" where
  "list_request c i =
     \<lparr>jq_JSONRPC = ''2.0'', jq_Method = ''listGroups'', jq_ID = i,
      jq_Params = JObj [(''account'', JStr (hc_account c))]\<rparr>"

definition HTTPClient_ListGroups ::
  "'s http_runtime \<Rightarrow> HTTPClient \<Rightarrow> ctx \<Rightarrow> 's \<Rightarrow> (goerr + SignalGroupInfo list) \<times> 's" where
  "HTTPClient_ListGroups rt c ctx s =
     (let (i, s1) = hx_NewID rt s in
      (case callWithRetry rt c ctx (list_request c i) dec_listGroupsResponse listGroupsResponse_zero s1 of
         (Inl err, s2) \<Rightarrow> (Inl err, s2)
       | (Inr resp, s2) \<Rightarrow>
           (case gr_Error resp of
              Some e \<Rightarrow> (Inl (Opaque ''signal-cli listGroups error''), s2)
            | None \<Rightarrow> (Inr (map mapListedGroup (gr_Result resp)), s2))))"

section \<open>The transport\<close>

text \<open>The delays of the first \<open>n\<close> rounds, from the first one on.\<close>

fun delays :: "duration \<Rightarrow> nat \<Rightarrow> duration list" where
  "delays b 0 = []"
| "delays b (Suc n) = b # delays (next_backoff b) n"

text \<open>What a transport records: \<open>posts\<close> the requests sent and \<open>waits\<close> the delays slept.\<close>

locale rpc_transport =
  fixes rt :: "'s http_runtime"
    and posts :: "'s \<Rightarrow> http_request list"
    and waits :: "'s \<Rightarrow> duration list"
  assumes do_posts: "posts (snd (hx_Do rt c q s)) = posts s @ [q]"
    and do_waits: "waits (snd (hx_Do rt c q s)) = waits s"
    and wait_posts: "posts (snd (hx_Wait rt c b s)) = posts s"
    and wait_waits: "waits (snd (hx_Wait rt c b s)) = waits s @ [b]"
begin

lemma http_do_posts:
  assumes "http_do rt c ctx body s = (r, s1)"
  shows "\<exists>k \<le> 1. posts s1 = posts s @ replicate k (rpc_request c body)" and "waits s1 = waits s"
proof -
  obtain x s' where d: "hx_Do rt ctx (rpc_request c body) s = (x, s')"
    by (meson surj_pair)
  then have "posts s' = posts s @ [rpc_request c body]" "waits s' = waits s"
    using do_posts [of ctx "rpc_request c body" s] do_waits [of ctx "rpc_request c body" s] by simp_all
  with d assms show "waits s1 = waits s" and "\<exists>k \<le> 1. posts s1 = posts s @ replicate k (rpc_request c body)"
    by (auto simp: http_do_def split: if_splits sum.splits intro: exI [of _ 0] exI [of _ 1])
qed

lemma retry_effort:
  "\<exists>k n. n \<le> left \<and> k \<le> Suc n \<and>
     posts (snd (retry_loop rt c ctx body d out b left s)) = posts s @ replicate k (rpc_request c body) \<and>
     waits (snd (retry_loop rt c ctx body d out b left s)) = waits s @ delays b n"
proof (induction left arbitrary: b s)
  case 0
  obtain r s1 where h: "http_do rt c ctx body s = (r, s1)"
    by (meson surj_pair)
  then have "snd (retry_loop rt c ctx body d out b 0 s) = s1"
    by (auto split: sum.splits)
  with http_do_posts [OF h] show ?case
    by auto
next
  case (Suc left)
  obtain r s1 where h: "http_do rt c ctx body s = (r, s1)"
    by (meson surj_pair)
  obtain w s2 where w: "hx_Wait rt ctx b s1 = (w, s2)"
    by (meson surj_pair)
  obtain k where k: "k \<le> 1" "posts s1 = posts s @ replicate k (rpc_request c body)"
    using http_do_posts [OF h] by blast
  have w2: "posts s2 = posts s1" "waits s2 = waits s @ [b]"
    using wait_posts [of ctx b s1] wait_waits [of ctx b s1] w http_do_posts(2) [OF h] by simp_all
  show ?case
  proof (cases "attempt_outcome d out r")
    case (Inr res)
    then have "snd (retry_loop rt c ctx body d out b (Suc left) s) = s1"
      using h by simp
    with k http_do_posts(2) [OF h] show ?thesis
      by (intro exI [of _ k] exI [of _ 0]) simp
  next
    case (Inl e)
    show ?thesis
    proof (cases w)
      case (Some x)
      then have "snd (retry_loop rt c ctx body d out b (Suc left) s) = s2"
        using h w Inl by simp
      with k w2 show ?thesis
        by (intro exI [of _ k] exI [of _ 1]) simp
    next
      case None
      then have e: "retry_loop rt c ctx body d out b (Suc left) s =
          retry_loop rt c ctx body d out (next_backoff b) left s2"
        using h w Inl by simp
      obtain k' n where "n \<le> left" "k' \<le> Suc n"
          "posts (snd (retry_loop rt c ctx body d out (next_backoff b) left s2)) = posts s2 @ replicate k' (rpc_request c body)"
          "waits (snd (retry_loop rt c ctx body d out (next_backoff b) left s2)) = waits s2 @ delays (next_backoff b) n"
        using Suc.IH by blast
      then show ?thesis
        unfolding e using k w2
        by (intro exI [of _ "k + k'"] exI [of _ "Suc n"]) (simp add: replicate_add)
    qed
  qed
qed

end

text \<open>A daemon that answers from a script, one answer per request.\<close>

record rpc_world =
  rw_answers :: "(goerr + http_response) list"
  rw_cancels :: "goerr list"
  rw_posts :: "http_request list"
  rw_waits :: "duration list"
  rw_ids :: "string list"

definition rpc_script :: "rpc_world http_runtime" where
  "rpc_script =
     \<lparr>hx_Do = (\<lambda>c q s. (case rw_answers s of [] \<Rightarrow> Inl (Opaque ''refused'') | a # _ \<Rightarrow> a,
        s\<lparr>rw_answers := tl (rw_answers s), rw_posts := rw_posts s @ [q]\<rparr>)),
      hx_Wait = (\<lambda>c b s. (case rw_cancels s of [] \<Rightarrow> None | e # _ \<Rightarrow> Some e,
        s\<lparr>rw_cancels := tl (rw_cancels s), rw_waits := rw_waits s @ [b]\<rparr>)),
      hx_NewID = (\<lambda>s. (case rw_ids s of [] \<Rightarrow> ''0'' | i # _ \<Rightarrow> i, s\<lparr>rw_ids := tl (rw_ids s)\<rparr>)),
      hx_url_ok = (\<lambda>u. True)\<rparr>"

interpretation rpc: rpc_transport rpc_script rw_posts rw_waits
  by unfold_locales (simp_all add: rpc_script_def)

section \<open>The loop against its specification\<close>

text \<open>What the answers of the daemon determine: the first conclusive one is the result, and without one
  the daemon is unavailable.\<close>

definition wrap_do :: "goerr + http_response \<Rightarrow> goerr + http_response" where
  "wrap_do x = map_sum (Wrapped ''signal-cli http call'') id x"

definition rpc_verdict :: "HTTPClient \<Rightarrow> (goerr + (goerr + 'a)) list \<Rightarrow> goerr + 'a" where
  "rpc_verdict c os = (case dropWhile isl os of
     [] \<Rightarrow> Inl (cli_unavailable c (Wrapped ''signal-cli http unreachable'' (projl (last os))))
   | v # _ \<Rightarrow> projr v)"

definition rpc_attempts :: "(goerr + 'a) list \<Rightarrow> nat" where
  "rpc_attempts os = min (Suc (length (takeWhile isl os))) (length os)"

lemma delays_closed: "0 < b \<Longrightarrow> b \<le> 5 * Second \<Longrightarrow> delays b n = map (\<lambda>i. min (b * 2 ^ i) (5 * Second)) [0 ..< n]"
proof (induction n arbitrary: b)
  case (Suc n)
  let ?b = "next_backoff b"
  have b: "0 < ?b" "?b \<le> 5 * Second" "?b = min (2 * b) (5 * Second)"
    using Suc.prems by (auto simp: next_backoff_def)
  have "min (?b * 2 ^ i) (5 * Second) = min (b * 2 ^ Suc i) (5 * Second)" for i
  proof (cases "2 * b \<le> 5 * Second")
    case False
    have one: "1 \<le> (2 :: int) ^ i"
      by simp
    have "5 * Second * 1 \<le> 5 * Second * 2 ^ i"
      by (rule mult_left_mono [OF one]) (simp add: Second_def Millisecond_def Microsecond_def)
    moreover have "b * 2 * 1 \<le> b * 2 * 2 ^ i"
      by (rule mult_left_mono [OF one]) (use Suc.prems in simp)
    then have "b * 2 \<le> b * 2 ^ Suc i"
      by (simp only: power_Suc mult.assoc mult_1_right)
    with False have "5 * Second \<le> b * 2 ^ Suc i"
      by linarith
    ultimately show ?thesis
      using False b by (simp add: min_absorb2 del: power_Suc)
  qed (use b in \<open>simp add: algebra_simps\<close>)
  then have "delays ?b n = map (\<lambda>i. min (b * 2 ^ Suc i) (5 * Second)) [0 ..< n]"
    using Suc.IH [OF b(1,2)] by simp
  also have "\<dots> = map (\<lambda>i. min (b * 2 ^ i) (5 * Second)) [1 ..< Suc n]"
    by (simp add: map_Suc_upt [symmetric] comp_def del: upt_Suc)
  finally show ?case
    using Suc.prems by (simp add: upt_conv_Cons del: upt_Suc)
qed simp

lemma verdict_Cons: "os \<noteq> [] \<Longrightarrow> rpc_verdict c (Inl e # os) = rpc_verdict c os"
  by (cases "dropWhile isl os") (simp_all add: rpc_verdict_def del: dropWhile_eq_Nil_conv)

lemma attempts_Cons: "os \<noteq> [] \<Longrightarrow> rpc_attempts (Inl e # os) = Suc (rpc_attempts os) \<and> 0 < rpc_attempts os"
  by (simp add: rpc_attempts_def)

lemma script_do:
  "rw_answers s = a # as \<Longrightarrow> http_do rpc_script c ctx body s =
     (wrap_do a, s\<lparr>rw_answers := as, rw_posts := rw_posts s @ [rpc_request c body]\<rparr>)"
  by (cases a) (simp_all add: http_do_def rpc_script_def wrap_do_def)

lemma retry_script:
  fixes d :: "'a dec"
  assumes "rw_cancels s = []" and "left < length (rw_answers s)"
    and "os = map (\<lambda>a. attempt_outcome d out (wrap_do a)) (take (Suc left) (rw_answers s))"
  shows "\<exists>s'. retry_loop rpc_script c ctx body d out b left s = (rpc_verdict c os, s') \<and>
    rw_posts s' = rw_posts s @ replicate (rpc_attempts os) (rpc_request c body) \<and>
    rw_waits s' = rw_waits s @ delays b (rpc_attempts os - 1)"
  using assms
proof (induction left arbitrary: b s os)
  case 0
  then obtain a as where "rw_answers s = a # as"
    by (cases "rw_answers s") auto
  with 0 show ?case
    using script_do [of s a as c ctx body]
    by (cases "attempt_outcome d out (wrap_do a)") (simp_all add: rpc_verdict_def rpc_attempts_def)
next
  case (Suc left)
  then obtain a as where as: "rw_answers s = a # as"
    by (cases "rw_answers s") auto
  let ?s1 = "s\<lparr>rw_answers := as, rw_posts := rw_posts s @ [rpc_request c body]\<rparr>"
  note h = script_do [OF as, of c ctx body]
  show ?case
  proof (cases "attempt_outcome d out (wrap_do a)")
    case (Inr res)
    with Suc.prems as h show ?thesis
      by (simp add: rpc_verdict_def rpc_attempts_def)
  next
    case (Inl e)
    let ?s2 = "?s1\<lparr>rw_waits := rw_waits s @ [b]\<rparr>"
    let ?os = "map (\<lambda>a. attempt_outcome d out (wrap_do a)) (take (Suc left) as)"
    have w: "hx_Wait rpc_script ctx b ?s1 = (None, ?s2)"
      using Suc.prems(1) by (simp add: rpc_script_def)
    have os: "os = Inl e # ?os" "?os \<noteq> []"
      using Suc.prems as Inl by (auto simp: take_eq_Nil)
    have r: "retry_loop rpc_script c ctx body d out b (Suc left) s =
        retry_loop rpc_script c ctx body d out (next_backoff b) left ?s2"
      by (subst retry_loop.simps) (simp only: h prod.case Inl sum.case nat.case w option.case)
    obtain s' where "retry_loop rpc_script c ctx body d out (next_backoff b) left ?s2 = (rpc_verdict c ?os, s')"
        "rw_posts s' = rw_posts ?s2 @ replicate (rpc_attempts ?os) (rpc_request c body)"
        "rw_waits s' = rw_waits ?s2 @ delays (next_backoff b) (rpc_attempts ?os - 1)"
      using Suc.IH [of ?s2 ?os "next_backoff b"] Suc.prems as by auto
    moreover have "rpc_verdict c os = rpc_verdict c ?os"
      unfolding os(1) by (rule verdict_Cons [OF os(2)])
    moreover have "rpc_attempts os = Suc (rpc_attempts ?os)" "0 < rpc_attempts ?os"
      unfolding os(1) using attempts_Cons [OF os(2), of e] by simp_all
    ultimately show ?thesis
      unfolding r by (cases "rpc_attempts ?os") simp_all
  qed
qed

text \<open>C16. The retry loop does what the answers of the daemon determine. The first answer below 500 whose body
  was read decides, whatever it is; while there is none the same request is sent again, after a delay that
  doubles from 200 ms up to 5 s; and when the first attempt and all retries were inconclusive the result
  is \<open>SignalCliUnavailable\<close> around the last error.\<close>

theorem callWithRetry_spec:
  fixes d :: "'a dec"
  assumes "rw_cancels s = []" and "max_retries c < length (rw_answers s)"
    and os: "os = map (\<lambda>a. attempt_outcome d out (wrap_do a)) (take (Suc (max_retries c)) (rw_answers s))"
    and call: "callWithRetry rpc_script c ctx req d out s = (r, s')"
  shows "r = rpc_verdict c os \<and>
    rw_posts s' = rw_posts s @ replicate (rpc_attempts os) (rpc_request c (json_print (jsonRPCRequest_json req))) \<and>
    rw_waits s' = rw_waits s @ map (\<lambda>i. min (200 * Millisecond * 2 ^ i) (5 * Second)) [0 ..< rpc_attempts os - 1]"
proof -
  have "delays (200 * Millisecond) n = map (\<lambda>i. min (200 * Millisecond * 2 ^ i) (5 * Second)) [0 ..< n]" for n
    by (rule delays_closed) (simp_all add: Second_def Millisecond_def Microsecond_def)
  with retry_script [OF assms(1-3), of c ctx "json_print (jsonRPCRequest_json req)" "200 * Millisecond"] call
  show ?thesis
    by (auto simp: callWithRetry_def)
qed

definition sample_client :: HTTPClient where
  "sample_client =
     \<lparr>hc_cfg = \<lparr>http_Host = ''h'', http_Port = 80, http_Timeout = Second, http_MaxRetries = 1\<rparr>, hc_account = ''+1'',
      hc_base = ''http://h:80'', hc_timeout = Second\<rparr>"

definition sample_rpc :: rpc_world where
  "sample_rpc =
     \<lparr>rw_answers = [Inl (Sentinel EOF), Inr \<lparr>hr_StatusCode = 503, hr_Body = Inr ''''\<rparr>], rw_cancels = [], rw_posts = [],
      rw_waits = [], rw_ids = []\<rparr>"

theorem callWithRetry_spec_witness:
  "fst (callWithRetry rpc_script sample_client None (list_request sample_client ''i'') dec_listGroupsResponse
      listGroupsResponse_zero sample_rpc) =
     Inl (cli_unavailable sample_client (Wrapped ''signal-cli http unreachable'' (Opaque ''signal-cli 5xx''))) \<and>
   rw_waits (snd (callWithRetry rpc_script sample_client None (list_request sample_client ''i'') dec_listGroupsResponse
      listGroupsResponse_zero sample_rpc)) = [200 * Millisecond]"
  using callWithRetry_spec [OF _ _ refl prod.collapse [symmetric], where s = sample_rpc and c = sample_client
      and d = dec_listGroupsResponse and out = listGroupsResponse_zero and ctx = None
      and req = "list_request sample_client ''i''"]
  by (simp add: sample_rpc_def sample_client_def max_retries_def wrap_do_def attempt_outcome_def rpc_verdict_def
      rpc_attempts_def Second_def Millisecond_def Microsecond_def)

end
