(* ===== verification/Handler.thy ===== *)
theory Handler
  imports HttpClient World
begin

text \<open>
  The operational endpoints, \<open>internal/handler/signal_messages.go\<close>, \<open>errors.go\<close>, \<open>helpers.go\<close> and
  \<open>mapping.go\<close>: the conversions between the domain and the API types, the mapping of errors, and one
  definition per endpoint. The repository and the HTTP client are components of the handler over the
  state \<open>'s\<close>; the last sections bind them to the world of theory \<open>World\<close> and the scripted daemon of theory
  \<open>HttpClient\<close>. \<open>lib\<close> and \<open>el\<close> are the Conjure libraries.
\<close>

section \<open>Errors\<close>

definition mapToConjureError :: "error_lib \<Rightarrow> goerr option \<Rightarrow> goerr option" where
  "mapToConjureError el err = (case err of
     None \<Rightarrow> None
   | Some e \<Rightarrow> Some (
       if IsIdempotencyConflict el err \<or> IsInvalidSignalMessage el err \<or> IsSignalMessageNotFound el err \<or>
          IsSenderMismatch el err \<or> IsAttachmentUploadFailed el err \<or> IsSignalCliUnavailable el err \<or>
          IsInternalServiceError el err then e
       else if errors_Is e ErrNotFound then Conj (SignalMessageNotFound '''') e
       else if errors_Is e ErrIdempotencyConflict then Conj (IdempotencyConflict '''') e
       else Conj InternalServiceError (Wrapped ''internal service error'' e)))"

abbreviation conjure_error :: "error_lib \<Rightarrow> goerr \<Rightarrow> goerr" where
  "conjure_error el e \<equiv> the (mapToConjureError el (Some e))"

definition notFoundOrInternal :: "'y conjure_lib \<Rightarrow> error_lib \<Rightarrow> uuid \<Rightarrow> goerr \<Rightarrow> goerr" where
  "notFoundOrInternal lib el i err =
     (if errors_Is err ErrNotFound
      then Conj (SignalMessageNotFound (cl_UUIDString lib i)) (Wrapped ''signal message not found'' err)
      else conjure_error el err)"

section \<open>Conversions\<close>

definition conjureToDomainStatus :: "ApiStatus option \<Rightarrow> SignalMessageStatus option" where
  "conjureToDomainStatus s = (case s of None \<Rightarrow> None | Some v \<Rightarrow> Some (Status_Value v))"

definition dateTimeToTime :: "gotime option \<Rightarrow> gotime option" where
  "dateTimeToTime d = (case d of None \<Rightarrow> None | Some t \<Rightarrow> Some t)"

definition intPtrToInt32 :: "int option \<Rightarrow> int option" where
  "intPtrToInt32 v = (case v of None \<Rightarrow> None | Some n \<Rightarrow> Some (int32 n))"

definition coalescePositive :: "int option \<Rightarrow> int \<Rightarrow> int" where
  "coalescePositive v fallback = (case v of None \<Rightarrow> fallback | Some n \<Rightarrow> if n \<le> 0 then fallback else int32 n)"

definition coalesceNonNegative :: "int option \<Rightarrow> int" where
  "coalesceNonNegative v = (case v of None \<Rightarrow> 0 | Some n \<Rightarrow> if n < 0 then 0 else int32 n)"

definition toConjureAttachment :: "'y conjure_lib \<Rightarrow> Attachment \<Rightarrow> ApiAttachment" where
  "toConjureAttachment lib a =
     \<lparr>aa_Bucket = att_Bucket a, aa_Filename = att_Filename a,
      aa_MimeType = (if att_MimeType a \<noteq> '''' then Some (att_MimeType a) else None),
      aa_Size = (if 0 < att_Size a
                 then case cl_NewSafeLong lib (att_Size a) of Inl e \<Rightarrow> None | Inr n \<Rightarrow> Some n else None)\<rparr>"

definition toConjureAttachments :: "'y conjure_lib \<Rightarrow> Attachments \<Rightarrow> ApiAttachment list" where
  "toConjureAttachments lib as = map (toConjureAttachment lib) as"

definition domainToConjure :: "'y conjure_lib \<Rightarrow> SignalMessage \<Rightarrow> SignalMessageInfo" where
  "domainToConjure lib m =
     \<lparr>info_Id = sm_ID m, info_ExternalId = sm_ExternalID m, info_IdempotencyKey = sm_IdempotencyKey m,
      info_Recipient = sm_Recipient m, info_GroupId = sm_GroupID m,
      info_SenderPhoneNumber = sm_SenderPhoneNumber m, info_Content = sm_Content m,
      info_Attachments = toConjureAttachments lib (sm_Attachments m), info_Attempts = sm_Attempts m,
      info_MaxAttempts = sm_MaxAttempts m, info_NextAttemptAt = sm_NextAttemptAt m,
      info_TimeoutAt = sm_TimeoutAt m, info_Status = New_SignalMessageStatus (sm_Status m),
      info_LastError = sm_LastError m, info_ResultId = sm_ResultID m, info_QuoteResultId = sm_QuoteResultID m,
      info_CorrelationId = sm_CorrelationID m, info_CreatedAt = sm_CreatedAt m, info_ModifiedAt = sm_ModifiedAt m\<rparr>"

section \<open>The endpoints\<close>

record 's MessagesRepo =
  mr_List :: "ctx \<Rightarrow> ListFilters \<Rightarrow> 's \<Rightarrow> (goerr + SignalMessage list) \<times> 's"
  mr_Count :: "ctx \<Rightarrow> ListFilters \<Rightarrow> 's \<Rightarrow> (goerr + int) \<times> 's"
  mr_GetByID :: "ctx \<Rightarrow> uuid \<Rightarrow> 's \<Rightarrow> (goerr + SignalMessage) \<times> 's"
  mr_UpdateStatus :: "ctx \<Rightarrow> uuid \<Rightarrow> SignalMessageStatus \<Rightarrow> 's \<Rightarrow> (goerr + SignalMessage) \<times> 's"
  mr_Resend :: "ctx \<Rightarrow> uuid \<Rightarrow> 's \<Rightarrow> goerr option \<times> 's"
  mr_StatsCounts :: "ctx \<Rightarrow> 's \<Rightarrow> (goerr + StatusCount list) \<times> 's"
  mr_StatsPerDay :: "ctx \<Rightarrow> 's \<Rightarrow> (goerr + DayCount list) \<times> 's"

record 's SignalMessagesHandler =
  sh_repo :: "'s MessagesRepo"
  sh_signalHTTP :: HTTPClient
  sh_install :: Install

definition NewSignalMessagesService :: "'s MessagesRepo \<Rightarrow> HTTPClient \<Rightarrow> Install \<Rightarrow> 's SignalMessagesHandler" where
  "NewSignalMessagesService r httpClient install =
     \<lparr>sh_repo = r, sh_signalHTTP = httpClient, sh_install = install\<rparr>"

definition listDefaultLimit :: int where
  "listDefaultLimit = 50"

definition GetInstanceInfo :: "'s SignalMessagesHandler \<Rightarrow> 's \<Rightarrow> (goerr + InstanceInfo) \<times> 's" where
  "GetInstanceInfo h s =
     (Inr \<lparr>ii_Name = inst_ProductName (sh_install h),
           ii_SenderPhoneNumber = scc_SenderPhoneNumber (inst_SignalCli (sh_install h))\<rparr>, s)"

definition ListGroups ::
  "error_lib \<Rightarrow> 's http_runtime \<Rightarrow> 's SignalMessagesHandler \<Rightarrow> ctx \<Rightarrow> 's \<Rightarrow> (goerr + SignalGroupInfo list) \<times> 's" where
  "ListGroups el rt h ctx s = (case HTTPClient_ListGroups rt (sh_signalHTTP h) ctx s of
     (Inl err, s1) \<Rightarrow> (Inl (conjure_error el err), s1)
   | (Inr groups, s1) \<Rightarrow> (Inr groups, s1))"

definition list_filters ::
  "string option \<Rightarrow> int option \<Rightarrow> int option \<Rightarrow> gotime option \<Rightarrow> gotime option \<Rightarrow> ApiStatus option \<Rightarrow> int option \<Rightarrow>
     ListFilters" where
  "list_filters q limit offset createdAtFrom createdAtTo st att =
     \<lparr>lf_Q = q, lf_Status = conjureToDomainStatus st, lf_Attempts = intPtrToInt32 att,
      lf_CreatedAtFrom = dateTimeToTime createdAtFrom, lf_CreatedAtTo = dateTimeToTime createdAtTo,
      lf_Limit = coalescePositive limit listDefaultLimit, lf_Offset = coalesceNonNegative offset\<rparr>"

definition ListSignalMessages ::
  "'y conjure_lib \<Rightarrow> error_lib \<Rightarrow> 's SignalMessagesHandler \<Rightarrow> ctx \<Rightarrow> string option \<Rightarrow> int option \<Rightarrow> int option \<Rightarrow>
     gotime option \<Rightarrow> gotime option \<Rightarrow> ApiStatus option \<Rightarrow> int option \<Rightarrow> 's \<Rightarrow> (goerr + SignalMessageList) \<times> 's" where
  "ListSignalMessages lib el h ctx q limit offset createdAtFrom createdAtTo st att s =
     (let filters = list_filters q limit offset createdAtFrom createdAtTo st att in
      (case mr_List (sh_repo h) ctx filters s of
         (Inl err, s1) \<Rightarrow> (Inl (conjure_error el err), s1)
       | (Inr rows, s1) \<Rightarrow>
           (case mr_Count (sh_repo h) ctx filters s1 of
              (Inl err, s2) \<Rightarrow> (Inl (conjure_error el err), s2)
            | (Inr n, s2) \<Rightarrow>
                (Inr \<lparr>lst_Items = map (domainToConjure lib) rows, lst_Total = n\<rparr>, s2))))"

definition GetSignalMessage ::
  "'y conjure_lib \<Rightarrow> error_lib \<Rightarrow> 's SignalMessagesHandler \<Rightarrow> ctx \<Rightarrow> uuid \<Rightarrow> 's \<Rightarrow> (goerr + SignalMessageInfo) \<times> 's" where
  "GetSignalMessage lib el h ctx i s = (case mr_GetByID (sh_repo h) ctx i s of
     (Inl err, s1) \<Rightarrow> (Inl (notFoundOrInternal lib el i err), s1)
   | (Inr row, s1) \<Rightarrow> (Inr (domainToConjure lib row), s1))"

definition isOperatorAssignableStatus :: "SignalMessageStatus \<Rightarrow> bool" where
  "isOperatorAssignableStatus s \<longleftrightarrow>
     s = StatusPending \<or> s = StatusSent \<or> s = StatusFailed \<or> s = StatusPermanentFailed \<or> s = StatusTimedOut"

definition UpdateSignalMessage ::
  "'y conjure_lib \<Rightarrow> error_lib \<Rightarrow> 's SignalMessagesHandler \<Rightarrow> ctx \<Rightarrow> uuid \<Rightarrow> UpdateSignalMessageRequest \<Rightarrow> 's \<Rightarrow>
     (goerr + SignalMessageInfo) \<times> 's" where
  "UpdateSignalMessage lib el h ctx i body s =
     (let target = Status_Value (ur_Status body) in
      if \<not> isOperatorAssignableStatus target then
        (Inl (Conj (InvalidSignalMessage ''status''
                ''must be one of PENDING, SENT, FAILED, PERMANENT_FAILED, TIMED_OUT'')
              (Opaque ''status not operator-assignable'')), s)
      else (case mr_UpdateStatus (sh_repo h) ctx i target s of
        (Inl err, s1) \<Rightarrow> (Inl (notFoundOrInternal lib el i err), s1)
      | (Inr row, s1) \<Rightarrow> (Inr (domainToConjure lib row), s1)))"

definition ResendSignalMessage ::
  "'y conjure_lib \<Rightarrow> error_lib \<Rightarrow> 's SignalMessagesHandler \<Rightarrow> ctx \<Rightarrow> uuid \<Rightarrow> 's \<Rightarrow> (goerr + SignalMessageInfo) \<times> 's" where
  "ResendSignalMessage lib el h ctx i s = (case mr_GetByID (sh_repo h) ctx i s of
     (Inl err, s1) \<Rightarrow> (Inl (notFoundOrInternal lib el i err), s1)
   | (Inr _, s1) \<Rightarrow>
       (case mr_Resend (sh_repo h) ctx i s1 of
          (Some err, s2) \<Rightarrow> (Inl (conjure_error el err), s2)
        | (None, s2) \<Rightarrow>
            (case mr_GetByID (sh_repo h) ctx i s2 of
               (Inl err, s3) \<Rightarrow> (Inl (notFoundOrInternal lib el i err), s3)
             | (Inr row, s3) \<Rightarrow> (Inr (domainToConjure lib row), s3))))"

definition stats_of :: "StatusCount list \<Rightarrow> DayCount list \<Rightarrow> SignalMessageStats" where
  "stats_of counts perDay =
     \<lparr>sts_Counts = fold (\<lambda>c. AList.update (New_SignalMessageStatus (stc_Status c)) (stc_Count c)) counts [],
      sts_PerDay = map (\<lambda>d. \<lparr>dst_Date = dc_Date d, dst_Sent = dc_Sent d, dst_Failed = dc_Failed d\<rparr>) perDay\<rparr>"

definition GetSignalMessagesStats ::
  "error_lib \<Rightarrow> 's SignalMessagesHandler \<Rightarrow> ctx \<Rightarrow> 's \<Rightarrow> (goerr + SignalMessageStats) \<times> 's" where
  "GetSignalMessagesStats el h ctx s = (case mr_StatsCounts (sh_repo h) ctx s of
     (Inl err, s1) \<Rightarrow> (Inl (conjure_error el err), s1)
   | (Inr counts, s1) \<Rightarrow>
       (case mr_StatsPerDay (sh_repo h) ctx s1 of
          (Inl err, s2) \<Rightarrow> (Inl (conjure_error el err), s2)
        | (Inr perDay, s2) \<Rightarrow> (Inr (stats_of counts perDay), s2)))"

section \<open>Errors are Conjure errors\<close>

text \<open>What the mapper returns has a Conjure error in its chain, so the framework renders it as such.\<close>

lemma mapped_is_conjure:
  assumes "error_laws el"
  shows "\<exists>c. el_GetConjureError el (conjure_error el e) = Some c"
proof (cases "el_GetConjureError el e")
  case None
  then show ?thesis
    using assms by (simp add: mapToConjureError_def IsIdempotencyConflict_def IsInvalidSignalMessage_def
        IsSignalMessageNotFound_def IsSenderMismatch_def IsAttachmentUploadFailed_def IsSignalCliUnavailable_def
        IsInternalServiceError_def error_laws_def)
next
  case (Some c)
  then show ?thesis
    by (cases c) (simp_all add: mapToConjureError_def IsIdempotencyConflict_def IsInvalidSignalMessage_def
        IsSignalMessageNotFound_def IsSenderMismatch_def IsAttachmentUploadFailed_def IsSignalCliUnavailable_def
        IsInternalServiceError_def)
qed

lemma not_found_is_conjure:
  assumes "error_laws el"
  shows "\<exists>c. el_GetConjureError el (notFoundOrInternal lib el i e) = Some c"
  using assms mapped_is_conjure [OF assms] by (simp add: notFoundOrInternal_def error_laws_def)

section \<open>The repository behind the endpoints\<close>

text \<open>The repository of the world, and its pairing with the daemon of the HTTP client.\<close>

definition on_fst :: "('a \<Rightarrow> 'r \<times> 'a) \<Rightarrow> 'a \<times> 'b \<Rightarrow> 'r \<times> ('a \<times> 'b)" where
  "on_fst f s = (let (r, a) = f (fst s) in (r, (a, snd s)))"

definition on_snd :: "('b \<Rightarrow> 'r \<times> 'b) \<Rightarrow> 'a \<times> 'b \<Rightarrow> 'r \<times> ('a \<times> 'b)" where
  "on_snd f s = (let (r, b) = f (snd s) in (r, (fst s, b)))"

type_synonym api_world = "world \<times> rpc_world"

definition api_repo ::
  "(string \<Rightarrow> string \<Rightarrow> bool) \<Rightarrow> pg_status list \<Rightarrow> (gotime \<Rightarrow> string) \<Rightarrow> api_world MessagesRepo" where
  "api_repo ilike order day =
     \<lparr>mr_List = (\<lambda>c f. on_fst (db_run c (\<lambda>d now. Messages_List ilike d f))),
      mr_Count = (\<lambda>c f. on_fst (db_run c (\<lambda>d now. Messages_Count ilike d f))),
      mr_GetByID = (\<lambda>c i. on_fst (db_run c (\<lambda>d now. Messages_GetByID d i))),
      mr_UpdateStatus = (\<lambda>c i st. on_fst (db_run c (\<lambda>d now. Messages_UpdateStatus d now i st))),
      mr_Resend = (\<lambda>c i. on_fst (db_run c (\<lambda>d now. Messages_Resend d now i))),
      mr_StatsCounts = (\<lambda>c. on_fst (db_run c (\<lambda>d now. Messages_StatsCounts d order))),
      mr_StatsPerDay = (\<lambda>c. on_fst (db_run c (\<lambda>d now. Messages_StatsPerDay day d now)))\<rparr>"

definition api_http :: "api_world http_runtime" where
  "api_http =
     \<lparr>hx_Do = (\<lambda>c q. on_snd (hx_Do rpc_script c q)), hx_Wait = (\<lambda>c b. on_snd (hx_Wait rpc_script c b)),
      hx_NewID = on_snd (hx_NewID rpc_script), hx_url_ok = hx_url_ok rpc_script\<rparr>"

definition api_handler ::
  "(string \<Rightarrow> string \<Rightarrow> bool) \<Rightarrow> pg_status list \<Rightarrow> (gotime \<Rightarrow> string) \<Rightarrow> Install \<Rightarrow> api_world SignalMessagesHandler" where
  "api_handler ilike order day install =
     NewSignalMessagesService (api_repo ilike order day) (NewHTTPClient install) install"

interpretation api: rpc_transport api_http "\<lambda>s. rw_posts (snd s)" "\<lambda>s. rw_waits (snd s)"
  by unfold_locales (simp_all add: api_http_def on_snd_def rpc_script_def)

lemma api_handler_simps [simp]:
  "sh_repo (api_handler ilike order day install) = api_repo ilike order day"
  "sh_signalHTTP (api_handler ilike order day install) = NewHTTPClient install"
  "sh_install (api_handler ilike order day install) = install"
  by (simp_all add: api_handler_def NewSignalMessagesService_def)

lemma on_fst_run:
  assumes "on_fst (db_run c f) s = (x, s')"
  shows "\<exists>d now. (x, w_tbl (fst s')) = f d now (w_tbl (fst s))" and "snd s' = snd s"
proof -
  obtain y w' where r: "db_run c f (fst s) = (y, w')"
    by (meson surj_pair)
  with assms have s': "x = y" "fst s' = w'" "snd s' = snd s"
    by (auto simp: on_fst_def)
  then show "\<exists>d now. (x, w_tbl (fst s')) = f d now (w_tbl (fst s))" and "snd s' = snd s"
    using db_run_state(7) [OF r] by blast+
qed

section \<open>Answers are well typed\<close>

text \<open>A row of a UTF-8 database whose instants have four-digit years.\<close>

definition wire_row :: "row \<Rightarrow> bool" where
  "wire_row r \<longleftrightarrow> utf8_valid (external_id r) \<and> opt_all utf8_valid (idempotency_key r) \<and>
     opt_all utf8_valid (recipient r) \<and> opt_all utf8_valid (group_id r) \<and> utf8_valid (sender_phone_number r) \<and>
     utf8_valid (content r) \<and>
     list_all (\<lambda>a. utf8_valid (att_Bucket a) \<and> utf8_valid (att_Filename a) \<and> utf8_valid (att_MimeType a)) (attachments r) \<and>
     in_int32 (max_attempts r) \<and> wire_time (next_attempt_at r) \<and> opt_all wire_time (timeout_at r) \<and>
     opt_all utf8_valid (last_error r) \<and> opt_all utf8_valid (result_id r) \<and> opt_all utf8_valid (quote_result_id r) \<and>
     utf8_valid (correlation_id r) \<and> wire_time (created_at r) \<and> wire_time (modified_at r)"

lemma int32_int64: "in_int32 i \<Longrightarrow> in_int64 i"
  by (simp add: in_int32_def in_int64_def)

lemma enum_known: "\<not> Status_IsUnknown (New_SignalMessageStatus (pg_enum_out v))"
  by (cases v) (simp_all add: Status_IsUnknown_def New_SignalMessageStatus_def)

lemma attachment_typed:
  assumes "conjure_laws lib" and "utf8_valid (att_Bucket a)" "utf8_valid (att_Filename a)" "utf8_valid (att_MimeType a)"
  shows "ApiAttachment_ok (toConjureAttachment lib a)"
proof -
  have "safe_long i" if "cl_NewSafeLong lib (att_Size a) = Inr i" for i
    using assms(1) that by (auto simp: conjure_laws_def)
  with assms(2-4) show ?thesis
    by (auto simp: ApiAttachment_ok_def toConjureAttachment_def split: if_splits sum.splits)
qed

lemma info_typed:
  assumes "conjure_laws lib" and "row_ok r" and "wire_row r"
  shows "SignalMessageInfo_ok (domainToConjure lib (row_message r))"
  using assms attachment_typed [OF assms(1)]
  by (auto simp: SignalMessageInfo_ok_def domainToConjure_def row_message_def wire_row_def row_ok_def int32_int64
      enum_known toConjureAttachments_def list_all_iff)

lemma Messages_List_rows:
  assumes "Messages_List ilike d f t = (Inr ms, t')"
  shows "\<exists>rs. ms = map row_message rs \<and> set rs \<subseteq> set t"
proof -
  from assms have d: "d = Done"
    by (cases d) (auto simp: Messages_List_def wrap_result_def Let_def split_beta)
  obtain st where st: "status_arg (lf_Status f) = Inr st"
    using assms d by (cases "status_arg (lf_Status f)")
      (auto simp: Messages_List_def Queries_List_def wrap_result_def)
  have "0 \<le> lf_Limit f" "0 \<le> lf_Offset f"
    using assms d st by (auto simp: Messages_List_def Queries_List_def wrap_result_def split: if_splits)
  then have ms: "ms = map row_message (take (nat (lf_Limit f)) (drop (nat (lf_Offset f)) (selected ilike f st t)))"
    using assms Messages_List_Done [OF st, of ilike t] by (auto simp: d)
  have "set (take m (drop n (selected ilike f st t))) \<subseteq> set t" for m n
    using set_take_subset set_drop_subset by (fastforce simp: selected_def)
  with ms show ?thesis
    by blast
qed

lemma Messages_List_table: "snd (Messages_List ilike d f t) = t"
  by (cases d) (auto simp: Messages_List_def Queries_List_def Let_def split_beta split: sum.splits if_splits)

lemma Messages_Count_range:
  assumes "Messages_Count ilike d f t = (Inr n, t')"
  shows "in_int32 n"
  using assms
  by (cases d) (auto simp: Messages_Count_def Queries_Count_def Let_def split_beta wrap_result_def count_int4_def
      split: sum.splits if_splits)

lemma list_page_ok:
  assumes "conjure_laws lib"
    and rows: "\<forall>r \<in> set (w_tbl (fst s)). row_ok r \<and> wire_row r"
    and call: "ListSignalMessages lib el (api_handler ilike order day install) c q limit offset from_at to_at st att s = (Inr l, s')"
  shows "SignalMessageList_ok l"
proof -
  let ?f = "list_filters q limit offset from_at to_at st att"
  obtain ms s1 n where list: "on_fst (db_run c (\<lambda>d now. Messages_List ilike d ?f)) s = (Inr ms, s1)"
    and cnt: "on_fst (db_run c (\<lambda>d now. Messages_Count ilike d ?f)) s1 = (Inr n, s')"
    and l: "l = \<lparr>lst_Items = map (domainToConjure lib) ms, lst_Total = n\<rparr>"
    using call by (auto simp: ListSignalMessages_def api_repo_def Let_def split: prod.splits sum.splits)
  obtain rs where "ms = map row_message rs" "set rs \<subseteq> set (w_tbl (fst s))"
    using on_fst_run(1) [OF list] Messages_List_rows by metis
  moreover have "in_int32 n"
    using on_fst_run(1) [OF cnt] Messages_Count_range by metis
  ultimately show ?thesis
    using rows info_typed [OF assms(1)] by (auto simp: SignalMessageList_ok_def l list_all_iff int32_int64)
qed


section \<open>Operator overrides\<close>

lemma assignable_enum:
  assumes "isOperatorAssignableStatus v"
  shows "\<exists>e. v = pg_enum_out e \<and> e \<noteq> SENDING"
  using assms unfolding isOperatorAssignableStatus_def status_strings_enum
  by (auto simp del: pg_enum_out.simps)

lemma Messages_UpdateStatus_effect:
  assumes "Messages_UpdateStatus d now i (pg_enum_out v) t = (x, t')"
  defines "P \<equiv> \<lambda>r. signal_message_id r = i \<and> deleted_at r = None"
  shows "t' = t \<or> t' = update_where P (restatus_row now v) t"
    and "x = Inr m \<Longrightarrow> \<exists>r. List.find P t = Some r \<and> m = row_message (restatus_row now v r) \<and>
      t' = update_where P (restatus_row now v) t"
proof -
  have q: "Queries_UpdateStatus now \<lparr>us_Status = pg_enum_out v, us_ID = uuidToPg i\<rparr> t =
      (query_row (map_option (restatus_row now v) (List.find P t)), update_where P (restatus_row now v) t)"
    by (simp add: Queries_UpdateStatus_def P_def Let_def eq_commute [of i] cong: conj_cong)
  show "t' = t \<or> t' = update_where P (restatus_row now v) t"
    using assms(1) q by (cases d) (auto simp: Messages_UpdateStatus_def Let_def split_beta)
  show "\<exists>r. List.find P t = Some r \<and> m = row_message (restatus_row now v r) \<and>
      t' = update_where P (restatus_row now v) t" if "x = Inr m"
  proof (cases d)
    case Done
    then show ?thesis
      using assms(1) q that by (cases "List.find P t") (auto simp: Messages_UpdateStatus_def)
  qed (use assms(1) that in \<open>auto simp: Messages_UpdateStatus_def wrap_row_def Let_def split: if_splits\<close>)
qed

lemma find_live_row_at:
  assumes "table_ok t" and "List.find (\<lambda>r. signal_message_id r = i \<and> deleted_at r = None) t = Some r"
  shows "row_at t i = Some r"
proof -
  have "r \<in> set t" "signal_message_id r = i"
    using find_Some_iff_first [OF assms(2)] by auto
  then show ?thesis
    using row_at_mem [of t r] assms(1) by (auto simp: table_ok_def)
qed

lemma restatus_table_ok: "table_ok t \<Longrightarrow> table_ok (update_where P (restatus_row now v) t)"
  by (rule restatus.update_table_ok) (auto simp: restatus_row_def row_ok_def)

text \<open>C22. An operator override. A status that is unknown or SENDING is refused as an invalid request before
  anything is touched. Otherwise at most the addressed row changes, in its status and modification time
  only and never to SENDING, so no override takes a lease; the table stays well formed however the
  database answers; an error is a Conjure error, and a success shows the row as it is stored.\<close>

theorem UpdateSignalMessage_safe:
  fixes s s' :: api_world
  defines "t \<equiv> w_tbl (fst s)" and "t' \<equiv> w_tbl (fst s')"
  assumes "error_laws el" and tok: "table_ok (w_tbl (fst s))"
    and call: "UpdateSignalMessage lib el (api_handler ilike order day install) c i body s = (r, s')"
  shows "table_ok t' \<and>
    (\<forall>j. row_at t' j = row_at t j \<or>
       j = i \<and> (\<exists>row v now. row_at t i = Some row \<and> pg_enum_out v = Status_Value (ur_Status body) \<and> v \<noteq> SENDING \<and>
         row_at t' i = Some (restatus_row now v row))) \<and>
    (\<not> isOperatorAssignableStatus (Status_Value (ur_Status body)) \<longrightarrow>
       s' = s \<and> (\<exists>f m e. r = Inl (Conj (InvalidSignalMessage f m) e))) \<and>
    (\<forall>e. r = Inl e \<longrightarrow> (\<exists>ce. el_GetConjureError el e = Some ce)) \<and>
    (\<forall>info. r = Inr info \<longrightarrow> (\<exists>row. row_at t' i = Some row \<and> info = domainToConjure lib (row_message row)))"
proof (cases "isOperatorAssignableStatus (Status_Value (ur_Status body))")
  case False
  then show ?thesis
    using assms(3) call tok by (auto simp: UpdateSignalMessage_def t_def t'_def error_laws_def)
next
  case True
  then obtain v where v: "Status_Value (ur_Status body) = pg_enum_out v" "v \<noteq> SENDING"
    using assignable_enum by blast
  let ?P = "\<lambda>r. signal_message_id r = i \<and> deleted_at r = None"
  obtain x where run: "on_fst (db_run c (\<lambda>d now. Messages_UpdateStatus d now i (pg_enum_out v))) s = (x, s')"
    and r: "r = (case x of Inl err \<Rightarrow> Inl (notFoundOrInternal lib el i err) | Inr row \<Rightarrow> Inr (domainToConjure lib row))"
    using call True by (auto simp: UpdateSignalMessage_def api_repo_def v Let_def split: prod.splits sum.splits)
  obtain d now where u: "Messages_UpdateStatus d now i (pg_enum_out v) t = (x, t')"
    using on_fst_run(1) [OF run] unfolding t_def t'_def by metis
  note eff = Messages_UpdateStatus_effect [OF u]
  have at: "row_at (update_where ?P (restatus_row now v) t) j =
      map_option (\<lambda>r. if j = i \<and> deleted_at r = None then restatus_row now v r else r) (row_at t j)" for j
    by (rule restatus.row_at_update_id)
  have "table_ok t'"
    using eff(1) tok restatus_table_ok unfolding t_def by auto
  moreover have "row_at t' j = row_at t j \<or> j = i \<and> (\<exists>row v' now'. row_at t i = Some row \<and>
      pg_enum_out v' = Status_Value (ur_Status body) \<and> v' \<noteq> SENDING \<and> row_at t' i = Some (restatus_row now' v' row))" for j
    using eff(1) at [of j] v by (cases "row_at t j") (auto split: if_splits)
  moreover have "\<exists>ce. el_GetConjureError el e = Some ce" if "r = Inl e" for e
    using that r not_found_is_conjure [OF assms(3)] by (auto split: sum.splits)
  moreover have "\<exists>row. row_at t' i = Some row \<and> info = domainToConjure lib (row_message row)" if ri: "r = Inr info" for info
  proof -
    obtain m where m: "x = Inr m" "info = domainToConjure lib m"
      using ri r by (cases x) auto
    then obtain row where "List.find ?P t = Some row" "m = row_message (restatus_row now v row)"
        "t' = update_where ?P (restatus_row now v) t"
      using eff(2) by blast
    moreover have "deleted_at row = None" "row_at t i = Some row"
      using find_Some_iff_first [OF calculation(1)] find_live_row_at [OF tok [folded t_def] calculation(1)] by auto
    ultimately show ?thesis
      using at [of i] m by auto
  qed
  ultimately show ?thesis
    using True by blast
qed

section \<open>Paging at the boundary\<close>

text \<open>C39. The page size is an \<open>int\<close> of the request narrowed to 32 bits. A size between two to the 31 and two to
  the 32 becomes negative, which the database refuses: the request is answered as an internal error. A
  size above wraps around to a small one.\<close>

theorem large_limit_is_internal_error:
  assumes "error_laws el" and "w_db (fst s) = []" and "\<not> ctx_done c (fst s)"
    and "2 ^ 31 \<le> n" and "n < 2 ^ 32"
  shows "\<exists>e. fst (ListSignalMessages lib el (api_handler ilike order day install) c None (Some n) None None None None None s) =
      Inl (Conj InternalServiceError e) \<and>
    (0 < m \<and> m < 2 ^ 31 \<longrightarrow> coalescePositive (Some (m + 2 ^ 32)) listDefaultLimit = m)"
proof -
  have "(n + 2 ^ 31) mod 2 ^ 32 = n + 2 ^ 31 - 2 ^ 32"
    using assms(4,5) by (simp add: mod_pos_geq)
  then have i32: "int32 n = n - 2 ^ 32" "0 < m \<and> m < 2 ^ 31 \<Longrightarrow> int32 (m + 2 ^ 32) = m"
    using int32_wraps [of m] by (simp_all add: int32_mod in_int32_def)
  have "fst (Messages_List ilike Done (list_filters None (Some n) None None None None None) t) =
      Inl (Wrapped ''list signal messages'' (sql_error ''LIMIT must not be negative''))" for t
    using assms(4,5) i32
    by (simp add: Messages_List_def Queries_List_def list_filters_def coalescePositive_def conjureToDomainStatus_def
        status_arg_def wrap_result_def)
  then show ?thesis
    using assms i32
    by (auto simp: ListSignalMessages_def api_repo_def on_fst_def db_run_def next_of_def Let_def split_beta
        coalescePositive_def mapToConjureError_def IsIdempotencyConflict_def IsInvalidSignalMessage_def
        IsSignalMessageNotFound_def IsSenderMismatch_def IsAttachmentUploadFailed_def IsSignalCliUnavailable_def
        IsInternalServiceError_def error_laws_def sql_error_def split: sum.splits)
qed

definition sample_api :: api_world where
  "sample_api = (sample_world\<lparr>w_tbl := [sample_row 1 ''a'' PENDING]\<rparr>, sample_rpc)"

abbreviation sample_handler :: "api_world SignalMessagesHandler" where
  "sample_handler \<equiv> api_handler (\<lambda>a b. True) [] (\<lambda>t. '''') sample_install"

lemma sample_row_ok: "row_ok (sample_row 1 ''a'' PENDING)" "wire_row (sample_row 1 ''a'' PENDING)"
  "table_ok [sample_row 1 ''a'' PENDING]"
  by (simp_all add: sample_row_def sample_params_def new_row_def sqlc_insert_params_def row_ok_def wire_row_def
      table_ok_def exactly_one_target_def in_int32_def utf8_valid_ascii wire_time_def sql_ts_tsTz pg_ts_def Microsecond_def)

lemma sample_page:
  "\<exists>l s'. ListSignalMessages text_lib text_errors sample_handler None None None None None None None None sample_api = (Inr l, s')"
proof -
  have "\<not> isl (fst (ListSignalMessages text_lib text_errors sample_handler None None None None None None None None sample_api))"
    by code_simp
  then show ?thesis
    by (metis prod.collapse sum.collapse(2))
qed


theorem UpdateSignalMessage_safe_witness:
  "\<exists>row. row_at (w_tbl (fst (snd (UpdateSignalMessage text_lib text_errors sample_handler None 1
      \<lparr>ur_Status = \<lparr>ste_val = ''FAILED''\<rparr>\<rparr> sample_api)))) 1 = Some row"
proof -
  have ok: "table_ok (w_tbl (fst sample_api))"
    using sample_row_ok by (simp add: sample_api_def)
  have at: "row_at (w_tbl (fst sample_api)) 1 \<noteq> None"
    by (simp add: sample_api_def row_at_def sample_row_def new_row_def)
  show ?thesis
    using UpdateSignalMessage_safe [OF text_errors_laws ok prod.collapse [symmetric],
        of text_lib "\<lambda>a b. True" "[]" "\<lambda>t. ''''" sample_install None 1 "\<lparr>ur_Status = \<lparr>ste_val = ''FAILED''\<rparr>\<rparr>"] at
    by (metis not_None_eq)
qed

theorem large_limit_is_internal_error_witness:
  "\<exists>e. fst (ListSignalMessages text_lib text_errors sample_handler None None (Some (2 ^ 31)) None None None None None sample_api) =
     Inl (Conj InternalServiceError e)"
proof -
  have "w_db (fst sample_api) = []" "\<not> ctx_done None (fst sample_api)"
    by (simp_all add: sample_api_def sample_world_def ctx_done_def)
  from large_limit_is_internal_error [OF text_errors_laws this, where n = "2 ^ 31" and lib = text_lib
      and ilike = "\<lambda>a b. True" and order = "[]" and day = "\<lambda>t. ''''" and install = sample_install] show ?thesis
    by simp
qed

end
