(* ===== verification/Multipart.thy ===== *)
theory Multipart
  imports Handler Delivery
begin

text \<open>
  The upload endpoint, \<open>internal/handler/multipart.go\<close>: the metadata part, the stream of attachments, and the
  replies. A request is its method, its content type and what \<open>MultipartReader\<close> gives: an error, or the
  answers of \<open>NextPart\<close> in turn, with \<open>io.EOF\<close> after the last. The response writer is the reply.
\<close>

section \<open>Requests and replies\<close>

record mime_part =
  mp_FormName :: string
  mp_FileName :: string
  mp_ContentType :: string
  mp_Body :: string

type_synonym mime_parts = "(goerr + mime_part) list"

record upload_request =
  uq_Method :: string
  uq_ContentType :: string
  uq_MultipartReader :: "goerr + mime_parts"

text \<open>An accepted reply is its status, content type and body; an error reply the error that
  \<open>WriteErrorResponse\<close> renders.\<close>

datatype http_reply = Reply_ok int string string | Reply_error conjerr | Reply_internal

definition writeAccepted :: "'y conjure_lib \<Rightarrow> uuid \<Rightarrow> http_reply" where
  "writeAccepted lib i =
     Reply_ok 202 (cl_ContentType lib) (cl_Marshal lib (SignalMessageAccepted_json lib \<lparr>ac_Id = i\<rparr>))"

text \<open>\<open>errors.As\<close> finds the first Conjure error along \<open>Unwrap\<close>.\<close>

definition writeError :: "goerr \<Rightarrow> http_reply" where
  "writeError err = (case first_conjure err of Some c \<Rightarrow> Reply_error c | None \<Rightarrow> Reply_internal)"

section \<open>Parts\<close>

definition bad_request :: "string \<Rightarrow> string \<Rightarrow> goerr \<Rightarrow> goerr" where
  "bad_request field reason cause = Conj (InvalidSignalMessage field reason) cause"

definition toCreateMessage :: "CreateSignalMessageRequest \<Rightarrow> CreateMessage" where
  "toCreateMessage r =
     \<lparr>cm_ExternalID = cr_ExternalId r, cm_IdempotencyKey = cr_IdempotencyKey r, cm_Recipient = cr_Recipient r,
      cm_GroupID = cr_GroupId r, cm_SenderPhoneNumber = cr_SenderPhoneNumber r, cm_Content = cr_Content r,
      cm_QuoteResultID = cr_QuoteResultId r, cm_TimeoutSeconds = cr_TimeoutSeconds r,
      cm_MaxAttempts = cr_MaxAttempts r\<rparr>"

text \<open>One call of \<open>Next\<close>, on the answer of \<open>NextPart\<close>; \<open>es\<close> is the text of an error.\<close>

definition attachments_Next :: "(goerr \<Rightarrow> string) \<Rightarrow> goerr + mime_part \<Rightarrow> goerr + AttachmentPart" where
  "attachments_Next es answer = (case answer of
     Inl err \<Rightarrow>
       if errors_Is err EOF then Inl (Sentinel EOF)
       else Inl (bad_request ''attachments'' (es err) (Wrapped ''next attachment part'' err))
   | Inr part \<Rightarrow>
       if mp_FormName part = ''attachments'' then
         Inr \<lparr>ap_Filename = mp_FileName part, ap_ContentType = mp_ContentType part, ap_Body = mp_Body part\<rparr>
       else if mp_FormName part = ''metadata'' then
         Inl (bad_request ''metadata'' ''duplicate'' (Opaque ''duplicate metadata part''))
       else Inl (bad_request ''part'' (mp_FormName part) (Opaque ''unexpected part name'')))"

definition multipartAttachments :: "(goerr \<Rightarrow> string) \<Rightarrow> mime_parts \<Rightarrow> AttachmentParts" where
  "multipartAttachments es ps = Some (map (attachments_Next es) ps)"

definition splitMetadata ::
  "'y conjure_lib \<Rightarrow> (goerr \<Rightarrow> string) \<Rightarrow> mime_parts \<Rightarrow> goerr + CreateMessage \<times> AttachmentParts" where
  "splitMetadata lib es mr =
     (let missing = bad_request ''metadata'' ''missing'' (Opaque ''missing metadata part'') in
      case mr of
        [] \<Rightarrow> Inl missing
      | Inl err # _ \<Rightarrow>
          if errors_Is err EOF then Inl missing
          else Inl (bad_request ''metadata'' (es err) (Wrapped ''read first part'' err))
      | Inr first # rest \<Rightarrow>
          if mp_FormName first \<noteq> ''metadata''
          then Inl (bad_request ''metadata'' ''must be first part'' (Opaque ''metadata must be the first part''))
          else (case unmarshal_into lib dec_CreateSignalMessageRequest CreateSignalMessageRequest_zero (mp_Body first) of
                  Inl err \<Rightarrow> Inl (bad_request ''metadata'' ''invalid JSON'' (Wrapped ''decode metadata'' err))
                | Inr req \<Rightarrow> Inr (toCreateMessage req, multipartAttachments es rest)))"

section \<open>The handler\<close>

text \<open>The service is the interface \<open>SendMessageEnqueuer\<close>.\<close>

record 's MultipartHandler =
  mh_Enqueue :: "ctx \<Rightarrow> CreateMessage \<Rightarrow> AttachmentParts \<Rightarrow> 's \<Rightarrow> (goerr + EnqueueResult) \<times> 's"

definition ServeHTTP ::
  "'y conjure_lib \<Rightarrow> error_lib \<Rightarrow> (goerr \<Rightarrow> string) \<Rightarrow> 's MultipartHandler \<Rightarrow> ctx \<Rightarrow> upload_request \<Rightarrow> 's \<Rightarrow>
     http_reply \<times> 's" where
  "ServeHTTP lib el es h ctx req s =
     (if uq_Method req \<noteq> ''POST''
      then (writeError (bad_request ''method'' (uq_Method req) (Opaque ''method not allowed'')), s)
      else (case uq_MultipartReader req of
        Inl err \<Rightarrow> (writeError (bad_request ''contentType'' (uq_ContentType req)
                     (Wrapped ''expected multipart/form-data'' err)), s)
      | Inr mr \<Rightarrow>
          (case splitMetadata lib es mr of
             Inl err \<Rightarrow> (writeError err, s)
           | Inr (meta, parts) \<Rightarrow>
               (case mh_Enqueue h ctx meta parts s of
                  (Inl err, s1) \<Rightarrow> (writeError (conjure_error el err), s1)
                | (Inr result, s1) \<Rightarrow> (writeAccepted lib (eq_ID result), s1)))))"

definition NewMultipartHandler ::
  "(ctx \<Rightarrow> CreateMessage \<Rightarrow> AttachmentParts \<Rightarrow> 's \<Rightarrow> (goerr + EnqueueResult) \<times> 's) \<Rightarrow> 's MultipartHandler" where
  "NewMultipartHandler svc = \<lparr>mh_Enqueue = svc\<rparr>"

section \<open>Every reply is typed\<close>

lemma search_is_first: "error_laws el \<Longrightarrow> el_GetConjureError el e = first_conjure e"
  by (induction e) (simp_all add: error_laws_def)

lemma writeError_mapped: "error_laws el \<Longrightarrow> \<exists>c. writeError (conjure_error el e) = Reply_error c"
  using mapped_is_conjure [of el e] by (auto simp: writeError_def search_is_first)

lemma splitMetadata_error:
  "splitMetadata lib es mr = Inl err \<Longrightarrow> \<exists>f m. writeError err = Reply_error (InvalidSignalMessage f m)"
  by (auto simp: splitMetadata_def Let_def bad_request_def writeError_def split: list.splits sum.splits if_splits)

section \<open>All or nothing\<close>

text \<open>The handler bound to the service of the world.\<close>

definition upload_handler :: "(uuid \<Rightarrow> string) \<Rightarrow> Install \<Rightarrow> world MultipartHandler" where
  "upload_handler us install = NewMultipartHandler (Enqueue (world_runtime us) (world_service install))"


text \<open>C40. The part that is at fault is not named to the caller: a part with an unexpected name after the metadata
  is an invalid request to \<open>Next\<close>, but the service wraps it, and the reply is \<open>AttachmentUploadFailed\<close> with
  an empty file name.\<close>

theorem bad_part_is_upload_failure:
  assumes "error_laws el" and "uq_Method req = ''POST''"
    and "uq_MultipartReader req = Inr [Inr meta, Inr part]" and "mp_FormName meta = ''metadata''"
    and "unmarshal_into lib dec_CreateSignalMessageRequest CreateSignalMessageRequest_zero (mp_Body meta) = Inr m"
    and "validate (world_service install) (toCreateMessage m) = None" and "\<not> is_set (cr_IdempotencyKey m)"
    and "mp_FormName part \<noteq> ''attachments''"
  shows "fst (ServeHTTP lib el es (upload_handler us install) c req w) = Reply_error (AttachmentUploadFailed '''')"
proof -
  obtain i w1 where u: "rt_NewUUID (world_runtime us) w = (i, w1)"
    by (meson surj_pair)
  obtain f r e where p: "attachments_Next es (Inr part) = Inl (Conj (InvalidSignalMessage f r) e)"
    using assms(8) by (cases "mp_FormName part = ''metadata''") (auto simp: attachments_Next_def bad_request_def)
  then have "fst (Enqueue (world_runtime us) (world_service install) c (toCreateMessage m)
      (Some [attachments_Next es (Inr part)]) w) =
      Inl (attachmentUploadFailed '''' (Conj (InvalidSignalMessage f r) e))"
    using assms(6,7) u by (simp add: Enqueue_def create_row_def uploadAll_def toCreateMessage_def)
  then show ?thesis
    using assms
    by (auto simp: ServeHTTP_def upload_handler_def NewMultipartHandler_def splitMetadata_def
        multipartAttachments_def mapToConjureError_def IsAttachmentUploadFailed_def error_laws_def
        attachmentUploadFailed_def writeError_def split: prod.splits sum.splits)
qed

section \<open>A sample upload\<close>

definition sample_create_request :: CreateSignalMessageRequest where
  "sample_create_request =
     CreateSignalMessageRequest_zero\<lparr>cr_ExternalId := ''e1'', cr_Recipient := Some ''+1'', cr_Content := ''hi''\<rparr>"

definition sample_part :: "string \<Rightarrow> string \<Rightarrow> mime_part" where
  "sample_part name body = \<lparr>mp_FormName = name, mp_FileName = '''', mp_ContentType = '''', mp_Body = body\<rparr>"

definition sample_upload :: "mime_parts \<Rightarrow> upload_request" where
  "sample_upload ps =
     \<lparr>uq_Method = ''POST'', uq_ContentType = ''multipart/form-data'',
      uq_MultipartReader = Inr (Inr (sample_part ''metadata''
        (json_print (CreateSignalMessageRequest_json sample_create_request))) # ps)\<rparr>"

lemma sample_metadata:
  "unmarshal_into text_lib dec_CreateSignalMessageRequest CreateSignalMessageRequest_zero
     (json_print (CreateSignalMessageRequest_json sample_create_request)) = Inr sample_create_request"
proof -
  have "CreateSignalMessageRequest_ok sample_create_request"
    by (simp add: CreateSignalMessageRequest_ok_def sample_create_request_def CreateSignalMessageRequest_zero_def
        utf8_valid_ascii)
  moreover have "cl_Marshal text_lib = json_print"
    by (simp add: text_lib_def)
  ultimately show ?thesis
    using create_request.library_roundtrip(1) [OF ascii.laws, of sample_create_request] by simp
qed

lemma sample_create_valid: "validate (world_service sample_install) (toCreateMessage sample_create_request) = None"
  using sample_validate [of "''hi''"]
  by (simp add: validate_def sample_request_def toCreateMessage_def sample_create_request_def
      CreateSignalMessageRequest_zero_def visible_def byte_def is_set_def split: if_splits)


theorem bad_part_is_upload_failure_witness:
  "fst (ServeHTTP text_lib text_errors (\<lambda>e. ''x'') (upload_handler sample_uuid_string sample_install) None
     (sample_upload [Inr (sample_part ''note'' '''')]) sample_world) = Reply_error (AttachmentUploadFailed '''')"
proof (rule bad_part_is_upload_failure [OF text_errors_laws])
  show "unmarshal_into text_lib dec_CreateSignalMessageRequest CreateSignalMessageRequest_zero (mp_Body (sample_part ''metadata''
      (json_print (CreateSignalMessageRequest_json sample_create_request)))) = Inr sample_create_request"
    using sample_metadata by (simp add: sample_part_def)
  show "validate (world_service sample_install) (toCreateMessage sample_create_request) = None"
    by (rule sample_create_valid)
  show "uq_MultipartReader (sample_upload [Inr (sample_part ''note'' '''')]) = Inr [Inr (sample_part ''metadata''
      (json_print (CreateSignalMessageRequest_json sample_create_request))), Inr (sample_part ''note'' '''')]"
    by (simp add: sample_upload_def)
qed (simp_all add: sample_upload_def sample_part_def sample_create_request_def CreateSignalMessageRequest_zero_def is_set_def)

end
