(* ===== verification/Spec2Isabelle.thy ===== *)
theory Spec2Isabelle
  imports Outbox Cleanup Attachments Inbound Slack Multipart
begin

text \<open>
  The verification of go-signalium, an outbound Signal delivery service.
\<close>

end
